(* ===== verification/Prelude.thy ===== *)
theory Prelude
  imports Main "HOL-Library.Word" "HOL-Library.Char_ord"
begin

text \<open>
  Shared vocabulary of the development: the machine types of the Go sources, Go's \<^verbatim>\<open>error\<close>
  values as a datatype, fallible results as sums, the little- and big-endian byte strings of
  \<^verbatim>\<open>encoding/binary\<close>, \<^verbatim>\<open>fmt\<close>'s decimal and hexadecimal verbs and the generic list and word
  lemmas that the component theories use.
\<close>

unbundle bit_operations_syntax

section \<open>Lemma collections\<close>

named_theorems wire_enc \<open>an encoder as one write of the bytes of its argument\<close>
named_theorems wire_dec \<open>a decoder applied to the bytes of an encoded value\<close>
named_theorems wire_len \<open>length of encodings\<close>

section \<open>Machine types\<close>

type_synonym byte = "8 word"
type_synonym bytes = "byte list"
type_synonym uint8 = "8 word"
type_synonym uint16 = "16 word"
type_synonym uint32 = "32 word"
type_synonym uint64 = "64 word"

text \<open>
  \<^verbatim>\<open>int32\<close> and \<^verbatim>\<open>int64\<close> are the same bit patterns read through \<^term>\<open>sint\<close>; a Go conversion between
  the signed and the unsigned type of one width keeps the bits.
\<close>

type_synonym int32 = "32 word"
type_synonym int64 = "64 word"

section \<open>Errors and results\<close>

text \<open>
  The error values the sources return: the sentinel errors of package \<^verbatim>\<open>io\<close>, the \<^verbatim>\<open>MessageError\<close>
  of package wire, errors made with \<^verbatim>\<open>errors.New\<close> or \<^verbatim>\<open>fmt.Errorf\<close>, the two errors of
  package \<^verbatim>\<open>encoding/hex\<close>, the \<^verbatim>\<open>errNotInMainChain\<close> of package blockchain, and, so that it cannot go unnoticed, a run-time panic (\<open>Panic\<close>).
\<close>

datatype goerr =
    EOF
  | ErrUnexpectedEOF
  | ErrShortWrite
  | MessageError string string
  | ErrorString string
  | InvalidByteError char
  | ErrLength
  | ErrNotInMainChain string
  | Panic string

type_synonym 'a result = "goerr + 'a"

definition bindR :: "'e + 'a \<Rightarrow> ('a \<Rightarrow> 'e + 'b) \<Rightarrow> 'e + 'b" where
  "bindR m f = (case m of Inl e \<Rightarrow> Inl e | Inr a \<Rightarrow> f a)"

lemma bindR_simps [simp]:
  "bindR (Inl e) f = Inl e"
  "bindR (Inr a) f = f a"
  by (simp_all add: bindR_def)

lemma bindR_Inr_conv: "bindR m f = Inr b \<longleftrightarrow> (\<exists>a. m = Inr a \<and> f a = Inr b)"
  by (cases m) auto

lemma bindR_Inl_conv: "bindR m f = Inl e \<longleftrightarrow> m = Inl e \<or> (\<exists>a. m = Inr a \<and> f a = Inl e)"
  by (cases m) auto

lemma bindR_cong [fundef_cong]:
  "m = m' \<Longrightarrow> (\<And>a. m' = Inr a \<Longrightarrow> f a = f' a) \<Longrightarrow> bindR m f = bindR m' f'"
  by (cases m') auto

lemma bindR_assoc: "bindR (bindR m f) g = bindR m (\<lambda>a. bindR (f a) g)"
  by (cases m) auto

section \<open>Byte orders\<close>

text \<open>
  \<^verbatim>\<open>binary.LittleEndian.PutUintN\<close> stores \<^verbatim>\<open>byte(v), byte(v>>8), ...\<close> and \<^verbatim>\<open>UintN\<close> ors the
  shifted bytes together again. \<^verbatim>\<open>binary.BigEndian\<close> is the same on the reversed bytes.
\<close>

primrec le_bytes :: "nat \<Rightarrow> 'a::len word \<Rightarrow> bytes" where
  "le_bytes 0 v = []"
| "le_bytes (Suc n) v = ucast v # le_bytes n (drop_bit 8 v)"

primrec of_le_bytes :: "bytes \<Rightarrow> 'a::len word" where
  "of_le_bytes [] = 0"
| "of_le_bytes (b # bs) = ucast b OR push_bit 8 (of_le_bytes bs)"

definition be_bytes :: "nat \<Rightarrow> 'a::len word \<Rightarrow> bytes" where
  "be_bytes n v = rev (le_bytes n v)"

definition of_be_bytes :: "bytes \<Rightarrow> 'a::len word" where
  "of_be_bytes bs = of_le_bytes (rev bs)"

lemma length_le_bytes [simp]: "length (le_bytes n v) = n"
  by (induction n arbitrary: v) auto

lemma length_be_bytes [simp]: "length (be_bytes n v) = n"
  by (simp add: be_bytes_def)

lemma of_le_bytes_le_bytes: "of_le_bytes (le_bytes n v) = take_bit (8 * n) v"
proof (induction n arbitrary: v)
  case (Suc n)
  show ?case
    by (rule bit_word_eqI)
      (auto simp: Suc.IH bit_simps less_Suc_eq_le split: if_splits)
qed simp

lemma of_le_bytes_full:
  fixes v :: "'a::len word"
  assumes "LENGTH('a) = 8 * n"
  shows "of_le_bytes (le_bytes n v) = v"
proof -
  have "take_bit (8 * n) v = v"
    unfolding assms [symmetric] by (simp add: take_bit_word_eq_self)
  then show ?thesis by (simp add: of_le_bytes_le_bytes)
qed

lemma bit_of_le_bytes_beyond: "8 * length bs \<le> i \<Longrightarrow> \<not> bit (of_le_bytes bs :: 'a::len word) i"
proof (induction bs arbitrary: i)
  case (Cons b bs)
  then have "8 * length bs \<le> i - 8" and "8 \<le> i" by auto
  with Cons.IH [of "i - 8"] show ?case
    by (auto simp: bit_simps dest: bit_imp_le_length)
qed simp

lemma le_bytes_of_le_bytes:
  assumes "8 * length bs \<le> LENGTH('a)"
  shows "le_bytes (length bs) (of_le_bytes bs :: 'a::len word) = bs"
  using assms
proof (induction bs)
  case (Cons b bs)
  let ?v = "of_le_bytes bs :: 'a word"
  have hd: "ucast (ucast b OR push_bit 8 ?v) = b"
    using Cons.prems by (intro bit_word_eqI) (auto simp: bit_simps)
  have tl: "drop_bit 8 (ucast b OR push_bit 8 ?v) = ?v"
  proof (rule bit_word_eqI)
    fix i assume "i < LENGTH('a)"
    have "bit ?v i \<Longrightarrow> i < 8 * length bs"
      using bit_of_le_bytes_beyond [of bs i, where 'a = 'a] by (cases "i < 8 * length bs") auto
    then show "bit (drop_bit 8 (ucast b OR push_bit 8 ?v)) i = bit ?v i"
      using Cons.prems by (auto simp: bit_simps dest: bit_imp_le_length)
  qed
  with Cons show ?case by (simp add: hd tl del: drop_bit_or)
qed simp

lemma of_be_bytes_full:
  fixes v :: "'a::len word"
  assumes "LENGTH('a) = 8 * n"
  shows "of_be_bytes (be_bytes n v) = v"
  using of_le_bytes_full [OF assms] by (simp add: be_bytes_def of_be_bytes_def)

lemma be_bytes_of_be_bytes:
  assumes "8 * length bs \<le> LENGTH('a)"
  shows "be_bytes (length bs) (of_be_bytes bs :: 'a::len word) = bs"
  using le_bytes_of_le_bytes [of "rev bs", where 'a = 'a] assms
  by (simp add: be_bytes_def of_be_bytes_def)

section \<open>Strings\<close>

text \<open>A Go string is a sequence of bytes; \<^typ>\<open>char\<close> is a byte too.\<close>

definition string_bytes :: "string \<Rightarrow> bytes" where
  "string_bytes s = map (\<lambda>c. word_of_nat (of_char c)) s"

definition bytes_string :: "bytes \<Rightarrow> string" where
  "bytes_string bs = map (\<lambda>b. char_of (unat b)) bs"

lemma length_string_bytes [simp]: "length (string_bytes s) = length s"
  by (simp add: string_bytes_def)

lemma length_bytes_string [simp]: "length (bytes_string bs) = length bs"
  by (simp add: bytes_string_def)

lemma bytes_string_bytes [simp]: "bytes_string (string_bytes s) = s"
proof -
  have "char_of (unat (word_of_nat (of_char c) :: byte)) = c" for c
    using nat_of_char_less_256 [of c] by (simp add: unat_of_nat)
  then show ?thesis by (simp add: bytes_string_def string_bytes_def o_def)
qed

lemma string_bytes_string [simp]: "string_bytes (bytes_string bs) = bs"
proof -
  have "word_of_nat (of_char (char_of (unat b))) = b" for b :: byte
    using unsigned_less [of b, where 'a = nat] by simp
  then show ?thesis by (simp add: bytes_string_def string_bytes_def o_def)
qed

subsection \<open>Numbers as text: \<^verbatim>\<open>%d\<close>, \<^verbatim>\<open>%x\<close> and \<^verbatim>\<open>strconv.FormatInt\<close>\<close>

definition hex_digit :: "nat \<Rightarrow> char" where
  "hex_digit n = ''0123456789abcdef'' ! n"

fun fmt_nat :: "nat \<Rightarrow> nat \<Rightarrow> string" where
  "fmt_nat base n =
     (if base < 2 \<or> n < base then [hex_digit n]
      else fmt_nat base (n div base) @ [hex_digit (n mod base)])"

declare fmt_nat.simps [simp del]

definition fmt_d :: "int \<Rightarrow> string" where
  "fmt_d i = (if i < 0 then CHR ''-'' # fmt_nat 10 (nat (- i)) else fmt_nat 10 (nat i))"

definition fmt_x :: "nat \<Rightarrow> string" where
  "fmt_x n = fmt_nat 16 n"

lemma fmt_nat_set: "0 < base \<Longrightarrow> 2 \<le> base \<Longrightarrow> set (fmt_nat base n) \<subseteq> hex_digit ` {..<base}"
proof (induction base n rule: fmt_nat.induct)
  case (1 base n)
  show ?case
  proof (cases "n < base")
    case True
    then show ?thesis by (subst fmt_nat.simps) auto
  next
    case False
    with 1 have "set (fmt_nat base (n div base)) \<subseteq> hex_digit ` {..<base}" by auto
    with False 1 show ?thesis by (subst fmt_nat.simps) auto
  qed
qed

lemma fmt_nat_length: "2 \<le> base \<Longrightarrow> 0 < k \<Longrightarrow> n < base ^ k \<Longrightarrow> length (fmt_nat base n) \<le> k"
proof (induction base n arbitrary: k rule: fmt_nat.induct)
  case (1 base n)
  show ?case
  proof (cases "n < base")
    case True
    then show ?thesis using 1 by (subst fmt_nat.simps) simp
  next
    case False
    obtain j where k: "k = Suc j" using 1 by (cases k) auto
    have j: "0 < j" using 1 False k by (cases j) auto
    have "n div base < base ^ j"
      using 1 by (simp add: k less_mult_imp_div_less mult.commute)
    with False 1 j have "length (fmt_nat base (n div base)) \<le> j" by auto
    with False 1 show ?thesis by (subst fmt_nat.simps) (simp add: k)
  qed
qed

text \<open>\<^verbatim>\<open>%q\<close>: double quotes around the text, with quotes, backslashes and control characters escaped.\<close>

definition quote_char :: "char \<Rightarrow> string" where
  "quote_char c =
     (if c = CHR 0x22 then [CHR 0x5C, CHR 0x22]
      else if c = CHR 0x5C then [CHR 0x5C, CHR 0x5C]
      else if c = CHR 0x0A then [CHR 0x5C, CHR ''n'']
      else if c = CHR 0x0D then [CHR 0x5C, CHR ''r'']
      else if c = CHR 0x09 then [CHR 0x5C, CHR ''t'']
      else if of_char c < (32 :: nat) \<or> of_char c = (127 :: nat)
      then [CHR 0x5C, CHR ''x'', hex_digit (of_char c div 16), hex_digit (of_char c mod 16)]
      else [c])"

definition fmt_q :: "string \<Rightarrow> string" where
  "fmt_q s = CHR 0x22 # concat (map quote_char s) @ [CHR 0x22]"

subsection \<open>Package \<^verbatim>\<open>encoding/hex\<close>\<close>

definition fromHexChar :: "char \<Rightarrow> byte option" where
  "fromHexChar c =
     (if CHR ''0'' \<le> c \<and> c \<le> CHR ''9'' then Some (word_of_nat (of_char c) - 48)
      else if CHR ''a'' \<le> c \<and> c \<le> CHR ''f'' then Some (word_of_nat (of_char c) - 87)
      else if CHR ''A'' \<le> c \<and> c \<le> CHR ''F'' then Some (word_of_nat (of_char c) - 55)
      else None)"

fun hex_Decode :: "string \<Rightarrow> bytes result" where
  "hex_Decode [] = Inr []"
| "hex_Decode [p] = (case fromHexChar p of None \<Rightarrow> Inl (InvalidByteError p) | Some _ \<Rightarrow> Inl ErrLength)"
| "hex_Decode (p # q # cs) =
     (case fromHexChar p of None \<Rightarrow> Inl (InvalidByteError p)
      | Some a \<Rightarrow> (case fromHexChar q of None \<Rightarrow> Inl (InvalidByteError q)
        | Some b \<Rightarrow> bindR (hex_Decode cs) (\<lambda>bs. Inr ((push_bit 4 a OR b) # bs))))"

definition hex_EncodeToString :: "bytes \<Rightarrow> string" where
  "hex_EncodeToString bs =
     concat (map (\<lambda>b. [hex_digit (unat (drop_bit 4 b)), hex_digit (unat (b AND 15))]) bs)"

lemma fromHexChar_hex_digit [simp]:
  assumes "n < 16"
  shows "fromHexChar (hex_digit n) = Some (word_of_nat n)"
proof -
  have "\<forall>n \<in> set [0..<16]. fromHexChar (hex_digit n) = Some (word_of_nat n)"
    by code_simp
  with assms show ?thesis by simp
qed

lemma nibbles: "push_bit 4 (drop_bit 4 b) OR (b AND 15) = (b :: byte)"
proof -
  have "b AND 15 = take_bit 4 b" by (simp add: take_bit_eq_mask mask_eq_exp_minus_1)
  then show ?thesis by (simp only:) (rule bit_word_eqI, auto simp: bit_simps)
qed

lemma unat_nibble_less:
  "unat (drop_bit 4 (b :: byte)) < 16" "unat (b AND 15 :: byte) < 16"
proof -
  show "unat (drop_bit 4 b) < 16"
    using unsigned_less [of b, where 'a = nat]
    by (simp add: drop_bit_eq_div unat_div less_mult_imp_div_less)
  show "unat (b AND 15) < 16"
    using word_and_le1 [of b 15] by (simp add: word_le_nat_alt)
qed

lemma hex_Decode_EncodeToString [simp]: "hex_Decode (hex_EncodeToString bs) = Inr bs"
  by (induction bs) (simp_all add: hex_EncodeToString_def unat_nibble_less nibbles)

lemma length_hex_EncodeToString [simp]: "length (hex_EncodeToString bs) = 2 * length bs"
  by (induction bs) (simp_all add: hex_EncodeToString_def)

lemma hex_Decode_append:
  "even (length s) \<Longrightarrow> hex_Decode (s @ t) =
     bindR (hex_Decode s) (\<lambda>a. bindR (hex_Decode t) (\<lambda>b. Inr (a @ b)))"
proof (induction s rule: hex_Decode.induct)
  case 1
  show ?case by (cases "hex_Decode t") auto
next
  case (3 p q cs)
  then show ?case by (simp add: bindR_assoc split: option.split)
qed simp

lemma hex_Decode_length: "hex_Decode s = Inr bs \<Longrightarrow> length s = 2 * length bs"
  by (induction s arbitrary: bs rule: hex_Decode.induct)
    (auto simp: bindR_Inr_conv split: option.splits)

section \<open>Times\<close>

text \<open>
  A \<^verbatim>\<open>time.Time\<close> is its distance from the Unix epoch in nanoseconds. The zero time is the first
  of January of year 1, UTC.
\<close>

type_synonym gotime = int

definition time_Unix :: "int \<Rightarrow> gotime" where
  "time_Unix sec = sec * 1000000000"

definition Unix :: "gotime \<Rightarrow> int" where
  "Unix t = t div 1000000000"

definition IsZero :: "gotime \<Rightarrow> bool" where
  "IsZero t \<longleftrightarrow> t = time_Unix (- 62135596800)"

lemma Unix_time_Unix [simp]: "Unix (time_Unix s) = s"
  by (simp add: Unix_def time_Unix_def)

lemma time_Unix_eq_iff [simp]: "time_Unix s = time_Unix t \<longleftrightarrow> s = t"
  by (simp add: time_Unix_def)

section \<open>Counting loops over a reader\<close>

text \<open>
  \<^verbatim>\<open>for i := 0; i < n; i++ { x[i], err = dec(r); if err != nil { return err } }\<close>, where \<^term>\<open>dec\<close>
  takes the remaining input and returns what is left of it.
\<close>

type_synonym 'a decoder = "bytes \<Rightarrow> ('a \<times> bytes) result"

primrec read_n :: "'a decoder \<Rightarrow> nat \<Rightarrow> 'a list decoder" where
  "read_n dec 0 r = Inr ([], r)"
| "read_n dec (Suc n) r =
     bindR (dec r) (\<lambda>(x, r). bindR (read_n dec n r) (\<lambda>(xs, r). Inr (x # xs, r)))"

lemma read_n_length: "read_n dec n r = Inr (xs, r') \<Longrightarrow> length xs = n"
  by (induction n arbitrary: r xs) (auto simp: bindR_Inr_conv)

lemma read_n_all:
  assumes "read_n dec n r = Inr (xs, r')"
    and "\<And>r x r'. dec r = Inr (x, r') \<Longrightarrow> P x"
  shows "\<forall>x \<in> set xs. P x"
  using assms(1)
proof (induction n arbitrary: r xs)
  case (Suc n)
  then obtain x r1 ys where *: "dec r = Inr (x, r1)" "read_n dec n r1 = Inr (ys, r')" "xs = x # ys"
    by (auto simp: bindR_Inr_conv)
  with Suc.IH assms(2) show ?case by auto
qed simp

section \<open>Transition systems\<close>

text \<open>An invariant of a system of steps: it holds initially and every step keeps it.\<close>

locale invariant_system =
  fixes init :: "'s \<Rightarrow> bool" and step :: "'s \<Rightarrow> 's \<Rightarrow> bool" and inv :: "'s \<Rightarrow> bool"
  assumes init_inv: "init s \<Longrightarrow> inv s"
    and step_inv: "inv s \<Longrightarrow> step s t \<Longrightarrow> inv t"
begin

lemma steps_inv: "rtranclp step s t \<Longrightarrow> inv s \<Longrightarrow> inv t"
  by (induction rule: rtranclp_induct) (blast intro: step_inv)+

lemma reach_inv: "init s \<Longrightarrow> rtranclp step s t \<Longrightarrow> inv t"
  using steps_inv init_inv by blast

end

end
