(* ===== verification/Codec.thy ===== *)
theory Codec
  imports Prelude
begin

text \<open>
  The contract between an encoder and the decoder that reads its bytes from the front of the
  input: \<open>sound_codec\<close> asks that what was written is read back and the rest left alone, \<open>codec\<close>
  that in addition a decoder accepts nothing but encodings. Sequences, pairs and length-prefixed
  lists inherit the contract.
\<close>

locale sound_codec =
  fixes enc :: "'a \<Rightarrow> bytes" and dec :: "'a decoder" and ok :: "'a \<Rightarrow> bool"
  assumes dec_enc: "ok x \<Longrightarrow> dec (enc x @ r) = Inr (x, r)"
begin

lemma dec_enc_only: "ok x \<Longrightarrow> dec (enc x) = Inr (x, [])"
  using dec_enc [of x "[]"] by simp

lemma enc_prefix_free: "ok x \<Longrightarrow> ok y \<Longrightarrow> enc x @ r = enc y @ s \<Longrightarrow> x = y \<and> r = s"
  by (metis dec_enc Inr_inject prod.inject)

lemma enc_inj_on: "inj_on enc {x. ok x}"
  by (rule inj_onI) (metis enc_prefix_free mem_Collect_eq)

lemma read_n_enc:
  "\<forall>x \<in> set xs. ok x \<Longrightarrow> read_n dec (length xs) (concat (map enc xs) @ r) = Inr (xs, r)"
  by (induction xs) (simp_all add: dec_enc)

end

locale codec = sound_codec +
  assumes dec_sound: "dec bs = Inr (x, r) \<Longrightarrow> ok x \<and> bs = enc x @ r"
begin

lemma dec_iff: "dec bs = Inr (x, r) \<longleftrightarrow> ok x \<and> bs = enc x @ r"
  using dec_enc dec_sound by blast

lemma dec_consumes: "dec bs = Inr (x, r) \<Longrightarrow> length bs = length (enc x) + length r"
  by (auto dest: dec_sound)

lemma read_n_sound:
  "read_n dec n bs = Inr (xs, r) \<Longrightarrow>
     length xs = n \<and> (\<forall>x \<in> set xs. ok x) \<and> bs = concat (map enc xs) @ r"
proof (induction n arbitrary: bs xs)
  case (Suc n)
  then obtain x ys s where dec: "dec bs = Inr (x, s)" and ys: "read_n dec n s = Inr (ys, r)"
    and xs: "xs = x # ys"
    by (auto simp: bindR_Inr_conv)
  with Suc.IH [OF ys] dec_sound [OF dec] show ?case by simp
qed simp

lemma read_n_iff:
  "read_n dec n bs = Inr (xs, r) \<longleftrightarrow>
     length xs = n \<and> (\<forall>x \<in> set xs. ok x) \<and> bs = concat (map enc xs) @ r"
  using read_n_sound read_n_enc by blast

end

end
