(* ===== verification/Chainhash.thy ===== *)
theory Chainhash
  imports Prelude Sha256
begin

text \<open>
  Package chainhash (\<^verbatim>\<open>chaincfg/chainhash/hash.go\<close>, \<^verbatim>\<open>hashfuncs.go\<close>): the 32-byte hash, its
  byte-reversed hexadecimal text form and the double SHA-256.
\<close>

section \<open>Definitions\<close>

definition HashSize :: nat where "HashSize = 32"
definition MaxHashStringSize :: nat where "MaxHashStringSize = HashSize * 2"

text \<open>A \<^verbatim>\<open>Hash\<close> is an array of \<open>HashSize\<close> bytes: a byte list with \<open>wf_hash\<close>.\<close>

type_synonym hash = bytes

definition wf_hash :: "hash \<Rightarrow> bool" where "wf_hash h \<longleftrightarrow> length h = HashSize"

definition ErrHashStrSize :: goerr where
  "ErrHashStrSize = ErrorString (''max hash string length is '' @ fmt_d (int MaxHashStringSize) @ '' bytes'')"

text \<open>
  \<open>Decode\<close> returns the new contents of \<^verbatim>\<open>dst\<close>. The last loop writes two positions of \<^verbatim>\<open>dst\<close> per
  iteration from the temporary array.
\<close>

definition Decode :: "hash \<Rightarrow> string \<Rightarrow> hash result" where
  "Decode dst src =
     (if length src > MaxHashStringSize then Inl ErrHashStrSize
      else let srcBytes = (if even (length src) then src else CHR ''0'' # src) in
        bindR (hex_Decode srcBytes) (\<lambda>decoded.
          let reversedHash = replicate (HashSize - length srcBytes div 2) 0 @ decoded in
          Inr (fold (\<lambda>i dst. dst[i := reversedHash ! (HashSize - 1 - i),
                                 HashSize - 1 - i := reversedHash ! i])
                 [0..<HashSize div 2] dst)))"

definition NewHashFromStr :: "string \<Rightarrow> hash result" where
  "NewHashFromStr hash = Decode (replicate HashSize 0) hash"

definition hash_String :: "hash \<Rightarrow> string" where
  "hash_String hash =
     hex_EncodeToString
       (fold (\<lambda>i h. h[i := h ! (HashSize - 1 - i), HashSize - 1 - i := h ! i])
          [0..<HashSize div 2] hash)"

definition DoubleHashH :: "bytes \<Rightarrow> hash" where
  "DoubleHashH b = (let first = Sum256 b in Sum256 first)"

definition DoubleHashB :: "bytes \<Rightarrow> bytes" where
  "DoubleHashB b = (let first = Sum256 b; second = Sum256 first in second)"

section \<open>The two reversing loops\<close>

definition mirror_step :: "'a list \<Rightarrow> nat \<Rightarrow> 'a list \<Rightarrow> 'a list" where
  "mirror_step src i d = d[i := src ! (length src - 1 - i), length src - 1 - i := src ! i]"

lemma length_mirror_fold [simp]: "length (fold (mirror_step src) is d) = length d"
  by (induction "is" arbitrary: d) (simp_all add: mirror_step_def)

lemma nth_mirror_step:
  "length d = length src \<Longrightarrow> j < length src \<Longrightarrow> k < length src \<Longrightarrow>
   mirror_step src k d ! j =
     (if j = k \<or> j = length src - 1 - k then src ! (length src - 1 - j) else d ! j)"
  by (auto simp: mirror_step_def nth_list_update)

lemma mirror_loop_nth:
  assumes "2 * k \<le> length src" and "length dst = length src" and "j < length src"
  shows "fold (mirror_step src) [0..<k] dst ! j
     = (if j < k \<or> length src - 1 - j < k then src ! (length src - 1 - j) else dst ! j)"
  using assms(1)
proof (induction k)
  case (Suc k)
  have len: "length (fold (mirror_step src) [0..<k] dst) = length src" by (simp add: assms(2))
  have k: "k < length src" using Suc.prems by simp
  have step: "fold (mirror_step src) [0..<Suc k] dst = mirror_step src k (fold (mirror_step src) [0..<k] dst)"
    by simp
  show ?case
    unfolding step nth_mirror_step [OF len assms(3) k]
    using Suc assms(3) by auto
qed (use assms in simp)

lemma mirror_loop:
  assumes "length src = 2 * k" and "length dst = length src"
  shows "fold (mirror_step src) [0..<k] dst = rev src"
proof (rule nth_equalityI)
  show "length (fold (mirror_step src) [0..<k] dst) = length (rev src)"
    by (simp add: assms(2))
  fix j assume "j < length (fold (mirror_step src) [0..<k] dst)"
  then have j: "j < length src" by (simp add: assms(2))
  with assms have "j < k \<or> length src - 1 - j < k" by arith
  with mirror_loop_nth [OF _ assms(2) j, of k] assms(1) j
  show "fold (mirror_step src) [0..<k] dst ! j = rev src ! j" by (simp add: rev_nth)
qed

lemma swap_loop_eq_mirror:
  assumes "2 * k \<le> length h"
  shows "fold (\<lambda>i d. d[i := d ! (length h - 1 - i), length h - 1 - i := d ! i]) [0..<k] h
     = fold (mirror_step h) [0..<k] h"
  using assms
proof (induction k)
  case (Suc k)
  define d where "d = fold (mirror_step h) [0..<k] h"
  have "\<not> length h - 1 - k < k" using Suc.prems by arith
  then have "d ! k = h ! k" and "d ! (length h - 1 - k) = h ! (length h - 1 - k)"
    using mirror_loop_nth [of k h h k] mirror_loop_nth [of k h h "length h - 1 - k"] Suc.prems
    by (simp_all add: d_def)
  then have "d[k := d ! (length h - 1 - k), length h - 1 - k := d ! k] = mirror_step h k d"
    by (simp add: mirror_step_def)
  with Suc show ?case by (simp add: d_def)
qed simp

lemma hash_String_rev: "wf_hash h \<Longrightarrow> hash_String h = hex_EncodeToString (rev h)"
  using swap_loop_eq_mirror [of 16 h] mirror_loop [of h 16 h]
  by (simp add: hash_String_def wf_hash_def HashSize_def)

lemma Decode_rev:
  assumes "length dst = HashSize"
  shows "Decode dst src =
     (if length src > MaxHashStringSize then Inl ErrHashStrSize
      else bindR (hex_Decode (if even (length src) then src else CHR ''0'' # src))
        (\<lambda>bs. Inr (rev bs @ replicate (HashSize - length bs) 0)))"
proof (cases "length src > MaxHashStringSize")
  case False
  define s where "s = (if even (length src) then src else CHR ''0'' # src)"
  have s: "length s \<le> 64"
    using False by (auto simp: s_def MaxHashStringSize_def HashSize_def le_less elim!: oddE)
  show ?thesis
  proof (cases "hex_Decode s")
    case (Inr bs)
    then have bs: "length s = 2 * length bs" by (rule hex_Decode_length)
    let ?r = "replicate (HashSize - length bs) 0 @ bs"
    have "length ?r = 2 * 16" using s bs by (simp add: HashSize_def)
    from mirror_loop [OF this, of dst] False Inr bs s show ?thesis
      by (simp add: Decode_def s_def [symmetric] assms HashSize_def mirror_step_def [abs_def])
  qed (use False in \<open>simp add: Decode_def s_def [symmetric]\<close>)
qed (simp add: Decode_def)

section \<open>Text form\<close>

definition lower :: "char \<Rightarrow> char" where
  "lower c = (if CHR ''A'' \<le> c \<and> c \<le> CHR ''F'' then char_of (of_char c + (32 :: nat)) else c)"

definition is_hex :: "char \<Rightarrow> bool" where
  "is_hex c \<longleftrightarrow> fromHexChar c \<noteq> None"

lemma hex_Decode_is_hex:
  "even (length s) \<Longrightarrow> list_all is_hex s \<longleftrightarrow> (\<exists>bs. hex_Decode s = Inr bs)"
  by (induction s rule: hex_Decode.induct)
    (auto simp: is_hex_def bindR_Inr_conv split: option.splits)

lemma NewHashFromStr_Inr:
  "NewHashFromStr s = Inr h \<longleftrightarrow>
     length s \<le> MaxHashStringSize \<and>
     (\<exists>bs. hex_Decode (if even (length s) then s else CHR ''0'' # s) = Inr bs \<and>
           h = rev bs @ replicate (HashSize - length bs) 0)"
  by (auto simp: NewHashFromStr_def Decode_rev bindR_Inr_conv)

lemma NewHashFromStr_wf: "NewHashFromStr s = Inr h \<Longrightarrow> wf_hash h"
  by (auto simp: NewHashFromStr_Inr wf_hash_def HashSize_def MaxHashStringSize_def
      dest!: hex_Decode_length split: if_splits elim!: oddE)

lemma length_hash_String: "wf_hash h \<Longrightarrow> length (hash_String h) = MaxHashStringSize"
  by (simp add: hash_String_rev wf_hash_def MaxHashStringSize_def)

text \<open>The digit \<open>EncodeToString\<close> prints for a nibble that \<open>fromHexChar\<close> read is the lower-case digit.\<close>

lemma char_ranges:
  "CHR ''0'' \<le> c \<and> c \<le> CHR ''9'' \<longleftrightarrow> of_char c \<in> {48..57 :: nat}"
  "CHR ''a'' \<le> c \<and> c \<le> CHR ''f'' \<longleftrightarrow> of_char c \<in> {97..102 :: nat}"
  "CHR ''A'' \<le> c \<and> c \<le> CHR ''F'' \<longleftrightarrow> of_char c \<in> {65..70 :: nat}"
  by (auto simp: less_eq_char_def)

lemma hex_digit_fromHexChar:
  assumes "fromHexChar c = Some a"
  shows "unat a < 16 \<and> hex_digit (unat a) = lower c"
proof -
  have "\<forall>n \<in> {48..57} \<union> {97..102} \<union> {65..70}.
      (case fromHexChar (char_of (n::nat)) of None \<Rightarrow> False
       | Some a \<Rightarrow> unat a < 16 \<and> hex_digit (unat a) = lower (char_of n))"
    by code_simp
  moreover have "of_char c \<in> {48..57} \<union> {97..102} \<union> {65..70 :: nat}"
    using assms by (auto simp: fromHexChar_def char_ranges split: if_splits)
  ultimately have "case fromHexChar (char_of (of_char c :: nat)) of None \<Rightarrow> False
       | Some a \<Rightarrow> unat a < 16 \<and> hex_digit (unat a) = lower (char_of (of_char c :: nat))"
    by blast
  with assms show ?thesis by simp
qed

lemma nibbles_join:
  fixes a b :: byte
  assumes "unat a < 16" and "unat b < 16"
  shows "drop_bit 4 (push_bit 4 a OR b) = a" and "(push_bit 4 a OR b) AND 15 = b"
proof -
  have m: "x AND 15 = take_bit 4 x" for x :: byte
    by (simp add: take_bit_eq_mask mask_eq_exp_minus_1)
  have small: "take_bit 4 x = x" if "unat x < 16" for x :: byte
    using that by (simp add: word_unat_eq_iff unsigned_take_bit_eq take_bit_eq_mod unat_mod)
  have "drop_bit 4 (push_bit 4 (take_bit 4 a) OR take_bit 4 b) = take_bit 4 a"
    by (rule bit_word_eqI) (auto simp: bit_simps)
  then show "drop_bit 4 (push_bit 4 a OR b) = a"
    by (simp only: small assms)
  have "take_bit 4 (push_bit 4 (take_bit 4 a) OR take_bit 4 b) = take_bit 4 b"
    by (rule bit_word_eqI) (auto simp: bit_simps)
  then show "(push_bit 4 a OR b) AND 15 = b"
    by (simp only: small assms m)
qed

lemma hex_EncodeToString_Decode: "hex_Decode s = Inr bs \<Longrightarrow> hex_EncodeToString bs = map lower s"
proof (induction s arbitrary: bs rule: hex_Decode.induct)
  case (3 p q cs)
  then obtain a b cs' where ab: "fromHexChar p = Some a" "fromHexChar q = Some b"
    and cs: "hex_Decode cs = Inr cs'" and bs: "bs = (push_bit 4 a OR b) # cs'"
    by (auto simp: bindR_Inr_conv split: option.splits)
  have "hex_EncodeToString cs' = map lower cs" using 3 ab cs by blast
  with ab [THEN hex_digit_fromHexChar] show ?case
    by (simp add: bs nibbles_join hex_EncodeToString_def del: drop_bit_or)
qed (auto simp: hex_EncodeToString_def split: option.splits)

lemma hex_EncodeToString_append: "hex_EncodeToString (a @ b) = hex_EncodeToString a @ hex_EncodeToString b"
  by (simp add: hex_EncodeToString_def)

lemma hex_EncodeToString_zeros: "hex_EncodeToString (replicate n 0) = replicate (2 * n) (CHR ''0'')"
  by (induction n) (simp_all add: hex_EncodeToString_def hex_digit_def)

lemma lower_0 [simp]: "lower (CHR ''0'') = CHR ''0''"
  by code_simp

lemma NewHashFromStr_text:
  "(if length s \<le> 64 \<and> list_all is_hex s
    then \<exists>h. NewHashFromStr s = Inr h \<and> wf_hash h \<and>
             hash_String h = replicate (64 - length s) (CHR ''0'') @ map lower s
    else \<exists>e. NewHashFromStr s = Inl e)"
proof (cases "length s \<le> 64 \<and> list_all is_hex s")
  case True
  define t where "t = (if even (length s) then s else CHR ''0'' # s)"
  have "is_hex (CHR ''0'')" by code_simp
  then have "even (length t)" and "list_all is_hex t" using True by (auto simp: t_def)
  then obtain bs where bs: "hex_Decode t = Inr bs" using hex_Decode_is_hex by blast
  let ?h = "rev bs @ replicate (HashSize - length bs) 0"
  have h: "NewHashFromStr s = Inr ?h"
    using True bs by (simp add: NewHashFromStr_Inr MaxHashStringSize_def HashSize_def t_def)
  then have wf: "wf_hash ?h" by (rule NewHashFromStr_wf)
  have len: "length t = 2 * length bs" using bs by (rule hex_Decode_length)
  have "hash_String ?h = replicate (64 - length t) (CHR ''0'') @ map lower t"
    using wf len hex_EncodeToString_Decode [OF bs]
    by (simp add: hash_String_rev hex_EncodeToString_append hex_EncodeToString_zeros HashSize_def
        diff_mult_distrib2)
  moreover have "replicate (64 - length t) (CHR ''0'') @ map lower t
      = replicate (64 - length s) (CHR ''0'') @ map lower s"
  proof (cases "even (length s)")
    case False
    then have "length s \<noteq> 64" by auto
    then have "Suc (63 - length s) = 64 - length s" using True by linarith
    then have "64 - length s = Suc (64 - length t)" using False by (simp add: t_def)
    with False show ?thesis by (simp add: t_def replicate_app_Cons_same)
  qed (simp add: t_def)
  ultimately show ?thesis using True h wf by auto
next
  case False
  have "\<nexists>h. NewHashFromStr s = Inr h"
  proof
    assume "\<exists>h. NewHashFromStr s = Inr h"
    then obtain bs where l: "length s \<le> 64" and
      bs: "hex_Decode (if even (length s) then s else CHR ''0'' # s) = Inr bs"
      by (auto simp: NewHashFromStr_Inr MaxHashStringSize_def HashSize_def)
    then have "list_all is_hex (if even (length s) then s else CHR ''0'' # s)"
      using hex_Decode_is_hex by (metis (full_types) even_Suc length_Cons)
    then have "list_all is_hex s" by (auto split: if_splits)
    with l False show False by simp
  qed
  then show ?thesis using False by (cases "NewHashFromStr s") auto
qed

section \<open>Properties\<close>

text \<open>
  parsing the text form of a hash gives the hash back, from the reversing in \<^verbatim>\<open>Decode\<close> and the
  in-place swaps of \<^verbatim>\<open>String\<close>.
\<close>

theorem NewHashFromStr_String:
  assumes "wf_hash h"
  shows "NewHashFromStr (hash_String h) = Inr h"
  using assms
  by (simp add: NewHashFromStr_def Decode_rev hash_String_rev wf_hash_def MaxHashStringSize_def HashSize_def)

theorem NewHashFromStr_String_witness:
  "wf_hash (map word_of_nat [0..<32]) \<and>
   NewHashFromStr (hash_String (map word_of_nat [0..<32])) = Inr (map word_of_nat [0..<32])"
proof -
  have h: "wf_hash (map word_of_nat [0..<32])" by (simp add: wf_hash_def HashSize_def)
  show ?thesis using h NewHashFromStr_String [OF h] by simp
qed

text \<open>
  C30: what \<^verbatim>\<open>NewHashFromStr\<close> accepts and what it makes of it. It succeeds exactly on at most 64
  hexadecimal digits, and the text form of the result is the input in lower case, padded with
  zeros on the left to 64 digits.
\<close>

theorem NewHashFromStr_spec:
  "(if length s \<le> 64 \<and> list_all is_hex s
    then \<exists>h. NewHashFromStr s = Inr h \<and> wf_hash h \<and>
             hash_String h = replicate (64 - length s) (CHR ''0'') @ map lower s
    else \<exists>e. NewHashFromStr s = Inl e)"
  by (rule NewHashFromStr_text)

end
