(* ===== verification/Wire_Common.thy ===== *)
theory Wire_Common
  imports Codec Chainhash
begin

text \<open>
  Package wire, file \<^verbatim>\<open>wire/common.go\<close> (with \<^verbatim>\<open>wire/error.go\<close> and \<^verbatim>\<open>wire/message.go\<close>): the buffer
  free list behind the primitive integer readers and writers, \<^verbatim>\<open>readElement\<close> and \<^verbatim>\<open>writeElement\<close>,
  variable length integers, strings and byte arrays. A reader is the list of the bytes it will
  still deliver (\<^verbatim>\<open>bytes.Reader\<close>); a writer has a buffer and, where it can fail, the room it has
  left. Each writer function is shown to be one \<open>Write\<close> of the bytes of its argument.
\<close>

section \<open>Readers and writers\<close>

definition ReadFull :: "nat \<Rightarrow> bytes decoder" where
  "ReadFull n r =
     (if n = 0 then Inr ([], r)
      else if r = [] then Inl EOF
      else if length r < n then Inl ErrUnexpectedEOF
      else Inr (take n r, drop n r))"

record writer =
  wbuf :: bytes
  wroom :: "nat option"

text \<open>
  \<open>wroom = None\<close> is a \<^verbatim>\<open>bytes.Buffer\<close>, which never fails. A writer with \<open>wroom = Some n\<close> takes \<open>n\<close>
  more bytes and then, as the contract of \<^verbatim>\<open>io.Writer\<close> asks of a short write, returns an error.
\<close>

type_synonym encoder = "writer \<Rightarrow> goerr option \<times> writer"

definition Write :: "bytes \<Rightarrow> encoder" where
  "Write bs w =
     (case wroom w of
        None \<Rightarrow> (None, w\<lparr>wbuf := wbuf w @ bs\<rparr>)
      | Some n \<Rightarrow>
          if length bs \<le> n
          then (None, w\<lparr>wbuf := wbuf w @ bs, wroom := Some (n - length bs)\<rparr>)
          else (Some ErrShortWrite, w\<lparr>wbuf := wbuf w @ take n bs, wroom := Some 0\<rparr>))"

text \<open>\<^verbatim>\<open>err := f(w); if err != nil { return err }; return g(w)\<close>\<close>

definition seqW :: "encoder \<Rightarrow> encoder \<Rightarrow> encoder" where
  "seqW f g w = (case f w of (None, w') \<Rightarrow> g w' | (Some e, w') \<Rightarrow> (Some e, w'))"

text \<open>\<^verbatim>\<open>for _, x := range xs { err = f(w, x); if err != nil { return err } }\<close>\<close>

primrec forW :: "('a \<Rightarrow> encoder) \<Rightarrow> 'a list \<Rightarrow> encoder" where
  "forW f [] = (\<lambda>w. (None, w))"
| "forW f (x # xs) = seqW (f x) (forW f xs)"

lemma Write_Nil [wire_enc]: "(\<lambda>w. (None, w)) = Write []"
  by (rule ext) (simp add: Write_def split: option.split)

lemma seqW_Write [wire_enc]: "seqW (Write a) (Write b) = Write (a @ b)"
  by (rule ext) (auto simp: seqW_def Write_def split: option.split)

lemma forW_Write [wire_enc]:
  "(\<And>x. x \<in> set xs \<Longrightarrow> f x = Write (g x)) \<Longrightarrow> forW f xs = Write (concat (map g xs))"
  by (induction xs) (simp_all add: wire_enc)

lemma Write_buffer: "Write bs \<lparr>wbuf = b, wroom = None\<rparr> = (None, \<lparr>wbuf = b @ bs, wroom = None\<rparr>)"
  by (simp add: Write_def)

lemma ReadFull_append [wire_dec]: "length bs = n \<Longrightarrow> ReadFull n (bs @ r) = Inr (bs, r)"
  by (auto simp: ReadFull_def)

lemma ReadFull_Inr: "ReadFull n r = Inr (bs, r') \<longleftrightarrow> r = bs @ r' \<and> length bs = n"
  by (auto simp: ReadFull_def)

section \<open>Primitive integers\<close>

datatype byteOrder = LittleEndian | BigEndian

primrec order_Uint :: "byteOrder \<Rightarrow> bytes \<Rightarrow> 'a::len word" where
  "order_Uint LittleEndian bs = of_le_bytes bs"
| "order_Uint BigEndian bs = of_be_bytes bs"

primrec order_PutUint :: "byteOrder \<Rightarrow> nat \<Rightarrow> 'a::len word \<Rightarrow> bytes" where
  "order_PutUint LittleEndian n v = le_bytes n v"
| "order_PutUint BigEndian n v = be_bytes n v"

definition Uint8 :: "uint8 decoder" where
  "Uint8 r = bindR (ReadFull 1 r) (\<lambda>(buf, r). Inr (buf ! 0, r))"

definition Uint16 :: "byteOrder \<Rightarrow> uint16 decoder" where
  "Uint16 byteOrder r = bindR (ReadFull 2 r) (\<lambda>(buf, r). Inr (order_Uint byteOrder buf, r))"

definition Uint32 :: "byteOrder \<Rightarrow> uint32 decoder" where
  "Uint32 byteOrder r = bindR (ReadFull 4 r) (\<lambda>(buf, r). Inr (order_Uint byteOrder buf, r))"

definition Uint64 :: "byteOrder \<Rightarrow> uint64 decoder" where
  "Uint64 byteOrder r = bindR (ReadFull 8 r) (\<lambda>(buf, r). Inr (order_Uint byteOrder buf, r))"

definition PutUint8 :: "uint8 \<Rightarrow> encoder" where
  "PutUint8 val = Write [val]"

definition PutUint16 :: "byteOrder \<Rightarrow> uint16 \<Rightarrow> encoder" where
  "PutUint16 byteOrder val = Write (order_PutUint byteOrder 2 val)"

definition PutUint32 :: "byteOrder \<Rightarrow> uint32 \<Rightarrow> encoder" where
  "PutUint32 byteOrder val = Write (order_PutUint byteOrder 4 val)"

definition PutUint64 :: "byteOrder \<Rightarrow> uint64 \<Rightarrow> encoder" where
  "PutUint64 byteOrder val = Write (order_PutUint byteOrder 8 val)"

lemma length_order_PutUint [simp]: "length (order_PutUint b n v) = n"
  by (cases b) simp_all

lemma order_Uint_PutUint:
  fixes v :: "'a::len word"
  shows "LENGTH('a) = 8 * n \<Longrightarrow> order_Uint b (order_PutUint b n v) = v"
  by (cases b) (simp_all add: of_le_bytes_full of_be_bytes_full)

lemma order_PutUint_Uint:
  "8 * length bs \<le> LENGTH('a) \<Longrightarrow>
   order_PutUint b (length bs) (order_Uint b bs :: 'a::len word) = bs"
  by (cases b) (simp_all add: le_bytes_of_le_bytes be_bytes_of_be_bytes)

lemmas put_wire_enc [wire_enc] = PutUint8_def PutUint16_def PutUint32_def PutUint64_def

lemma Uint8_Cons [wire_dec]: "Uint8 (b # r) = Inr (b, r)"
  by (simp add: Uint8_def ReadFull_def)

lemma Uint8_Inr: "Uint8 r = Inr (v, r') \<longleftrightarrow> r = v # r'"
  by (cases r) (auto simp: Uint8_def ReadFull_def)

lemma Uint16_PutUint [wire_dec]: "Uint16 b (order_PutUint b 2 v @ r) = Inr (v, r)"
  by (simp add: Uint16_def ReadFull_append order_Uint_PutUint)

lemma Uint32_PutUint [wire_dec]: "Uint32 b (order_PutUint b 4 v @ r) = Inr (v, r)"
  by (simp add: Uint32_def ReadFull_append order_Uint_PutUint)

lemma Uint64_PutUint [wire_dec]: "Uint64 b (order_PutUint b 8 v @ r) = Inr (v, r)"
  by (simp add: Uint64_def ReadFull_append order_Uint_PutUint)

lemma Uint16_Inr: "Uint16 b r = Inr (v, r') \<longleftrightarrow> r = order_PutUint b 2 v @ r'"
proof
  assume "Uint16 b r = Inr (v, r')"
  then obtain buf where "r = buf @ r'" "length buf = 2" "v = order_Uint b buf"
    by (auto simp: Uint16_def bindR_Inr_conv ReadFull_Inr)
  then show "r = order_PutUint b 2 v @ r'"
    using order_PutUint_Uint [of buf b, where 'a = 16] by simp
qed (simp add: Uint16_PutUint)

lemma Uint32_Inr: "Uint32 b r = Inr (v, r') \<longleftrightarrow> r = order_PutUint b 4 v @ r'"
proof
  assume "Uint32 b r = Inr (v, r')"
  then obtain buf where "r = buf @ r'" "length buf = 4" "v = order_Uint b buf"
    by (auto simp: Uint32_def bindR_Inr_conv ReadFull_Inr)
  then show "r = order_PutUint b 4 v @ r'"
    using order_PutUint_Uint [of buf b, where 'a = 32] by simp
qed (simp add: Uint32_PutUint)

lemma Uint64_Inr: "Uint64 b r = Inr (v, r') \<longleftrightarrow> r = order_PutUint b 8 v @ r'"
proof
  assume "Uint64 b r = Inr (v, r')"
  then obtain buf where "r = buf @ r'" "length buf = 8" "v = order_Uint b buf"
    by (auto simp: Uint64_def bindR_Inr_conv ReadFull_Inr)
  then show "r = order_PutUint b 8 v @ r'"
    using order_PutUint_Uint [of buf b, where 'a = 64] by simp
qed (simp add: Uint64_PutUint)

section \<open>The free list behind the primitive integers\<close>

text \<open>
  \<^verbatim>\<open>binaryFreeList\<close> is a buffered channel of 8-byte buffers. The state is the queue of buffers in
  the channel, each with whatever bytes its last user left in it. The \<open>_fl\<close> versions of the
  integer readers and writers thread that state through \<^verbatim>\<open>Borrow\<close> and \<^verbatim>\<open>Return\<close>.
\<close>

definition binaryFreeListMaxItems :: nat where
  "binaryFreeListMaxItems = 1024"

type_synonym binaryFreeList = "bytes list"

definition binaryFreeList_Borrow :: "binaryFreeList \<Rightarrow> bytes \<times> binaryFreeList" where
  "binaryFreeList_Borrow l = (case l of [] \<Rightarrow> (replicate 8 0, []) | buf # l' \<Rightarrow> (buf, l'))"

definition binaryFreeList_Return :: "bytes \<Rightarrow> binaryFreeList \<Rightarrow> binaryFreeList" where
  "binaryFreeList_Return buf l = (if length l < binaryFreeListMaxItems then l @ [buf] else l)"

text \<open>\<^verbatim>\<open>io.ReadFull(r, buf[:n])\<close> overwrites the front of \<^verbatim>\<open>buf\<close> with the bytes it got, also when it fails.\<close>

definition overlay :: "bytes \<Rightarrow> bytes \<Rightarrow> bytes" where
  "overlay bs buf = bs @ drop (length bs) buf"

definition uint_fl ::
  "nat \<Rightarrow> (bytes \<Rightarrow> 'a::len word) \<Rightarrow> binaryFreeList \<Rightarrow> bytes \<Rightarrow> ('a word \<times> bytes) result \<times> binaryFreeList" where
  "uint_fl n conv l r =
     (let (buf, l) = binaryFreeList_Borrow l in
      case ReadFull n r of
        Inl err \<Rightarrow> (Inl err, binaryFreeList_Return (overlay (take n r) buf) l)
      | Inr (bs, r') \<Rightarrow>
          let buf = overlay bs buf; rv = conv (take n buf)
          in (Inr (rv, r'), binaryFreeList_Return buf l))"

definition put_uint_fl ::
  "nat \<Rightarrow> bytes \<Rightarrow> binaryFreeList \<Rightarrow> writer \<Rightarrow> (goerr option \<times> writer) \<times> binaryFreeList" where
  "put_uint_fl n bs l w =
     (let (buf, l) = binaryFreeList_Borrow l; buf = overlay bs buf
      in (Write (take n buf) w, binaryFreeList_Return buf l))"

definition Uint8_fl where
  "Uint8_fl l r = uint_fl 1 (\<lambda>buf. buf ! 0) l r"
definition Uint16_fl :: "byteOrder \<Rightarrow> binaryFreeList \<Rightarrow> bytes \<Rightarrow> (uint16 \<times> bytes) result \<times> binaryFreeList" where
  "Uint16_fl byteOrder l r = uint_fl 2 (order_Uint byteOrder) l r"
definition Uint32_fl :: "byteOrder \<Rightarrow> binaryFreeList \<Rightarrow> bytes \<Rightarrow> (uint32 \<times> bytes) result \<times> binaryFreeList" where
  "Uint32_fl byteOrder l r = uint_fl 4 (order_Uint byteOrder) l r"
definition Uint64_fl :: "byteOrder \<Rightarrow> binaryFreeList \<Rightarrow> bytes \<Rightarrow> (uint64 \<times> bytes) result \<times> binaryFreeList" where
  "Uint64_fl byteOrder l r = uint_fl 8 (order_Uint byteOrder) l r"
definition PutUint8_fl :: "uint8 \<Rightarrow> binaryFreeList \<Rightarrow> writer \<Rightarrow> (goerr option \<times> writer) \<times> binaryFreeList" where
  "PutUint8_fl val l w = put_uint_fl 1 [val] l w"
definition PutUint16_fl :: "byteOrder \<Rightarrow> uint16 \<Rightarrow> binaryFreeList \<Rightarrow> writer \<Rightarrow> (goerr option \<times> writer) \<times> binaryFreeList" where
  "PutUint16_fl byteOrder val l w = put_uint_fl 2 (order_PutUint byteOrder 2 val) l w"
definition PutUint32_fl :: "byteOrder \<Rightarrow> uint32 \<Rightarrow> binaryFreeList \<Rightarrow> writer \<Rightarrow> (goerr option \<times> writer) \<times> binaryFreeList" where
  "PutUint32_fl byteOrder val l w = put_uint_fl 4 (order_PutUint byteOrder 4 val) l w"
definition PutUint64_fl :: "byteOrder \<Rightarrow> uint64 \<Rightarrow> binaryFreeList \<Rightarrow> writer \<Rightarrow> (goerr option \<times> writer) \<times> binaryFreeList" where
  "PutUint64_fl byteOrder val l w = put_uint_fl 8 (order_PutUint byteOrder 8 val) l w"

text \<open>The invariant: no more buffers than the channel holds, each of the full 8 bytes.\<close>

definition freelist_inv :: "binaryFreeList \<Rightarrow> bool" where
  "freelist_inv l \<longleftrightarrow> length l \<le> binaryFreeListMaxItems \<and> (\<forall>buf \<in> set l. length buf = 8)"

lemma freelist_inv_Borrow:
  "freelist_inv l \<Longrightarrow> binaryFreeList_Borrow l = (buf, l') \<Longrightarrow> length buf = 8 \<and> freelist_inv l'"
  by (auto simp: freelist_inv_def binaryFreeList_Borrow_def split: list.splits)

lemma freelist_inv_Return: "freelist_inv l \<Longrightarrow> length buf = 8 \<Longrightarrow> freelist_inv (binaryFreeList_Return buf l)"
  by (auto simp: freelist_inv_def binaryFreeList_Return_def)

lemma overlay_length: "length bs \<le> length buf \<Longrightarrow> length (overlay bs buf) = length buf"
  by (simp add: overlay_def)

lemma uint_fl_correct:
  "fst (uint_fl n conv l r) = bindR (ReadFull n r) (\<lambda>(bs, r). Inr (conv bs, r))"
  by (auto simp: uint_fl_def overlay_def ReadFull_def Let_def split: prod.split)

lemma uint_fl_inv:
  assumes "freelist_inv l" and "n \<le> 8"
  shows "freelist_inv (snd (uint_fl n conv l r))"
proof -
  obtain buf l' where b: "binaryFreeList_Borrow l = (buf, l')" by (cases "binaryFreeList_Borrow l")
  then have "length buf = 8" and "freelist_inv l'"
    using freelist_inv_Borrow [OF assms(1)] by auto
  with assms(2) b show ?thesis
    by (auto simp: uint_fl_def ReadFull_def overlay_length Let_def intro!: freelist_inv_Return)
qed

lemma put_uint_fl_correct: "length bs = n \<Longrightarrow> fst (put_uint_fl n bs l w) = Write bs w"
  by (auto simp: put_uint_fl_def overlay_def Let_def split: prod.split)

lemma put_uint_fl_inv:
  assumes "freelist_inv l" and "length bs \<le> 8"
  shows "freelist_inv (snd (put_uint_fl n bs l w))"
proof -
  obtain buf l' where b: "binaryFreeList_Borrow l = (buf, l')" by (cases "binaryFreeList_Borrow l")
  then have "length buf = 8" and "freelist_inv l'"
    using freelist_inv_Borrow [OF assms(1)] by auto
  with assms(2) b show ?thesis
    by (auto simp: put_uint_fl_def overlay_length Let_def intro!: freelist_inv_Return)
qed

section \<open>\<^verbatim>\<open>wire/error.go\<close> and \<^verbatim>\<open>wire/message.go\<close>\<close>

definition messageError :: "string \<Rightarrow> string \<Rightarrow> goerr" where
  "messageError f desc = MessageError f desc"

definition MessageError_Error :: "string \<Rightarrow> string \<Rightarrow> string" where
  "MessageError_Error fn Description =
     (if fn \<noteq> '''' then fn @ '': '' @ Description else Description)"

definition CommandSize :: nat where
  "CommandSize = 12"

definition MaxMessagePayload :: nat where
  "MaxMessagePayload = 1024 * 1024 * 32"

datatype MessageEncoding = BaseEncoding | WitnessEncoding

section \<open>Typed elements\<close>

text \<open>
  The dynamic types \<^verbatim>\<open>readElement\<close> and \<^verbatim>\<open>writeElement\<close> switch over. A reader is given the element it
  overwrites (the pointer of the source), whose constructor is the dynamic type. \<open>El_uint8\<close> and
  \<open>El_uint16\<close> have no case of their own and reach the fall back to \<^verbatim>\<open>binary.Read\<close> and
  \<^verbatim>\<open>binary.Write\<close>; so do the two time types when written, and \<^verbatim>\<open>binary.Write\<close> refuses those, since a
  \<^verbatim>\<open>time.Time\<close> is no fixed-size value.
\<close>

datatype element =
    El_int32 int32
  | El_uint32 uint32
  | El_int64 int64
  | El_uint64 uint64
  | El_bool bool
  | El_uint32Time gotime
  | El_int64Time gotime
  | El_checksum bytes
  | El_command bytes
  | El_ip bytes
  | El_Hash hash
  | El_ServiceFlag uint64
  | El_InvType uint32
  | El_BitcoinNet uint32
  | El_BloomUpdateType uint8
  | El_RejectCode uint8
  | El_uint8 uint8
  | El_uint16 uint16

text \<open>\<open>mapD f dec\<close>: run \<open>dec\<close>, return its error or assign what \<open>f\<close> makes of the value.\<close>

definition mapD :: "('a \<Rightarrow> 'b) \<Rightarrow> 'a decoder \<Rightarrow> 'b decoder" where
  "mapD f dec r = bindR (dec r) (\<lambda>(v, r). Inr (f v, r))"

primrec readElement :: "element \<Rightarrow> element decoder" where
  "readElement (El_int32 _) = mapD El_int32 (Uint32 LittleEndian)"
| "readElement (El_uint32 _) = mapD El_uint32 (Uint32 LittleEndian)"
| "readElement (El_int64 _) = mapD El_int64 (Uint64 LittleEndian)"
| "readElement (El_uint64 _) = mapD El_uint64 (Uint64 LittleEndian)"
| "readElement (El_bool _) = mapD (\<lambda>rv. El_bool (if rv = 0 then False else True)) Uint8"
| "readElement (El_uint32Time _) = mapD (\<lambda>rv. El_uint32Time (time_Unix (uint rv))) (Uint32 LittleEndian)"
| "readElement (El_int64Time _) = mapD (\<lambda>rv. El_int64Time (time_Unix (sint rv))) (Uint64 LittleEndian)"
| "readElement (El_checksum _) = mapD El_checksum (ReadFull 4)"
| "readElement (El_command _) = mapD El_command (ReadFull CommandSize)"
| "readElement (El_ip _) = mapD El_ip (ReadFull 16)"
| "readElement (El_Hash _) = mapD El_Hash (ReadFull HashSize)"
| "readElement (El_ServiceFlag _) = mapD El_ServiceFlag (Uint64 LittleEndian)"
| "readElement (El_InvType _) = mapD El_InvType (Uint32 LittleEndian)"
| "readElement (El_BitcoinNet _) = mapD El_BitcoinNet (Uint32 LittleEndian)"
| "readElement (El_BloomUpdateType _) = mapD El_BloomUpdateType Uint8"
| "readElement (El_RejectCode _) = mapD El_RejectCode Uint8"
| "readElement (El_uint8 _) = mapD El_uint8 Uint8"
| "readElement (El_uint16 _) = mapD El_uint16 (Uint16 LittleEndian)"

primrec readElements :: "element list \<Rightarrow> element list decoder" where
  "readElements [] r = Inr ([], r)"
| "readElements (element # elements) r =
     bindR (readElement element r) (\<lambda>(e, r).
       bindR (readElements elements r) (\<lambda>(es, r). Inr (e # es, r)))"

primrec writeElement :: "element \<Rightarrow> encoder" where
  "writeElement (El_int32 e) = PutUint32 LittleEndian e"
| "writeElement (El_uint32 e) = PutUint32 LittleEndian e"
| "writeElement (El_int64 e) = PutUint64 LittleEndian e"
| "writeElement (El_uint64 e) = PutUint64 LittleEndian e"
| "writeElement (El_bool e) = (if e then PutUint8 1 else PutUint8 0)"
| "writeElement (El_uint32Time e) =
     (\<lambda>w. (Some (ErrorString ''binary.Write: invalid type wire.uint32Time''), w))"
| "writeElement (El_int64Time e) =
     (\<lambda>w. (Some (ErrorString ''binary.Write: invalid type wire.int64Time''), w))"
| "writeElement (El_checksum e) = Write e"
| "writeElement (El_command e) = Write e"
| "writeElement (El_ip e) = Write e"
| "writeElement (El_Hash e) = Write e"
| "writeElement (El_ServiceFlag e) = PutUint64 LittleEndian e"
| "writeElement (El_InvType e) = PutUint32 LittleEndian e"
| "writeElement (El_BitcoinNet e) = PutUint32 LittleEndian e"
| "writeElement (El_BloomUpdateType e) = PutUint8 e"
| "writeElement (El_RejectCode e) = PutUint8 e"
| "writeElement (El_uint8 e) = PutUint8 e"
| "writeElement (El_uint16 e) = PutUint16 LittleEndian e"

definition writeElements :: "element list \<Rightarrow> encoder" where
  "writeElements elements = forW writeElement elements"

subsection \<open>The bytes of an element\<close>

text \<open>
  The fixed-size arrays have their size, and \<open>writable\<close> leaves out the two time types.
  \<open>same_type\<close> is equality of the dynamic type.
\<close>

fun wf_element :: "element \<Rightarrow> bool" where
  "wf_element (El_checksum b) = (length b = 4)"
| "wf_element (El_command b) = (length b = CommandSize)"
| "wf_element (El_ip b) = (length b = 16)"
| "wf_element (El_Hash h) = wf_hash h"
| "wf_element _ = True"

fun writable :: "element \<Rightarrow> bool" where
  "writable (El_uint32Time _) = False"
| "writable (El_int64Time _) = False"
| "writable _ = True"

text \<open>The position of the dynamic type in the switch.\<close>

primrec elem_type :: "element \<Rightarrow> nat" where
  "elem_type (El_int32 _) = 0"
| "elem_type (El_uint32 _) = 1"
| "elem_type (El_int64 _) = 2"
| "elem_type (El_uint64 _) = 3"
| "elem_type (El_bool _) = 4"
| "elem_type (El_uint32Time _) = 5"
| "elem_type (El_int64Time _) = 6"
| "elem_type (El_checksum _) = 7"
| "elem_type (El_command _) = 8"
| "elem_type (El_ip _) = 9"
| "elem_type (El_Hash _) = 10"
| "elem_type (El_ServiceFlag _) = 11"
| "elem_type (El_InvType _) = 12"
| "elem_type (El_BitcoinNet _) = 13"
| "elem_type (El_BloomUpdateType _) = 14"
| "elem_type (El_RejectCode _) = 15"
| "elem_type (El_uint8 _) = 16"
| "elem_type (El_uint16 _) = 17"

definition same_type :: "element \<Rightarrow> element \<Rightarrow> bool" where
  "same_type d e \<longleftrightarrow> elem_type d = elem_type e"

fun element_bytes :: "element \<Rightarrow> bytes" where
  "element_bytes (El_int32 e) = le_bytes 4 e"
| "element_bytes (El_uint32 e) = le_bytes 4 e"
| "element_bytes (El_int64 e) = le_bytes 8 e"
| "element_bytes (El_uint64 e) = le_bytes 8 e"
| "element_bytes (El_bool e) = [of_bool e]"
| "element_bytes (El_uint32Time _) = []"
| "element_bytes (El_int64Time _) = []"
| "element_bytes (El_checksum e) = e"
| "element_bytes (El_command e) = e"
| "element_bytes (El_ip e) = e"
| "element_bytes (El_Hash e) = e"
| "element_bytes (El_ServiceFlag e) = le_bytes 8 e"
| "element_bytes (El_InvType e) = le_bytes 4 e"
| "element_bytes (El_BitcoinNet e) = le_bytes 4 e"
| "element_bytes (El_BloomUpdateType e) = [e]"
| "element_bytes (El_RejectCode e) = [e]"
| "element_bytes (El_uint8 e) = [e]"
| "element_bytes (El_uint16 e) = le_bytes 2 e"

lemma writeElement_Write: "writable e \<Longrightarrow> writeElement e = Write (element_bytes e)"
  by (cases e) (simp_all add: wire_enc)

lemma writeElements_Write [wire_enc]:
  "\<forall>e \<in> set es. writable e \<Longrightarrow> writeElements es = Write (concat (map element_bytes es))"
  unfolding writeElements_def by (rule forW_Write) (simp add: writeElement_Write)

lemmas Uint_le [wire_dec] =
  Uint16_PutUint [of LittleEndian, simplified] Uint32_PutUint [of LittleEndian, simplified]
  Uint64_PutUint [of LittleEndian, simplified]

lemma readElement_bytes:
  "wf_element e \<Longrightarrow> writable e \<Longrightarrow> same_type d e \<Longrightarrow>
   readElement d (element_bytes e @ r) = Inr (e, r)"
  by (cases e; cases d) (simp_all add: mapD_def wire_dec wf_hash_def same_type_def)

lemma readElements_bytes:
  "list_all2 same_type ds es \<Longrightarrow> \<forall>e \<in> set es. wf_element e \<and> writable e \<Longrightarrow>
   readElements ds (concat (map element_bytes es) @ r) = Inr (es, r)"
  by (induction rule: list_all2_induct) (simp_all add: readElement_bytes)

lemma readElement_type: "readElement d r = Inr (e, r') \<Longrightarrow> same_type d e \<and> wf_element e"
  by (cases d) (auto simp: mapD_def bindR_Inr_conv ReadFull_Inr wf_hash_def same_type_def)

section \<open>Variable length integers\<close>

definition errNonCanonicalVarInt :: "nat \<Rightarrow> nat \<Rightarrow> nat \<Rightarrow> string" where
  "errNonCanonicalVarInt rv discriminant minv =
     ''non-canonical varint '' @ fmt_x rv @ '' - discriminant '' @ fmt_x discriminant @
     '' must encode a value greater than '' @ fmt_x minv"

definition ReadVarInt :: "uint32 \<Rightarrow> uint64 decoder" where
  "ReadVarInt pver r =
     bindR (Uint8 r) (\<lambda>(discriminant, r).
       if discriminant = 0xff then
         bindR (Uint64 LittleEndian r) (\<lambda>(rv, r).
           if rv < 0x100000000
           then Inl (messageError ''ReadVarInt''
                  (errNonCanonicalVarInt (unat rv) (unat discriminant) 0x100000000))
           else Inr (rv, r))
       else if discriminant = 0xfe then
         bindR (Uint32 LittleEndian r) (\<lambda>(sv, r).
           let rv = ucast sv in
           if rv < 0x10000
           then Inl (messageError ''ReadVarInt''
                  (errNonCanonicalVarInt (unat rv) (unat discriminant) 0x10000))
           else Inr (rv, r))
       else if discriminant = 0xfd then
         bindR (Uint16 LittleEndian r) (\<lambda>(sv, r).
           let rv = ucast sv in
           if rv < 0xfd
           then Inl (messageError ''ReadVarInt''
                  (errNonCanonicalVarInt (unat rv) (unat discriminant) 0xfd))
           else Inr (rv, r))
       else Inr (ucast discriminant, r))"

definition WriteVarInt :: "uint32 \<Rightarrow> uint64 \<Rightarrow> encoder" where
  "WriteVarInt pver val =
     (if val < 0xfd then PutUint8 (ucast val)
      else if val \<le> 0xffff then seqW (PutUint8 0xfd) (PutUint16 LittleEndian (ucast val))
      else if val \<le> 0xffffffff then seqW (PutUint8 0xfe) (PutUint32 LittleEndian (ucast val))
      else seqW (PutUint8 0xff) (PutUint64 LittleEndian val))"

definition VarIntSerializeSize :: "uint64 \<Rightarrow> nat" where
  "VarIntSerializeSize val =
     (if val < 0xfd then 1 else if val \<le> 0xffff then 3 else if val \<le> 0xffffffff then 5 else 9)"

text \<open>The shortest encoding of a value: what the writer produces and the only bytes the reader takes.\<close>

definition varint_bytes :: "uint64 \<Rightarrow> bytes" where
  "varint_bytes v =
     (if v < 0xfd then [ucast v]
      else if v \<le> 0xffff then 0xfd # le_bytes 2 (ucast v :: uint16)
      else if v \<le> 0xffffffff then 0xfe # le_bytes 4 (ucast v :: uint32)
      else 0xff # le_bytes 8 v)"

lemma WriteVarInt_Write [wire_enc]: "WriteVarInt pver v = Write (varint_bytes v)"
  by (simp add: WriteVarInt_def varint_bytes_def wire_enc)

lemma length_varint_bytes [wire_len]: "length (varint_bytes v) = VarIntSerializeSize v"
  by (simp add: varint_bytes_def VarIntSerializeSize_def)

lemma ucast_cast_small:
  fixes v :: "'a::len word"
  assumes "unat v < 2 ^ LENGTH('b)"
  shows "ucast (ucast v :: 'b::len word) = v"
  using assms by (simp add: word_unat_eq_iff unsigned_take_bit_eq unsigned_ucast_eq take_bit_nat_eq_self)

lemma unat_ucast_up:
  "LENGTH('b) \<le> LENGTH('a) \<Longrightarrow> unat (ucast (v :: 'b::len word) :: 'a::len word) = unat v"
  using order_less_le_trans [OF unsigned_less [of v, where 'a = nat] power_increasing, of "LENGTH('a)"]
  by (simp add: unsigned_ucast_eq take_bit_nat_eq_self)

lemma ucast_ucast_up: "LENGTH('b) \<le> LENGTH('a) \<Longrightarrow> ucast (ucast (v :: 'b::len word) :: 'a::len word) = v"
  by (rule bit_word_eqI) (auto simp: bit_simps)

lemma ReadVarInt_varint_bytes [wire_dec]: "ReadVarInt pver (varint_bytes v @ r) = Inr (v, r)"
proof -
  consider "v < 0xfd" | "\<not> v < 0xfd" "v \<le> 0xffff" | "\<not> v \<le> 0xffff" "v \<le> 0xffffffff" | "\<not> v \<le> 0xffffffff"
    by blast
  then show ?thesis
  proof cases
    case 1
    then have "ucast (ucast v :: byte) = v" and "(ucast v :: byte) < 0xfd"
      by (simp_all add: word_unat_eq_iff unsigned_take_bit_eq word_less_nat_alt unsigned_ucast_eq take_bit_nat_eq_self)
    with 1 show ?thesis by (auto simp: ReadVarInt_def varint_bytes_def wire_dec)
  next
    case 2
    then have "ucast (ucast v :: uint16) = v"
      by (simp add: ucast_cast_small word_le_nat_alt)
    with 2 show ?thesis by (simp add: ReadVarInt_def varint_bytes_def wire_dec)
  next
    case 3
    then have "ucast (ucast v :: uint32) = v"
      by (simp add: ucast_cast_small word_le_nat_alt)
    with 3 show ?thesis by (simp add: ReadVarInt_def varint_bytes_def wire_dec Let_def word_le_nat_alt word_less_nat_alt)
  next
    case 4
    then show ?thesis by (simp add: ReadVarInt_def varint_bytes_def wire_dec word_le_nat_alt word_less_nat_alt)
  qed
qed

lemma ReadVarInt_Inr:
  assumes "ReadVarInt pver bs = Inr (v, r)"
  shows "bs = varint_bytes v @ r"
proof -
  obtain d s where bs: "bs = d # s" and
    *: "(if d = 0xff then \<exists>rv. s = le_bytes 8 rv @ r \<and> \<not> rv < 0x100000000 \<and> v = rv
         else if d = 0xfe then \<exists>sv :: uint32. s = le_bytes 4 sv @ r \<and> \<not> (ucast sv :: uint64) < 0x10000 \<and> v = ucast sv
         else if d = 0xfd then \<exists>sv :: uint16. s = le_bytes 2 sv @ r \<and> \<not> (ucast sv :: uint64) < 0xfd \<and> v = ucast sv
         else v = ucast d \<and> s = r)"
    using assms
    by (auto simp: ReadVarInt_def bindR_Inr_conv Uint8_Inr Uint16_Inr Uint32_Inr Uint64_Inr Let_def
        split: if_splits)
  consider "d = 0xff" | "d = 0xfe" | "d = 0xfd" | "d \<noteq> 0xff" "d \<noteq> 0xfe" "d \<noteq> 0xfd" by blast
  then show ?thesis
  proof cases
    case 1
    with * bs show ?thesis
      by (auto simp: varint_bytes_def word_le_nat_alt word_less_nat_alt ucast_ucast_up)
  next
    case 2
    with * obtain sv :: uint32 where sv: "s = le_bytes 4 sv @ r" "\<not> (ucast sv :: uint64) < 0x10000" "v = ucast sv"
      by auto
    have "unat v < 2 ^ 32" using unsigned_less [of sv, where 'a = nat] by (simp add: sv unat_ucast_up)
    with 2 sv bs show ?thesis
      by (auto simp: varint_bytes_def word_le_nat_alt word_less_nat_alt ucast_ucast_up)
  next
    case 3
    with * obtain sv :: uint16 where sv: "s = le_bytes 2 sv @ r" "\<not> (ucast sv :: uint64) < 0xfd" "v = ucast sv"
      by auto
    have "unat v < 2 ^ 16" using unsigned_less [of sv, where 'a = nat] by (simp add: sv unat_ucast_up)
    with 3 sv bs show ?thesis
      by (auto simp: varint_bytes_def word_le_nat_alt word_less_nat_alt ucast_ucast_up)
  next
    case 4
    then have "unat d < 0xfd"
      using unsigned_less [of d, where 'a = nat] by (auto simp: word_unat_eq_iff)
    then have "unat v < 0xfd" using * 4 by (simp add: unat_ucast_up)
    with 4 * bs show ?thesis
      by (auto simp: varint_bytes_def word_less_nat_alt ucast_ucast_up)
  qed
qed

text \<open>The reader and the shortest encoding form a codec without side conditions.\<close>

interpretation varint: codec varint_bytes "ReadVarInt pver" "\<lambda>_. True" for pver :: uint32
  by unfold_locales (simp_all add: wire_dec ReadVarInt_Inr)

lemma varint_bytes_not_Nil [simp]: "varint_bytes v \<noteq> []"
  by (simp add: varint_bytes_def)

lemma VarIntSerializeSize_mono: "v \<le> w \<Longrightarrow> VarIntSerializeSize v \<le> VarIntSerializeSize w"
  by (auto simp: VarIntSerializeSize_def)

section \<open>Variable length strings and byte arrays\<close>

definition ReadVarString :: "uint32 \<Rightarrow> string decoder" where
  "ReadVarString pver r =
     bindR (ReadVarInt pver r) (\<lambda>(count, r).
       if unat count > MaxMessagePayload
       then Inl (messageError ''ReadVarString''
              (''variable length string is too long [count '' @ fmt_d (uint count) @
               '', max '' @ fmt_d (int MaxMessagePayload) @ '']''))
       else bindR (ReadFull (unat count) r) (\<lambda>(buf, r). Inr (bytes_string buf, r)))"

definition WriteVarString :: "uint32 \<Rightarrow> string \<Rightarrow> encoder" where
  "WriteVarString pver str =
     seqW (WriteVarInt pver (word_of_nat (length str))) (Write (string_bytes str))"

definition ReadVarBytes :: "uint32 \<Rightarrow> uint32 \<Rightarrow> string \<Rightarrow> bytes decoder" where
  "ReadVarBytes pver maxAllowed fieldName r =
     bindR (ReadVarInt pver r) (\<lambda>(count, r).
       if count > ucast maxAllowed
       then Inl (messageError ''ReadVarBytes''
              (fieldName @ '' is larger than the max allowed size [count '' @ fmt_d (uint count) @
               '', max '' @ fmt_d (uint maxAllowed) @ '']''))
       else ReadFull (unat count) r)"

definition WriteVarBytes :: "uint32 \<Rightarrow> bytes \<Rightarrow> encoder" where
  "WriteVarBytes pver bs =
     (let slen = word_of_nat (length bs) in seqW (WriteVarInt pver slen) (Write bs))"

definition randomUint64 :: "uint64 decoder" where
  "randomUint64 r = Uint64 BigEndian r"

definition varbytes_bytes :: "bytes \<Rightarrow> bytes" where
  "varbytes_bytes bs = varint_bytes (word_of_nat (length bs)) @ bs"

lemma WriteVarBytes_Write [wire_enc]: "WriteVarBytes pver bs = Write (varbytes_bytes bs)"
  by (simp add: WriteVarBytes_def varbytes_bytes_def wire_enc)

lemma WriteVarString_Write [wire_enc]: "WriteVarString pver s = Write (varbytes_bytes (string_bytes s))"
  by (simp add: WriteVarString_def varbytes_bytes_def wire_enc)

lemma unat_of_nat_small: "n < 2 ^ LENGTH('a) \<Longrightarrow> unat (word_of_nat n :: 'a::len word) = n"
  by (simp add: unat_of_nat take_bit_nat_eq_self)

lemma len_small: "n \<le> unat (maxAllowed :: uint32) \<Longrightarrow> n < 2 ^ 64"
  using unsigned_less [of maxAllowed, where 'a = nat] by simp

lemma ReadVarBytes_iff:
  "ReadVarBytes pver maxAllowed fieldName bs = Inr (x, r) \<longleftrightarrow>
     length x \<le> unat maxAllowed \<and> bs = varbytes_bytes x @ r"
proof
  assume "ReadVarBytes pver maxAllowed fieldName bs = Inr (x, r)"
  then obtain count s where "bs = varint_bytes count @ s" "\<not> count > ucast maxAllowed"
    "s = x @ r" "length x = unat count"
    by (auto simp: ReadVarBytes_def bindR_Inr_conv varint.dec_iff ReadFull_Inr split: if_splits)
  then show "length x \<le> unat maxAllowed \<and> bs = varbytes_bytes x @ r"
    by (simp add: varbytes_bytes_def word_less_nat_alt unat_ucast_up)
next
  assume a: "length x \<le> unat maxAllowed \<and> bs = varbytes_bytes x @ r"
  then have "unat (word_of_nat (length x) :: uint64) = length x"
    using len_small [of "length x" maxAllowed] by (simp add: unat_of_nat_small)
  with a show "ReadVarBytes pver maxAllowed fieldName bs = Inr (x, r)"
    by (simp add: ReadVarBytes_def varbytes_bytes_def wire_dec word_less_nat_alt unat_ucast_up)
qed

interpretation varbytes: codec varbytes_bytes "ReadVarBytes pver maxAllowed fieldName"
    "\<lambda>x. length x \<le> unat maxAllowed"
  for pver maxAllowed :: uint32 and fieldName :: string
  by unfold_locales (simp_all add: ReadVarBytes_iff)

lemma ReadVarString_iff:
  "ReadVarString pver bs = Inr (s, r) \<longleftrightarrow>
     length s \<le> MaxMessagePayload \<and> bs = varbytes_bytes (string_bytes s) @ r"
proof
  assume "ReadVarString pver bs = Inr (s, r)"
  then obtain count t buf where "bs = varint_bytes count @ t" "unat count \<le> MaxMessagePayload"
    "t = buf @ r" "length buf = unat count" "s = bytes_string buf"
    by (auto simp: ReadVarString_def bindR_Inr_conv varint.dec_iff ReadFull_Inr split: if_splits)
  then show "length s \<le> MaxMessagePayload \<and> bs = varbytes_bytes (string_bytes s) @ r"
    by (simp add: varbytes_bytes_def)
next
  assume a: "length s \<le> MaxMessagePayload \<and> bs = varbytes_bytes (string_bytes s) @ r"
  then have "unat (word_of_nat (length s) :: uint64) = length s"
    by (simp add: unat_of_nat_small MaxMessagePayload_def)
  with a show "ReadVarString pver bs = Inr (s, r)"
    by (simp add: ReadVarString_def varbytes_bytes_def wire_dec)
qed

interpretation varstring: codec "\<lambda>s. varbytes_bytes (string_bytes s)" "ReadVarString pver"
    "\<lambda>s. length s \<le> MaxMessagePayload" for pver :: uint32
  by unfold_locales (simp_all add: ReadVarString_iff)

section \<open>Properties\<close>

definition emptyBuffer :: writer where
  "emptyBuffer = \<lparr>wbuf = [], wroom = None\<rparr>"

lemma Write_emptyBuffer [simp]: "Write bs emptyBuffer = (None, \<lparr>wbuf = bs, wroom = None\<rparr>)"
  by (simp add: emptyBuffer_def Write_def)

text \<open>
  C27: variable length integers are canonical. \<^verbatim>\<open>ReadVarInt\<close> returns a value exactly when the input
  starts with the bytes \<^verbatim>\<open>WriteVarInt\<close> writes for it, and leaves exactly what follows them; an
  over-long encoding of any value is refused.
\<close>

theorem ReadVarInt_canonical:
  "ReadVarInt pver bs = Inr (v, r) \<longleftrightarrow>
     (\<exists>enc. WriteVarInt pver v emptyBuffer = (None, \<lparr>wbuf = enc, wroom = None\<rparr>) \<and> bs = enc @ r)"
  by (auto simp: WriteVarInt_Write varint.dec_iff)

text \<open>
  \<^verbatim>\<open>VarIntSerializeSize\<close> is the number of bytes \<^verbatim>\<open>WriteVarInt\<close> needs. A writer with room for \<open>n\<close>
  more bytes takes the integer without error exactly when that size fits, and otherwise has received
  its first \<open>n\<close> bytes.
\<close>

theorem WriteVarInt_size:
  "WriteVarInt pver v \<lparr>wbuf = b, wroom = Some n\<rparr> =
     (if VarIntSerializeSize v \<le> n
      then (None, \<lparr>wbuf = b @ varint_bytes v, wroom = Some (n - VarIntSerializeSize v)\<rparr>)
      else (Some ErrShortWrite, \<lparr>wbuf = b @ take n (varint_bytes v), wroom = Some 0\<rparr>))"
  by (simp add: WriteVarInt_Write wire_len Write_def)

text \<open>
  the integer readers and writers that go through the shared free list of 8-byte buffers behave
  as if each call had a fresh buffer, whatever an earlier user left in the one they get, and the free
  list keeps its invariant (at most 1024 buffers, all of 8 bytes) on success and on every error.
\<close>

theorem binaryFreeList_transparent:
  assumes "freelist_inv l"
  shows "fst (Uint8_fl l r) = Uint8 r \<and> freelist_inv (snd (Uint8_fl l r))
    \<and> fst (Uint16_fl o2 l r) = Uint16 o2 r \<and> freelist_inv (snd (Uint16_fl o2 l r))
    \<and> fst (Uint32_fl o2 l r) = Uint32 o2 r \<and> freelist_inv (snd (Uint32_fl o2 l r))
    \<and> fst (Uint64_fl o2 l r) = Uint64 o2 r \<and> freelist_inv (snd (Uint64_fl o2 l r))
    \<and> fst (PutUint8_fl v8 l w) = PutUint8 v8 w \<and> freelist_inv (snd (PutUint8_fl v8 l w))
    \<and> fst (PutUint16_fl o2 v16 l w) = PutUint16 o2 v16 w \<and> freelist_inv (snd (PutUint16_fl o2 v16 l w))
    \<and> fst (PutUint32_fl o2 v32 l w) = PutUint32 o2 v32 w \<and> freelist_inv (snd (PutUint32_fl o2 v32 l w))
    \<and> fst (PutUint64_fl o2 v64 l w) = PutUint64 o2 v64 w \<and> freelist_inv (snd (PutUint64_fl o2 v64 l w))"
  using assms
  by (simp add: Uint8_fl_def Uint16_fl_def Uint32_fl_def Uint64_fl_def PutUint8_fl_def PutUint16_fl_def
      PutUint32_fl_def PutUint64_fl_def Uint8_def Uint16_def Uint32_def Uint64_def PutUint8_def PutUint16_def
      PutUint32_def PutUint64_def uint_fl_correct uint_fl_inv put_uint_fl_correct put_uint_fl_inv)

theorem binaryFreeList_transparent_witness:
  "freelist_inv [[1, 2, 3, 4, 5, 6, 7, 8]] \<and>
   fst (Uint16_fl LittleEndian [[1, 2, 3, 4, 5, 6, 7, 8]] [9]) = Uint16 LittleEndian [9] \<and>
   freelist_inv (snd (Uint16_fl LittleEndian [[1, 2, 3, 4, 5, 6, 7, 8]] [9]))"
proof -
  have i: "freelist_inv [[1, 2, 3, 4, 5, 6, 7, 8]]"
    by (simp add: freelist_inv_def binaryFreeListMaxItems_def)
  show ?thesis using i binaryFreeList_transparent [OF i, of "[9]" LittleEndian] by blast
qed

text \<open>
  \<^verbatim>\<open>ReadVarBytes\<close> returns a byte array exactly when it is no longer than the limit and the input
  starts with what \<^verbatim>\<open>WriteVarBytes\<close> writes for it; so no count in the input makes it allocate more than
  the limit.
\<close>

theorem ReadVarBytes_WriteVarBytes:
  "ReadVarBytes pver maxAllowed fieldName bs = Inr (x, r) \<longleftrightarrow>
     length x \<le> unat maxAllowed \<and>
     (\<exists>enc. WriteVarBytes pver x emptyBuffer = (None, \<lparr>wbuf = enc, wroom = None\<rparr>) \<and> bs = enc @ r)"
  by (auto simp: WriteVarBytes_Write ReadVarBytes_iff)

text \<open>
  the same for strings, whose limit is the maximum message payload of 32 MiB.
\<close>

theorem ReadVarString_WriteVarString:
  "ReadVarString pver bs = Inr (s, r) \<longleftrightarrow>
     length s \<le> 33554432 \<and>
     (\<exists>enc. WriteVarString pver s emptyBuffer = (None, \<lparr>wbuf = enc, wroom = None\<rparr>) \<and> bs = enc @ r)"
  by (auto simp: WriteVarString_Write ReadVarString_iff MaxMessagePayload_def)

text \<open>
  \<^verbatim>\<open>readElements\<close> reads back what \<^verbatim>\<open>writeElements\<close> wrote, for any sequence of elements of the
  types that can be written, into destinations of the same types.
\<close>

theorem readElements_writeElements:
  assumes "list_all2 same_type ds es" and "\<forall>e \<in> set es. wf_element e \<and> writable e"
  shows "\<exists>bs. writeElements es emptyBuffer = (None, \<lparr>wbuf = bs, wroom = None\<rparr>) \<and>
    readElements ds (bs @ r) = Inr (es, r)"
  using assms by (simp add: writeElements_Write readElements_bytes)

theorem readElements_writeElements_witness:
  "\<exists>bs. writeElements [El_int32 7, El_bool True] emptyBuffer = (None, \<lparr>wbuf = bs, wroom = None\<rparr>) \<and>
    readElements [El_int32 0, El_bool False] (bs @ [5]) = Inr ([El_int32 7, El_bool True], [5])"
  by (rule readElements_writeElements) (simp_all add: same_type_def)

end
