(* ===== verification/Wire_Tx.thy ===== *)
theory Wire_Tx
  imports Wire_Common
begin

text \<open>
  Package wire, file \<^verbatim>\<open>wire/msgtx.go\<close>: transactions, their size, their two encodings and the decoder,
  including the free list of script buffers and the move of all scripts into one contiguous
  buffer at the end of \<^verbatim>\<open>BtcDecode\<close>. The decoder is characterised exactly: which bytes it accepts and
  which transaction they denote.
\<close>

section \<open>Constants and data\<close>

definition TxFlagMarker :: uint64 where
  "TxFlagMarker = 0x00"

definition WitnessFlag :: byte where
  "WitnessFlag = 0x01"

definition freeListMaxItems :: nat where
  "freeListMaxItems = 12500"

definition freeListMaxScriptSize :: nat where
  "freeListMaxScriptSize = 512"

definition minTxInPayload :: nat where
  "minTxInPayload = 9 + HashSize"

definition maxTxInPerMessage :: nat where
  "maxTxInPerMessage = MaxMessagePayload div minTxInPayload + 1"

definition MinTxOutPayload :: nat where
  "MinTxOutPayload = 9"

definition maxTxOutPerMessage :: nat where
  "maxTxOutPerMessage = MaxMessagePayload div MinTxOutPayload + 1"

definition maxWitnessItemsPerInput :: nat where
  "maxWitnessItemsPerInput = 500000"

definition maxWitnessItemSize :: uint32 where
  "maxWitnessItemSize = 11000"

record OutPoint =
  op_Hash :: hash
  op_Index :: uint32

type_synonym TxWitness = "bytes list"

record TxIn =
  PreviousOutPoint :: OutPoint
  SignatureScript :: bytes
  Witness :: TxWitness
  Sequence :: uint32

record TxOut =
  Value :: int64
  PkScript :: bytes

record MsgTx =
  tx_Version :: int32
  msg_TxIn :: "TxIn list"
  msg_TxOut :: "TxOut list"
  LockTime :: uint32

section \<open>Sizes\<close>

definition TxWitness_SerializeSize :: "TxWitness \<Rightarrow> nat" where
  "TxWitness_SerializeSize t =
     fold (\<lambda>witItem n. n + VarIntSerializeSize (word_of_nat (length witItem)) + length witItem) t
       (VarIntSerializeSize (word_of_nat (length t)))"

definition TxOut_SerializeSize :: "TxOut \<Rightarrow> nat" where
  "TxOut_SerializeSize t =
     8 + VarIntSerializeSize (word_of_nat (length (PkScript t))) + length (PkScript t)"

definition TxIn_SerializeSize :: "TxIn \<Rightarrow> nat" where
  "TxIn_SerializeSize t =
     40 + VarIntSerializeSize (word_of_nat (length (SignatureScript t))) + length (SignatureScript t)"

definition baseSize :: "MsgTx \<Rightarrow> nat" where
  "baseSize msg =
     (let n = 8 + VarIntSerializeSize (word_of_nat (length (msg_TxIn msg))) +
              VarIntSerializeSize (word_of_nat (length (msg_TxOut msg)));
          n = fold (\<lambda>txIn n. n + TxIn_SerializeSize txIn) (msg_TxIn msg) n
      in fold (\<lambda>txOut n. n + TxOut_SerializeSize txOut) (msg_TxOut msg) n)"

primrec has_witness :: "TxIn list \<Rightarrow> bool" where
  "has_witness [] = False"
| "has_witness (txIn # tis) = (if length (Witness txIn) \<noteq> 0 then True else has_witness tis)"

definition HasWitness :: "MsgTx \<Rightarrow> bool" where
  "HasWitness msg = has_witness (msg_TxIn msg)"

definition SerializeSize :: "MsgTx \<Rightarrow> nat" where
  "SerializeSize msg =
     (let n = baseSize msg in
      if HasWitness msg
      then fold (\<lambda>txin n. n + TxWitness_SerializeSize (Witness txin)) (msg_TxIn msg) (n + 2)
      else n)"

section \<open>Writing\<close>

definition writeOutPoint :: "uint32 \<Rightarrow> int32 \<Rightarrow> OutPoint \<Rightarrow> encoder" where
  "writeOutPoint pver version op = seqW (Write (op_Hash op)) (PutUint32 LittleEndian (op_Index op))"

definition writeTxIn :: "uint32 \<Rightarrow> int32 \<Rightarrow> TxIn \<Rightarrow> encoder" where
  "writeTxIn pver version ti =
     seqW (writeOutPoint pver version (PreviousOutPoint ti))
       (seqW (WriteVarBytes pver (SignatureScript ti)) (PutUint32 LittleEndian (Sequence ti)))"

definition WriteTxOut :: "uint32 \<Rightarrow> int32 \<Rightarrow> TxOut \<Rightarrow> encoder" where
  "WriteTxOut pver version to =
     seqW (PutUint64 LittleEndian (Value to)) (WriteVarBytes pver (PkScript to))"

definition writeTxWitness :: "uint32 \<Rightarrow> int32 \<Rightarrow> TxWitness \<Rightarrow> encoder" where
  "writeTxWitness pver version wit =
     seqW (WriteVarInt pver (word_of_nat (length wit))) (forW (WriteVarBytes pver) wit)"

definition BtcEncode :: "uint32 \<Rightarrow> MessageEncoding \<Rightarrow> MsgTx \<Rightarrow> encoder" where
  "BtcEncode pver enc msg =
     (let doWitness = (enc = WitnessEncoding \<and> HasWitness msg) in
      seqW (PutUint32 LittleEndian (tx_Version msg))
        (seqW (if doWitness then Write [ucast TxFlagMarker, WitnessFlag] else (\<lambda>w. (None, w)))
          (seqW (WriteVarInt pver (word_of_nat (length (msg_TxIn msg))))
            (seqW (forW (writeTxIn pver (tx_Version msg)) (msg_TxIn msg))
              (seqW (WriteVarInt pver (word_of_nat (length (msg_TxOut msg))))
                (seqW (forW (WriteTxOut pver (tx_Version msg)) (msg_TxOut msg))
                  (seqW
                    (if doWitness
                     then forW (\<lambda>ti. writeTxWitness pver (tx_Version msg) (Witness ti)) (msg_TxIn msg)
                     else (\<lambda>w. (None, w)))
                    (PutUint32 LittleEndian (LockTime msg)))))))))"

definition Serialize :: "MsgTx \<Rightarrow> encoder" where
  "Serialize msg = BtcEncode 0 WitnessEncoding msg"

section \<open>Reading\<close>

definition readOutPoint :: "uint32 \<Rightarrow> int32 \<Rightarrow> OutPoint decoder" where
  "readOutPoint pver version r =
     bindR (ReadFull HashSize r) (\<lambda>(h, r).
       bindR (Uint32 LittleEndian r) (\<lambda>(i, r). Inr (\<lparr>op_Hash = h, op_Index = i\<rparr>, r)))"

text \<open>The bytes \<^verbatim>\<open>readScript\<close> returns are those it read into the borrowed buffer (\<open>readScript_pool\<close> below).\<close>

definition readScript :: "uint32 \<Rightarrow> uint32 \<Rightarrow> string \<Rightarrow> bytes decoder" where
  "readScript pver maxAllowed fieldName r =
     bindR (ReadVarInt pver r) (\<lambda>(count, r).
       if count > ucast maxAllowed
       then Inl (messageError ''readScript''
              (fieldName @ '' is larger than the max allowed size [count '' @ fmt_d (uint count) @
               '', max '' @ fmt_d (uint maxAllowed) @ '']''))
       else ReadFull (unat count) r)"

text \<open>\<^verbatim>\<open>readElement\<close> of a \<^verbatim>\<open>*uint32\<close> and of an \<^verbatim>\<open>*int64\<close>.\<close>

definition read_uint32 :: "uint32 decoder" where
  "read_uint32 = mapD (\<lambda>e. case e of El_uint32 v \<Rightarrow> v | _ \<Rightarrow> 0) (readElement (El_uint32 0))"

definition read_int64 :: "int64 decoder" where
  "read_int64 = mapD (\<lambda>e. case e of El_int64 v \<Rightarrow> v | _ \<Rightarrow> 0) (readElement (El_int64 0))"

definition readTxIn :: "uint32 \<Rightarrow> int32 \<Rightarrow> TxIn decoder" where
  "readTxIn pver version r =
     bindR (readOutPoint pver version r) (\<lambda>(op, r).
       bindR (readScript pver (word_of_nat MaxMessagePayload) ''transaction input signature script'' r)
         (\<lambda>(script, r).
           bindR (read_uint32 r) (\<lambda>(sq, r).
             Inr (\<lparr>PreviousOutPoint = op, SignatureScript = script, Witness = [], Sequence = sq\<rparr>, r))))"

definition readTxOut :: "uint32 \<Rightarrow> int32 \<Rightarrow> TxOut decoder" where
  "readTxOut pver version r =
     bindR (read_int64 r) (\<lambda>(v, r).
       bindR (readScript pver (word_of_nat MaxMessagePayload) ''transaction output public key script'' r)
         (\<lambda>(script, r). Inr (\<lparr>Value = v, PkScript = script\<rparr>, r)))"

text \<open>Version, the optional flag, and the number of inputs.\<close>

definition BtcDecode_flag :: "uint32 \<Rightarrow> MessageEncoding \<Rightarrow> uint64 \<Rightarrow> (byte \<times> uint64) decoder" where
  "BtcDecode_flag pver enc count r =
     (if count = TxFlagMarker \<and> enc = WitnessEncoding then
        bindR (ReadFull 1 r) (\<lambda>(flag, r).
          if flag ! 0 \<noteq> WitnessFlag
          then Inl (messageError ''MsgTx.BtcDecode''
                 (''witness tx but flag byte is '' @ hex_EncodeToString flag))
          else bindR (ReadVarInt pver r) (\<lambda>(count, r). Inr ((flag ! 0, count), r)))
      else Inr ((0, count), r))"

definition BtcDecode_prefix :: "uint32 \<Rightarrow> MessageEncoding \<Rightarrow> (int32 \<times> byte \<times> uint64) decoder" where
  "BtcDecode_prefix pver enc r =
     bindR (Uint32 LittleEndian r) (\<lambda>(version, r).
       bindR (ReadVarInt pver r) (\<lambda>(count, r).
         bindR (BtcDecode_flag pver enc count r) (\<lambda>((flag, count), r).
           if count > word_of_nat maxTxInPerMessage
           then Inl (messageError ''MsgTx.BtcDecode''
                  (''too many input transactions to fit into max message size [count '' @
                   fmt_d (uint count) @ '', max '' @ fmt_d (int maxTxInPerMessage) @ '']''))
           else Inr ((version, flag, count), r))))"

text \<open>The two loops over the inputs and the outputs, with the running total of the script sizes.\<close>

primrec BtcDecode_ins :: "uint32 \<Rightarrow> int32 \<Rightarrow> nat \<Rightarrow> uint64 \<Rightarrow> (TxIn list \<times> uint64) decoder" where
  "BtcDecode_ins pver version 0 totalScriptSize r = Inr (([], totalScriptSize), r)"
| "BtcDecode_ins pver version (Suc n) totalScriptSize r =
     bindR (readTxIn pver version r) (\<lambda>(ti, r).
       bindR (BtcDecode_ins pver version n (totalScriptSize + word_of_nat (length (SignatureScript ti))) r)
         (\<lambda>((tis, total), r). Inr ((ti # tis, total), r)))"

primrec BtcDecode_outs :: "uint32 \<Rightarrow> int32 \<Rightarrow> nat \<Rightarrow> uint64 \<Rightarrow> (TxOut list \<times> uint64) decoder" where
  "BtcDecode_outs pver version 0 totalScriptSize r = Inr (([], totalScriptSize), r)"
| "BtcDecode_outs pver version (Suc n) totalScriptSize r =
     bindR (readTxOut pver version r) (\<lambda>(to, r).
       bindR (BtcDecode_outs pver version n (totalScriptSize + word_of_nat (length (PkScript to))) r)
         (\<lambda>((tos, total), r). Inr ((to # tos, total), r)))"

text \<open>The witness stacks.\<close>

primrec BtcDecode_items :: "uint32 \<Rightarrow> nat \<Rightarrow> uint64 \<Rightarrow> (bytes list \<times> uint64) decoder" where
  "BtcDecode_items pver 0 totalScriptSize r = Inr (([], totalScriptSize), r)"
| "BtcDecode_items pver (Suc n) totalScriptSize r =
     bindR (readScript pver maxWitnessItemSize ''script witness item'' r) (\<lambda>(item, r).
       bindR (BtcDecode_items pver n (totalScriptSize + word_of_nat (length item)) r)
         (\<lambda>((items, total), r). Inr ((item # items, total), r)))"

primrec BtcDecode_witnesses :: "uint32 \<Rightarrow> TxIn list \<Rightarrow> uint64 \<Rightarrow> (TxIn list \<times> uint64) decoder" where
  "BtcDecode_witnesses pver [] totalScriptSize r = Inr (([], totalScriptSize), r)"
| "BtcDecode_witnesses pver (txin # tis) totalScriptSize r =
     bindR (ReadVarInt pver r) (\<lambda>(witCount, r).
       if witCount > word_of_nat maxWitnessItemsPerInput
       then Inl (messageError ''MsgTx.BtcDecode''
              (''too many witness items to fit into max message size [count '' @
               fmt_d (uint witCount) @ '', max '' @ fmt_d (int maxWitnessItemsPerInput) @ '']''))
       else bindR (BtcDecode_items pver (unat witCount) totalScriptSize r) (\<lambda>((items, total), r).
         bindR (BtcDecode_witnesses pver tis total r) (\<lambda>((tis, total), r).
           Inr ((txin\<lparr>Witness := items\<rparr> # tis, total), r))))"

section \<open>The contiguous script buffer\<close>

text \<open>
  \<^verbatim>\<open>copy(scripts[offset:], s)\<close> and the slice expression \<^verbatim>\<open>scripts[offset:end:end]\<close>, with the panics of
  both when the bounds are exceeded; a slice is its pair of bounds, since the scripts are read
  through the buffer once everything has been copied. Offsets are \<^verbatim>\<open>uint64\<close> and wrap.
\<close>

type_synonym slice = "nat \<times> nat"

definition slice_of :: "bytes \<Rightarrow> slice \<Rightarrow> bytes" where
  "slice_of buf = (\<lambda>(a, b). take (b - a) (drop a buf))"

definition copy_at :: "nat \<Rightarrow> bytes \<Rightarrow> bytes \<Rightarrow> bytes" where
  "copy_at off src dst =
     take off dst @ take (length dst - off) src @ drop (off + length src) dst"

definition copy_script :: "bytes \<Rightarrow> bytes \<times> uint64 \<Rightarrow> (slice \<times> bytes \<times> uint64) result" where
  "copy_script s = (\<lambda>(scripts, offset).
     if unat offset > length scripts then Inl (Panic ''slice bounds out of range'')
     else
       let scripts = copy_at (unat offset) s scripts;
           scriptSize = word_of_nat (length s);
           fin = offset + scriptSize
       in if unat offset \<le> unat fin \<and> unat fin \<le> length scripts
          then Inr ((unat offset, unat fin), scripts, offset + scriptSize)
          else Inl (Panic ''slice bounds out of range''))"

primrec copy_scripts :: "bytes list \<Rightarrow> bytes \<times> uint64 \<Rightarrow> (slice list \<times> bytes \<times> uint64) result" where
  "copy_scripts [] b = Inr ([], b)"
| "copy_scripts (s # ss) b =
     bindR (copy_script s b) (\<lambda>(sl, b).
       bindR (copy_scripts ss b) (\<lambda>(sls, b). Inr (sl # sls, b)))"

primrec copy_ins :: "TxIn list \<Rightarrow> bytes \<times> uint64 \<Rightarrow> ((slice \<times> slice list) list \<times> bytes \<times> uint64) result" where
  "copy_ins [] b = Inr ([], b)"
| "copy_ins (ti # tis) b =
     bindR (copy_script (SignatureScript ti) b) (\<lambda>(sl, b).
       bindR (copy_scripts (Witness ti) b) (\<lambda>(wsl, b).
         bindR (copy_ins tis b) (\<lambda>(sls, b). Inr ((sl, wsl) # sls, b))))"

definition copy_outs :: "TxOut list \<Rightarrow> bytes \<times> uint64 \<Rightarrow> (slice list \<times> bytes \<times> uint64) result" where
  "copy_outs tos = copy_scripts (map PkScript tos)"

definition BtcDecode_scripts ::
  "TxIn list \<Rightarrow> TxOut list \<Rightarrow> uint64 \<Rightarrow> (TxIn list \<times> TxOut list) result" where
  "BtcDecode_scripts tis tos totalScriptSize =
     bindR (copy_ins tis (replicate (unat totalScriptSize) 0, 0)) (\<lambda>(isl, b).
       bindR (copy_outs tos b) (\<lambda>(osl, scripts, offset).
         Inr (map2 (\<lambda>ti (sl, wsl). ti\<lparr>SignatureScript := slice_of scripts sl,
                                       Witness := map (slice_of scripts) wsl\<rparr>) tis isl,
              map2 (\<lambda>to sl. to\<lparr>PkScript := slice_of scripts sl\<rparr>) tos osl)))"

definition BtcDecode_outcount :: "uint32 \<Rightarrow> uint64 decoder" where
  "BtcDecode_outcount pver r =
     bindR (ReadVarInt pver r) (\<lambda>(count, r).
       if count > word_of_nat maxTxOutPerMessage
       then Inl (messageError ''MsgTx.BtcDecode''
              (''too many output transactions to fit into max message size [count '' @
               fmt_d (uint count) @ '', max '' @ fmt_d (int maxTxOutPerMessage) @ '']''))
       else Inr (count, r))"

definition BtcDecode :: "uint32 \<Rightarrow> MessageEncoding \<Rightarrow> MsgTx decoder" where
  "BtcDecode pver enc r =
     bindR (BtcDecode_prefix pver enc r) (\<lambda>((version, flag, count), r).
     bindR (BtcDecode_ins pver version (unat count) 0 r) (\<lambda>((tis, total), r).
     bindR (BtcDecode_outcount pver r) (\<lambda>(count, r).
     bindR (BtcDecode_outs pver version (unat count) total r) (\<lambda>((tos, total), r).
     bindR (if flag \<noteq> 0 \<and> enc = WitnessEncoding
            then BtcDecode_witnesses pver tis total r else Inr ((tis, total), r))
       (\<lambda>((tis, total), r).
     bindR (Uint32 LittleEndian r) (\<lambda>(lockTime, r).
     bindR (BtcDecode_scripts tis tos total) (\<lambda>(tis, tos).
       Inr (\<lparr>tx_Version = version, msg_TxIn = tis, msg_TxOut = tos, LockTime = lockTime\<rparr>, r))))))))"

definition Deserialize :: "MsgTx decoder" where
  "Deserialize r = BtcDecode 0 WitnessEncoding r"

section \<open>The script pool\<close>

text \<open>
  The pool is a channel of buffers; a borrowed buffer is its whole backing array together with
  the length of the slice handed out. \<^verbatim>\<open>Return\<close> looks at the capacity, which is the length of the array.
\<close>

type_synonym scriptFreeList = "bytes list"

definition scriptFreeList_Return :: "bytes \<Rightarrow> scriptFreeList \<Rightarrow> scriptFreeList" where
  "scriptFreeList_Return buf c =
     (if length buf \<noteq> freeListMaxScriptSize then c
      else if length c < freeListMaxItems then c @ [buf] else c)"

definition scriptFreeList_Borrow :: "uint64 \<Rightarrow> scriptFreeList \<Rightarrow> bytes \<times> scriptFreeList" where
  "scriptFreeList_Borrow sz c =
     (if unat sz > freeListMaxScriptSize then (replicate (unat sz) 0, c)
      else case c of [] \<Rightarrow> (replicate freeListMaxScriptSize 0, []) | buf # c' \<Rightarrow> (buf, c'))"

text \<open>\<^verbatim>\<open>readScript\<close> with the pool: the result has the backing array and the length of the returned slice.\<close>

definition readScript_pool ::
  "uint32 \<Rightarrow> uint32 \<Rightarrow> string \<Rightarrow> scriptFreeList \<Rightarrow> bytes \<Rightarrow> ((bytes \<times> nat) \<times> bytes) result \<times> scriptFreeList" where
  "readScript_pool pver maxAllowed fieldName c r =
     (case ReadVarInt pver r of
        Inl err \<Rightarrow> (Inl err, c)
      | Inr (count, r) \<Rightarrow>
          if count > ucast maxAllowed
          then (Inl (messageError ''readScript''
                  (fieldName @ '' is larger than the max allowed size [count '' @ fmt_d (uint count) @
                   '', max '' @ fmt_d (uint maxAllowed) @ '']'')), c)
          else
            let (b, c) = scriptFreeList_Borrow count c in
            case ReadFull (unat count) r of
              Inl err \<Rightarrow> (Inl err, scriptFreeList_Return (overlay (take (unat count) r) b) c)
            | Inr (bs, r) \<Rightarrow> (Inr ((overlay bs b, unat count), r), c))"

definition pool_inv :: "scriptFreeList \<Rightarrow> bool" where
  "pool_inv c \<longleftrightarrow> length c \<le> freeListMaxItems \<and> (\<forall>buf \<in> set c. length buf = freeListMaxScriptSize)"

text \<open>The slice \<^verbatim>\<open>buf[:size]\<close> that a backing array stands for.\<close>

definition slice_view :: "bytes \<times> nat \<Rightarrow> bytes" where
  "slice_view = (\<lambda>(b, n). take n b)"

lemma pool_inv_Return: "pool_inv c \<Longrightarrow> pool_inv (scriptFreeList_Return buf c)"
  by (auto simp: pool_inv_def scriptFreeList_Return_def)

lemma pool_inv_Borrow:
  "pool_inv c \<Longrightarrow> scriptFreeList_Borrow sz c = (buf, c') \<Longrightarrow>
     pool_inv c' \<and> unat sz \<le> length buf \<and>
     length buf = (if unat sz > freeListMaxScriptSize then unat sz else freeListMaxScriptSize)"
  by (auto simp: pool_inv_def scriptFreeList_Borrow_def split: list.splits if_splits)

lemma readScript_pool_inv: "pool_inv c \<Longrightarrow> pool_inv (snd (readScript_pool pver maxAllowed f c r))"
  by (auto simp: readScript_pool_def Let_def pool_inv_Return dest: pool_inv_Borrow
      split: sum.split prod.split)

lemma readScript_pool_correct:
  "mapD slice_view (\<lambda>r. fst (readScript_pool pver maxAllowed f c r)) r = readScript pver maxAllowed f r"
  by (auto simp: readScript_pool_def readScript_def mapD_def slice_view_def overlay_def ReadFull_def
      Let_def bindR_def split: sum.split prod.split)

section \<open>The bytes of a transaction\<close>

definition outpoint_bytes :: "OutPoint \<Rightarrow> bytes" where
  "outpoint_bytes op = op_Hash op @ le_bytes 4 (op_Index op)"

definition txin_bytes :: "TxIn \<Rightarrow> bytes" where
  "txin_bytes ti =
     outpoint_bytes (PreviousOutPoint ti) @ varbytes_bytes (SignatureScript ti) @ le_bytes 4 (Sequence ti)"

definition txout_bytes :: "TxOut \<Rightarrow> bytes" where
  "txout_bytes to = le_bytes 8 (Value to) @ varbytes_bytes (PkScript to)"

definition witness_bytes :: "TxWitness \<Rightarrow> bytes" where
  "witness_bytes wit = varint_bytes (word_of_nat (length wit)) @ concat (map varbytes_bytes wit)"

definition ins_outs_bytes :: "MsgTx \<Rightarrow> bytes" where
  "ins_outs_bytes tx =
     varint_bytes (word_of_nat (length (msg_TxIn tx))) @ concat (map txin_bytes (msg_TxIn tx)) @
     varint_bytes (word_of_nat (length (msg_TxOut tx))) @ concat (map txout_bytes (msg_TxOut tx))"

text \<open>The two layouts: without and with the flag field and the witness stacks.\<close>

definition plain_bytes :: "MsgTx \<Rightarrow> bytes" where
  "plain_bytes tx = le_bytes 4 (tx_Version tx) @ ins_outs_bytes tx @ le_bytes 4 (LockTime tx)"

definition flagged_bytes :: "MsgTx \<Rightarrow> bytes" where
  "flagged_bytes tx =
     le_bytes 4 (tx_Version tx) @ [0, 1] @ ins_outs_bytes tx @
     concat (map (\<lambda>ti. witness_bytes (Witness ti)) (msg_TxIn tx)) @ le_bytes 4 (LockTime tx)"

definition tx_bytes :: "MessageEncoding \<Rightarrow> MsgTx \<Rightarrow> bytes" where
  "tx_bytes enc tx =
     (if enc = WitnessEncoding \<and> HasWitness tx then flagged_bytes tx else plain_bytes tx)"

lemma writeOutPoint_Write [wire_enc]: "writeOutPoint pver version op = Write (outpoint_bytes op)"
  by (simp add: writeOutPoint_def outpoint_bytes_def wire_enc)

lemma writeTxIn_Write [wire_enc]: "writeTxIn pver version ti = Write (txin_bytes ti)"
  by (simp add: writeTxIn_def txin_bytes_def wire_enc)

lemma WriteTxOut_Write [wire_enc]: "WriteTxOut pver version to = Write (txout_bytes to)"
  by (simp add: WriteTxOut_def txout_bytes_def wire_enc)

lemma writeTxWitness_Write [wire_enc]: "writeTxWitness pver version wit = Write (witness_bytes wit)"
  by (simp add: writeTxWitness_def witness_bytes_def wire_enc)

lemma BtcEncode_Write [wire_enc]: "BtcEncode pver enc tx = Write (tx_bytes enc tx)"
  by (simp add: BtcEncode_def tx_bytes_def flagged_bytes_def plain_bytes_def ins_outs_bytes_def
      TxFlagMarker_def WitnessFlag_def Let_def wire_enc)

lemma Serialize_Write [wire_enc]: "Serialize tx = Write (tx_bytes WitnessEncoding tx)"
  by (simp add: Serialize_def wire_enc)

lemma has_witness_iff: "has_witness tis \<longleftrightarrow> (\<exists>ti \<in> set tis. Witness ti \<noteq> [])"
  by (induction tis) auto

lemma HasWitness_iff: "HasWitness tx \<longleftrightarrow> (\<exists>ti \<in> set (msg_TxIn tx). Witness ti \<noteq> [])"
  by (simp add: HasWitness_def has_witness_iff)

subsection \<open>Sizes\<close>

lemma fold_add_sum: "fold (\<lambda>x n. n + f x) xs (n :: nat) = n + sum_list (map f xs)"
  by (induction xs arbitrary: n) auto

lemma fold_add_sum2: "fold (\<lambda>x n. n + f x + g x) xs (n :: nat) = n + sum_list (map (\<lambda>x. f x + g x) xs)"
  by (induction xs arbitrary: n) auto

lemma length_varbytes_bytes [wire_len]:
  "length (varbytes_bytes bs) = VarIntSerializeSize (word_of_nat (length bs)) + length bs"
  by (simp add: varbytes_bytes_def wire_len)

lemma length_witness_bytes [wire_len]: "length (witness_bytes wit) = TxWitness_SerializeSize wit"
  by (simp add: witness_bytes_def TxWitness_SerializeSize_def fold_add_sum2 length_concat o_def wire_len)

lemma length_txout_bytes [wire_len]: "length (txout_bytes to) = TxOut_SerializeSize to"
  by (simp add: txout_bytes_def TxOut_SerializeSize_def wire_len)

lemma length_txin_bytes [wire_len]:
  "wf_hash (op_Hash (PreviousOutPoint ti)) \<Longrightarrow> length (txin_bytes ti) = TxIn_SerializeSize ti"
  by (simp add: txin_bytes_def outpoint_bytes_def TxIn_SerializeSize_def wf_hash_def HashSize_def wire_len)

lemma length_ins_outs_bytes [wire_len]:
  assumes "\<forall>ti \<in> set (msg_TxIn tx). wf_hash (op_Hash (PreviousOutPoint ti))"
  shows "length (ins_outs_bytes tx) + 8 = baseSize tx"
proof -
  have "(\<Sum>ti\<leftarrow>msg_TxIn tx. length (txin_bytes ti)) = sum_list (map TxIn_SerializeSize (msg_TxIn tx))"
    using assms by (intro arg_cong [where f = sum_list] map_cong) (simp_all add: length_txin_bytes)
  then show ?thesis
    by (simp add: ins_outs_bytes_def baseSize_def fold_add_sum length_concat Let_def wire_len o_def)
qed

lemma length_tx_bytes:
  assumes "\<forall>ti \<in> set (msg_TxIn tx). wf_hash (op_Hash (PreviousOutPoint ti))"
  shows "length (tx_bytes WitnessEncoding tx) = SerializeSize tx"
    and "length (tx_bytes BaseEncoding tx) = baseSize tx"
  using length_ins_outs_bytes [OF assms]
  by (simp_all add: tx_bytes_def flagged_bytes_def plain_bytes_def SerializeSize_def fold_add_sum
      length_concat Let_def o_def wire_len)

subsection \<open>Codecs of the parts\<close>

lemma readScript_iff:
  "readScript pver maxAllowed fieldName bs = Inr (x, r) \<longleftrightarrow>
     length x \<le> unat maxAllowed \<and> bs = varbytes_bytes x @ r"
proof -
  have "readScript pver maxAllowed fieldName bs = Inr (x, r) \<longleftrightarrow>
      ReadVarBytes pver maxAllowed fieldName bs = Inr (x, r)"
    by (auto simp: readScript_def ReadVarBytes_def bindR_Inr_conv split: if_splits)
  then show ?thesis by (simp add: ReadVarBytes_iff)
qed

interpretation script: codec varbytes_bytes "readScript pver maxAllowed fieldName"
    "\<lambda>x. length x \<le> unat maxAllowed"
  for pver maxAllowed :: uint32 and fieldName :: string
  by unfold_locales (simp_all add: readScript_iff)

lemma read_uint32_Inr: "read_uint32 r = Inr (v, r') \<longleftrightarrow> r = le_bytes 4 v @ r'"
  using Uint32_Inr [of LittleEndian r v r']
  by (auto simp: read_uint32_def mapD_def bindR_Inr_conv)

lemma read_int64_Inr: "read_int64 r = Inr (v, r') \<longleftrightarrow> r = le_bytes 8 v @ r'"
  using Uint64_Inr [of LittleEndian r v r']
  by (auto simp: read_int64_def mapD_def bindR_Inr_conv)

lemma MaxMessagePayload_word [simp]: "unat (word_of_nat MaxMessagePayload :: uint32) = MaxMessagePayload"
  by (simp add: MaxMessagePayload_def)

definition wf_outpoint :: "OutPoint \<Rightarrow> bool" where
  "wf_outpoint op \<longleftrightarrow> wf_hash (op_Hash op)"

definition wf_txin_base :: "TxIn \<Rightarrow> bool" where
  "wf_txin_base ti \<longleftrightarrow>
     wf_outpoint (PreviousOutPoint ti) \<and> length (SignatureScript ti) \<le> MaxMessagePayload \<and> Witness ti = []"

definition wf_txout :: "TxOut \<Rightarrow> bool" where
  "wf_txout to \<longleftrightarrow> length (PkScript to) \<le> MaxMessagePayload"

lemma readOutPoint_iff:
  "readOutPoint pver version bs = Inr (op, r) \<longleftrightarrow> wf_outpoint op \<and> bs = outpoint_bytes op @ r"
  by (cases op) (auto simp: readOutPoint_def bindR_Inr_conv ReadFull_Inr Uint32_Inr wf_outpoint_def
      wf_hash_def outpoint_bytes_def)

interpretation outpoint: codec outpoint_bytes "readOutPoint pver version" wf_outpoint
  for pver :: uint32 and version :: int32
  by unfold_locales (simp_all add: readOutPoint_iff)

lemma readTxIn_iff:
  "readTxIn pver version bs = Inr (ti, r) \<longleftrightarrow> wf_txin_base ti \<and> bs = txin_bytes ti @ r"
  by (cases ti) (auto simp: readTxIn_def bindR_Inr_conv outpoint.dec_iff script.dec_iff read_uint32_Inr
      wf_txin_base_def txin_bytes_def)

interpretation txin: codec txin_bytes "readTxIn pver version" wf_txin_base
  for pver :: uint32 and version :: int32
  by unfold_locales (simp_all add: readTxIn_iff)

lemma readTxOut_iff:
  "readTxOut pver version bs = Inr (to, r) \<longleftrightarrow> wf_txout to \<and> bs = txout_bytes to @ r"
  by (cases to) (auto simp: readTxOut_def bindR_Inr_conv script.dec_iff read_int64_Inr
      wf_txout_def txout_bytes_def)

interpretation txout: codec txout_bytes "readTxOut pver version" wf_txout
  for pver :: uint32 and version :: int32
  by unfold_locales (simp_all add: readTxOut_iff)

subsection \<open>The loops of the decoder\<close>

text \<open>The running total is the wrapped sum of the script lengths.\<close>

lemma BtcDecode_ins_read_n:
  "BtcDecode_ins pver version n tot r =
     bindR (read_n (readTxIn pver version) n r) (\<lambda>(tis, r).
       Inr ((tis, tot + word_of_nat (\<Sum>ti\<leftarrow>tis. length (SignatureScript ti))), r))"
  by (induction n arbitrary: tot r) (simp_all add: bindR_assoc split_def ac_simps)

lemma BtcDecode_outs_read_n:
  "BtcDecode_outs pver version n tot r =
     bindR (read_n (readTxOut pver version) n r) (\<lambda>(tos, r).
       Inr ((tos, tot + word_of_nat (\<Sum>to\<leftarrow>tos. length (PkScript to))), r))"
  by (induction n arbitrary: tot r) (simp_all add: bindR_assoc split_def ac_simps)

lemma BtcDecode_items_read_n:
  "BtcDecode_items pver n tot r =
     bindR (read_n (readScript pver maxWitnessItemSize ''script witness item'') n r) (\<lambda>(items, r).
       Inr ((items, tot + word_of_nat (sum_list (map length items))), r))"
  by (induction n arbitrary: tot r) (simp_all add: bindR_assoc split_def ac_simps)

lemma BtcDecode_ins_iff:
  "BtcDecode_ins pver version n tot bs = Inr ((tis, tot'), r) \<longleftrightarrow>
     length tis = n \<and> (\<forall>ti \<in> set tis. wf_txin_base ti) \<and> bs = concat (map txin_bytes tis) @ r \<and>
     tot' = tot + word_of_nat (\<Sum>ti\<leftarrow>tis. length (SignatureScript ti))"
  by (auto simp: BtcDecode_ins_read_n bindR_Inr_conv txin.read_n_iff)

lemma BtcDecode_outs_iff:
  "BtcDecode_outs pver version n tot bs = Inr ((tos, tot'), r) \<longleftrightarrow>
     length tos = n \<and> (\<forall>to \<in> set tos. wf_txout to) \<and> bs = concat (map txout_bytes tos) @ r \<and>
     tot' = tot + word_of_nat (\<Sum>to\<leftarrow>tos. length (PkScript to))"
  by (auto simp: BtcDecode_outs_read_n bindR_Inr_conv txout.read_n_iff)

lemma BtcDecode_items_iff:
  "BtcDecode_items pver n tot bs = Inr ((items, tot'), r) \<longleftrightarrow>
     length items = n \<and> (\<forall>x \<in> set items. length x \<le> unat maxWitnessItemSize) \<and>
     bs = concat (map varbytes_bytes items) @ r \<and>
     tot' = tot + word_of_nat (sum_list (map length items))"
  by (auto simp: BtcDecode_items_read_n bindR_Inr_conv script.read_n_iff)

definition wf_witness :: "TxWitness \<Rightarrow> bool" where
  "wf_witness wit \<longleftrightarrow>
     length wit \<le> maxWitnessItemsPerInput \<and> (\<forall>x \<in> set wit. length x \<le> unat maxWitnessItemSize)"

definition strip_witness :: "TxIn \<Rightarrow> TxIn" where
  "strip_witness ti = ti\<lparr>Witness := []\<rparr>"

lemma of_nat_le_iff64:
  "m < 2 ^ 64 \<Longrightarrow> (word_of_nat m < (w :: uint64)) = (m < unat w)"
  by (simp add: word_less_nat_alt unat_of_nat_small)

lemma strip_witness_eq_iff:
  "strip_witness ti' = strip_witness ti \<longleftrightarrow> ti' = ti\<lparr>Witness := Witness ti'\<rparr>"
  by (cases ti; cases ti') (simp add: strip_witness_def)

lemma BtcDecode_witnesses_Cons:
  "BtcDecode_witnesses pver (ti # tis) tot bs = Inr ((tis', tot'), r) \<longleftrightarrow>
     (\<exists>items tis2 s. wf_witness items \<and> bs = witness_bytes items @ s \<and> tis' = ti\<lparr>Witness := items\<rparr> # tis2 \<and>
        BtcDecode_witnesses pver tis (tot + word_of_nat (sum_list (map length items))) s
          = Inr ((tis2, tot'), r))"
    (is "?L = ?R")
proof
  have n: "unat (word_of_nat maxWitnessItemsPerInput :: uint64) = maxWitnessItemsPerInput"
    by (simp add: maxWitnessItemsPerInput_def)
  {
    assume ?L
    then obtain c items tis2 s where "bs = varint_bytes c @ concat (map varbytes_bytes items) @ s"
      and "length items = unat c" "unat c \<le> maxWitnessItemsPerInput"
      and "\<forall>x \<in> set items. length x \<le> unat maxWitnessItemSize" "tis' = ti\<lparr>Witness := items\<rparr> # tis2"
      and "BtcDecode_witnesses pver tis (tot + word_of_nat (sum_list (map length items))) s
        = Inr ((tis2, tot'), r)"
      by (auto simp: bindR_Inr_conv varint.dec_iff BtcDecode_items_iff word_less_nat_alt n
          split: if_splits)
    then show ?R
      by (intro exI [of _ items] exI [of _ tis2] exI [of _ s]) (simp add: wf_witness_def witness_bytes_def)
  next
    assume ?R
    then obtain items tis2 s where w: "wf_witness items" and bs: "bs = witness_bytes items @ s"
      and tis': "tis' = ti\<lparr>Witness := items\<rparr> # tis2" and
      rest: "BtcDecode_witnesses pver tis (tot + word_of_nat (sum_list (map length items))) s
          = Inr ((tis2, tot'), r)" by blast
    have len: "unat (word_of_nat (length items) :: uint64) = length items"
      using w by (simp add: wf_witness_def maxWitnessItemsPerInput_def unat_of_nat_small)
    have "BtcDecode_items pver (length items) tot (concat (map varbytes_bytes items) @ s)
      = Inr ((items, tot + word_of_nat (sum_list (map length items))), s)"
      using w by (simp add: BtcDecode_items_iff wf_witness_def)
    with w bs tis' rest len show ?L
      by (simp add: witness_bytes_def varint.dec_enc word_less_nat_alt n wf_witness_def)
  }
qed

lemma BtcDecode_witnesses_iff:
  "BtcDecode_witnesses pver tis tot bs = Inr ((tis', tot'), r) \<longleftrightarrow>
     map strip_witness tis' = map strip_witness tis \<and> (\<forall>ti \<in> set tis'. wf_witness (Witness ti)) \<and>
     bs = concat (map (\<lambda>ti. witness_bytes (Witness ti)) tis') @ r \<and>
     tot' = tot + word_of_nat (\<Sum>ti\<leftarrow>tis'. sum_list (map length (Witness ti)))"
proof (induction tis arbitrary: tis' tot bs)
  case Nil
  show ?case by auto
next
  case (Cons ti tis)
  show ?case
  proof (cases tis')
    case Nil
    then show ?thesis unfolding BtcDecode_witnesses_Cons by simp
  next
    case [simp]: (Cons ti' tis2)
    have "BtcDecode_witnesses pver (ti # tis) tot bs = Inr ((tis', tot'), r) \<longleftrightarrow>
      (\<exists>s. wf_witness (Witness ti') \<and> bs = witness_bytes (Witness ti') @ s \<and>
        strip_witness ti' = strip_witness ti \<and>
        BtcDecode_witnesses pver tis (tot + word_of_nat (sum_list (map length (Witness ti')))) s
          = Inr ((tis2, tot'), r))"
      unfolding BtcDecode_witnesses_Cons strip_witness_eq_iff
      by (cases ti; cases ti') auto
    then show ?thesis
      unfolding Cons.IH by (auto simp: add.assoc)
  qed
qed

subsection \<open>The contiguous buffer holds every script\<close>

text \<open>Where the scripts end up when they are laid out one after the other from an offset on.\<close>

primrec slices_from :: "nat \<Rightarrow> bytes list \<Rightarrow> slice list" where
  "slices_from off [] = []"
| "slices_from off (s # ss) = (off, off + length s) # slices_from (off + length s) ss"

definition in_scripts :: "TxIn \<Rightarrow> bytes list" where
  "in_scripts ti = SignatureScript ti # Witness ti"

definition ins_scripts :: "TxIn list \<Rightarrow> bytes list" where
  "ins_scripts tis = concat (map in_scripts tis)"

primrec ins_slices :: "nat \<Rightarrow> TxIn list \<Rightarrow> (slice \<times> slice list) list" where
  "ins_slices off [] = []"
| "ins_slices off (ti # tis) =
     ((off, off + length (SignatureScript ti)), slices_from (off + length (SignatureScript ti)) (Witness ti))
     # ins_slices (off + length (concat (in_scripts ti))) tis"

lemma ins_scripts_simps [simp]:
  "ins_scripts [] = []" "ins_scripts (ti # tis) = SignatureScript ti # Witness ti @ ins_scripts tis"
  by (simp_all add: ins_scripts_def in_scripts_def)

lemma copy_script_fits:
  assumes "length s \<le> length rest" and "length front + length rest < 2 ^ 64"
  shows "copy_script s (front @ rest, word_of_nat (length front)) =
     Inr ((length front, length front + length s),
          (front @ s) @ drop (length s) rest, word_of_nat (length (front @ s)))"
proof -
  have "unat (word_of_nat (length front) :: uint64) = length front"
    and "unat (word_of_nat (length front) + word_of_nat (length s) :: uint64) = length front + length s"
    using assms unat_of_nat_small [of "length front", where 'a = 64]
      unat_of_nat_small [of "length front + length s", where 'a = 64] by simp_all
  with assms show ?thesis by (simp add: copy_script_def copy_at_def Let_def)
qed

lemma copy_scripts_fits:
  "length (concat ss) \<le> length rest \<Longrightarrow> length front + length rest < 2 ^ 64 \<Longrightarrow>
   copy_scripts ss (front @ rest, word_of_nat (length front)) =
     Inr (slices_from (length front) ss,
          (front @ concat ss) @ drop (length (concat ss)) rest, word_of_nat (length (front @ concat ss)))"
proof (induction ss arbitrary: front rest)
  case (Cons s ss)
  have "copy_script s (front @ rest, word_of_nat (length front)) =
     Inr ((length front, length front + length s),
          (front @ s) @ drop (length s) rest, word_of_nat (length (front @ s)))"
    by (rule copy_script_fits) (use Cons.prems in auto)
  moreover have "copy_scripts ss ((front @ s) @ drop (length s) rest, word_of_nat (length (front @ s))) =
     Inr (slices_from (length (front @ s)) ss, ((front @ s) @ concat ss) @
       drop (length (concat ss)) (drop (length s) rest), word_of_nat (length ((front @ s) @ concat ss)))"
    by (rule Cons.IH) (use Cons.prems in auto)
  ultimately show ?case by (simp add: add.commute add.left_commute)
qed simp

lemma copy_ins_fits:
  "length (concat (ins_scripts tis)) \<le> length rest \<Longrightarrow> length front + length rest < 2 ^ 64 \<Longrightarrow>
   copy_ins tis (front @ rest, word_of_nat (length front)) =
     Inr (ins_slices (length front) tis,
          (front @ concat (ins_scripts tis)) @ drop (length (concat (ins_scripts tis))) rest,
          word_of_nat (length (front @ concat (ins_scripts tis))))"
proof (induction tis arbitrary: front rest)
  case (Cons ti tis)
  let ?s = "SignatureScript ti" and ?w = "concat (Witness ti)"
  let ?r1 = "drop (length ?s) rest"
  let ?r2 = "drop (length ?w) ?r1"
  have 1: "copy_script ?s (front @ rest, word_of_nat (length front)) =
     Inr ((length front, length front + length ?s), (front @ ?s) @ ?r1, word_of_nat (length (front @ ?s)))"
    by (rule copy_script_fits) (use Cons.prems in auto)
  have 2: "copy_scripts (Witness ti) ((front @ ?s) @ ?r1, word_of_nat (length (front @ ?s))) =
     Inr (slices_from (length (front @ ?s)) (Witness ti), ((front @ ?s) @ ?w) @ ?r2,
          word_of_nat (length ((front @ ?s) @ ?w)))"
    by (rule copy_scripts_fits) (use Cons.prems in auto)
  have 3: "copy_ins tis (((front @ ?s) @ ?w) @ ?r2, word_of_nat (length ((front @ ?s) @ ?w))) =
     Inr (ins_slices (length ((front @ ?s) @ ?w)) tis,
          (((front @ ?s) @ ?w) @ concat (ins_scripts tis)) @ drop (length (concat (ins_scripts tis))) ?r2,
          word_of_nat (length (((front @ ?s) @ ?w) @ concat (ins_scripts tis))))"
    by (rule Cons.IH) (use Cons.prems in auto)
  show ?case
    using 1 2 3 by (simp add: in_scripts_def add.commute add.left_commute)
qed simp

lemma slice_of_mid [simp]: "slice_of (front @ s @ rest) (length front, length front + length s) = s"
  by (simp add: slice_of_def)

lemma slices_from_read:
  "map (slice_of (front @ concat ss @ rest)) (slices_from (length front) ss) = ss"
proof (induction ss arbitrary: front)
  case (Cons s ss)
  then show ?case using Cons.IH [of "front @ s"] by simp
qed simp

lemma ins_slices_read:
  "map2 (\<lambda>ti (sl, wsl). ti\<lparr>SignatureScript := slice_of (front @ concat (ins_scripts tis) @ rest) sl,
           Witness := map (slice_of (front @ concat (ins_scripts tis) @ rest)) wsl\<rparr>)
     tis (ins_slices (length front) tis) = tis"
proof (induction tis arbitrary: front)
  case (Cons ti tis)
  let ?buf = "front @ concat (ins_scripts (ti # tis)) @ rest"
  have "slice_of ?buf (length front, length front + length (SignatureScript ti)) = SignatureScript ti"
    using slice_of_mid [of front "SignatureScript ti"] by simp
  moreover have "map (slice_of ?buf) (slices_from (length (front @ SignatureScript ti)) (Witness ti)) = Witness ti"
    using slices_from_read [of "front @ SignatureScript ti" "Witness ti"] by simp
  ultimately show ?case
    using Cons.IH [of "front @ SignatureScript ti @ concat (Witness ti)"]
    by (simp add: in_scripts_def)
qed simp

lemma map2_slices_read:
  "map2 (\<lambda>to sl. to\<lparr>PkScript := slice_of (front @ concat (map PkScript tos) @ rest) sl\<rparr>)
     tos (slices_from (length front) (map PkScript tos)) = tos"
proof (induction tos arbitrary: front)
  case (Cons to tos)
  have "slice_of (front @ concat (map PkScript (to # tos)) @ rest)
      (length front, length front + length (PkScript to)) = PkScript to"
    using slice_of_mid [of front "PkScript to"] by simp
  then show ?case using Cons.IH [of "front @ PkScript to"] by simp
qed simp

definition script_total :: "TxIn list \<Rightarrow> TxOut list \<Rightarrow> nat" where
  "script_total tis tos = length (concat (ins_scripts tis)) + length (concat (map PkScript tos))"

text \<open>With the exact total the copies stay in the buffer and every slice reads the script it replaces.\<close>

lemma BtcDecode_scripts_same:
  assumes "script_total tis tos < 2 ^ 64"
  shows "BtcDecode_scripts tis tos (word_of_nat (script_total tis tos)) = Inr (tis, tos)"
proof -
  let ?n = "script_total tis tos" and ?i = "concat (ins_scripts tis)" and ?o = "concat (map PkScript tos)"
  have n: "unat (word_of_nat ?n :: uint64) = ?n" using assms by (simp add: unat_of_nat_small)
  have 1: "copy_ins tis (replicate ?n 0, 0) =
     Inr (ins_slices 0 tis, ?i @ replicate (length ?o) 0, word_of_nat (length ?i))"
    using copy_ins_fits [of tis "replicate ?n 0" "[]"] assms by (simp add: script_total_def)
  have 2: "copy_outs tos (?i @ replicate (length ?o) 0, word_of_nat (length ?i)) =
     Inr (slices_from (length ?i) (map PkScript tos), ?i @ ?o, word_of_nat (length (?i @ ?o)))"
    using copy_scripts_fits [of "map PkScript tos" "replicate (length ?o) 0" ?i] assms
    by (simp add: script_total_def copy_outs_def)
  show ?thesis
    using ins_slices_read [of "[]" tis ?o] map2_slices_read [of ?i tos "[]"]
    by (simp add: BtcDecode_scripts_def n 1 2)
qed

subsection \<open>The limits of the decoder\<close>

definition wf_txin :: "TxIn \<Rightarrow> bool" where
  "wf_txin ti \<longleftrightarrow>
     wf_outpoint (PreviousOutPoint ti) \<and> length (SignatureScript ti) \<le> MaxMessagePayload \<and>
     wf_witness (Witness ti)"

definition wf_tx :: "MsgTx \<Rightarrow> bool" where
  "wf_tx tx \<longleftrightarrow>
     length (msg_TxIn tx) \<le> maxTxInPerMessage \<and> (\<forall>ti \<in> set (msg_TxIn tx). wf_txin ti) \<and>
     length (msg_TxOut tx) \<le> maxTxOutPerMessage \<and> (\<forall>to \<in> set (msg_TxOut tx). wf_txout to)"

lemma sum_list_le_mult:
  "(\<And>x. x \<in> set xs \<Longrightarrow> f x \<le> k) \<Longrightarrow> sum_list (map f xs) \<le> length xs * (k :: nat)"
proof (induction xs)
  case (Cons x xs)
  then have "f x \<le> k" and "sum_list (map f xs) \<le> length xs * k" by auto
  then show ?case by simp
qed simp

lemma limits:
  "maxTxInPerMessage = 818401" "maxTxOutPerMessage = 3728271" "MaxMessagePayload = 33554432"
  "maxWitnessItemsPerInput = 500000" "unat maxWitnessItemSize = 11000"
  by (simp_all add: maxTxInPerMessage_def maxTxOutPerMessage_def MaxMessagePayload_def minTxInPayload_def
      HashSize_def MinTxOutPayload_def maxWitnessItemsPerInput_def maxWitnessItemSize_def)

lemma in_scripts_bound:
  assumes "wf_txin ti"
  shows "length (concat (in_scripts ti)) \<le> 5533554432"
proof -
  have "sum_list (map length (Witness ti)) \<le> length (Witness ti) * 11000"
    by (rule sum_list_le_mult) (use assms in \<open>simp add: wf_txin_def wf_witness_def limits\<close>)
  moreover have "length (Witness ti) \<le> 500000" "length (SignatureScript ti) \<le> 33554432"
    using assms by (simp_all add: wf_txin_def wf_witness_def limits)
  ultimately show ?thesis by (simp add: in_scripts_def length_concat)
qed

lemma length_ins_scripts:
  "length (concat (ins_scripts tis)) = (\<Sum>ti\<leftarrow>tis. length (concat (in_scripts ti)))"
  by (induction tis) (simp_all add: in_scripts_def)

lemma script_total_bound:
  assumes "wf_tx tx"
  shows "script_total (msg_TxIn tx) (msg_TxOut tx) < 2 ^ 53"
proof -
  have "(\<Sum>ti\<leftarrow>msg_TxIn tx. length (concat (in_scripts ti))) \<le> length (msg_TxIn tx) * 5533554432"
    by (rule sum_list_le_mult) (use assms in \<open>simp add: wf_tx_def in_scripts_bound\<close>)
  moreover have "(\<Sum>to\<leftarrow>msg_TxOut tx. length (PkScript to)) \<le> length (msg_TxOut tx) * 33554432"
    by (rule sum_list_le_mult) (use assms in \<open>simp add: wf_tx_def wf_txout_def limits\<close>)
  moreover have "length (msg_TxIn tx) \<le> 818401" "length (msg_TxOut tx) \<le> 3728271"
    using assms by (simp_all add: wf_tx_def limits)
  moreover have "length (concat (map PkScript (msg_TxOut tx))) = (\<Sum>to\<leftarrow>msg_TxOut tx. length (PkScript to))"
    by (simp add: length_concat o_def)
  ultimately show ?thesis
    by (simp add: script_total_def length_ins_scripts)
qed

lemma script_total_split:
  "script_total tis tos =
     (\<Sum>ti\<leftarrow>tis. length (SignatureScript ti)) + (\<Sum>to\<leftarrow>tos. length (PkScript to)) +
     (\<Sum>ti\<leftarrow>tis. sum_list (map length (Witness ti)))"
  by (induction tis) (simp_all add: script_total_def length_concat o_def)

subsection \<open>What the decoder accepts\<close>

lemma varint_bytes_0: "varint_bytes 0 = [0]"
  by (simp add: varint_bytes_def)

lemma BtcDecode_prefix_iff:
  "BtcDecode_prefix pver enc bs = Inr ((version, flag, count), r) \<longleftrightarrow>
     unat count \<le> maxTxInPerMessage \<and>
     (if flag = 1 then enc = WitnessEncoding \<and> bs = le_bytes 4 version @ [0, 1] @ varint_bytes count @ r
      else flag = 0 \<and> (enc = WitnessEncoding \<longrightarrow> count \<noteq> 0) \<and> bs = le_bytes 4 version @ varint_bytes count @ r)"
    (is "?L = ?R")
proof
  have n: "unat (word_of_nat maxTxInPerMessage :: uint64) = maxTxInPerMessage" by (simp add: limits)
  have z: "ReadVarInt pver (0 # s) = Inr (0, s)" for s
    using varint.dec_enc [where x = 0] by (simp add: varint_bytes_0)
  {
    assume ?L
    then obtain c0 s0 where "bs = le_bytes 4 version @ varint_bytes c0 @ s0"
      and "BtcDecode_flag pver enc c0 s0 = Inr ((flag, count), r)" "unat count \<le> maxTxInPerMessage"
      by (auto simp: BtcDecode_prefix_def bindR_Inr_conv Uint32_Inr varint.dec_iff word_less_nat_alt n
          split: if_splits)
    then show ?R
      by (auto simp: BtcDecode_flag_def TxFlagMarker_def WitnessFlag_def bindR_Inr_conv varint.dec_iff
          ReadFull_Inr varint_bytes_0 length_Suc_conv split: if_splits)
  next
    assume ?R
    then show ?L
      by (auto simp: z BtcDecode_prefix_def BtcDecode_flag_def TxFlagMarker_def WitnessFlag_def varint.dec_enc
          varint_bytes_0 Uint32_PutUint [of LittleEndian, simplified] ReadFull_append word_less_nat_alt n
          ReadFull_def split: if_splits)
  }
qed

lemma BtcDecode_outcount_iff:
  "BtcDecode_outcount pver bs = Inr (count, r) \<longleftrightarrow>
     unat count \<le> maxTxOutPerMessage \<and> bs = varint_bytes count @ r"
proof -
  have n: "unat (word_of_nat maxTxOutPerMessage :: uint64) = maxTxOutPerMessage" by (simp add: limits)
  show ?thesis
    by (auto simp: BtcDecode_outcount_def bindR_Inr_conv varint.dec_iff word_less_nat_alt n
        split: if_splits intro!: exI [of _ count])
qed

lemma strip_witness_simps [simp]:
  "SignatureScript (strip_witness ti) = SignatureScript ti" "txin_bytes (strip_witness ti) = txin_bytes ti"
  "Witness (strip_witness ti) = []" "strip_witness (strip_witness ti) = strip_witness ti"
  by (simp_all add: strip_witness_def txin_bytes_def)

lemma strip_witness_id: "Witness ti = [] \<Longrightarrow> strip_witness ti = ti"
  by (cases ti) (simp add: strip_witness_def)

lemma wf_txin_strip: "wf_txin ti \<longleftrightarrow> wf_txin_base (strip_witness ti) \<and> wf_witness (Witness ti)"
  by (auto simp: wf_txin_def wf_txin_base_def strip_witness_def)

lemma wf_txin_base_iff: "wf_txin_base ti \<longleftrightarrow> wf_txin ti \<and> Witness ti = []"
  by (auto simp: wf_txin_def wf_txin_base_def wf_witness_def)

text \<open>The decoder behind the prefix: with \<open>flag\<close> the witness stacks follow the outputs.\<close>

definition BtcDecode_body :: "uint32 \<Rightarrow> bool \<Rightarrow> int32 \<Rightarrow> uint64 \<Rightarrow> MsgTx decoder" where
  "BtcDecode_body pver wit version count r =
     bindR (BtcDecode_ins pver version (unat count) 0 r) (\<lambda>((tis, total), r).
     bindR (BtcDecode_outcount pver r) (\<lambda>(count, r).
     bindR (BtcDecode_outs pver version (unat count) total r) (\<lambda>((tos, total), r).
     bindR (if wit then BtcDecode_witnesses pver tis total r else Inr ((tis, total), r))
       (\<lambda>((tis, total), r).
     bindR (Uint32 LittleEndian r) (\<lambda>(lockTime, r).
     bindR (BtcDecode_scripts tis tos total) (\<lambda>(tis, tos).
       Inr (\<lparr>tx_Version = version, msg_TxIn = tis, msg_TxOut = tos, LockTime = lockTime\<rparr>, r)))))))"

lemma BtcDecode_alt:
  "BtcDecode pver enc r =
     bindR (BtcDecode_prefix pver enc r) (\<lambda>((version, flag, count), r).
       BtcDecode_body pver (flag \<noteq> 0 \<and> enc = WitnessEncoding) version count r)"
  by (simp add: BtcDecode_def BtcDecode_body_def)

definition body_bytes :: "bool \<Rightarrow> MsgTx \<Rightarrow> bytes" where
  "body_bytes wit tx =
     concat (map txin_bytes (msg_TxIn tx)) @
     varint_bytes (word_of_nat (length (msg_TxOut tx))) @ concat (map txout_bytes (msg_TxOut tx)) @
     (if wit then concat (map (\<lambda>ti. witness_bytes (Witness ti)) (msg_TxIn tx)) else []) @
     le_bytes 4 (LockTime tx)"

lemma flagged_bytes_body:
  "flagged_bytes tx = le_bytes 4 (tx_Version tx) @ [0, 1] @
     varint_bytes (word_of_nat (length (msg_TxIn tx))) @ body_bytes True tx"
  by (simp add: flagged_bytes_def ins_outs_bytes_def body_bytes_def)

lemma plain_bytes_body:
  "plain_bytes tx = le_bytes 4 (tx_Version tx) @
     varint_bytes (word_of_nat (length (msg_TxIn tx))) @ body_bytes False tx"
  by (simp add: plain_bytes_def ins_outs_bytes_def body_bytes_def)

text \<open>The totals of the three loops add up to the size of all scripts.\<close>

lemma script_total_word:
  "0 + word_of_nat (\<Sum>ti\<leftarrow>tis. length (SignatureScript ti)) + word_of_nat (\<Sum>to\<leftarrow>tos. length (PkScript to)) +
     word_of_nat (\<Sum>ti\<leftarrow>tis. sum_list (map length (Witness ti))) = (word_of_nat (script_total tis tos) :: uint64)"
  by (simp add: script_total_split)

lemma sum_witness_Nil:
  "\<forall>ti \<in> set tis. Witness ti = [] \<Longrightarrow> (\<Sum>ti\<leftarrow>tis. sum_list (map length (Witness ti))) = 0"
  by (induction tis) auto

lemma BtcDecode_body_enc:
  assumes wf: "wf_tx tx" and wit: "wit \<or> (\<forall>ti \<in> set (msg_TxIn tx). Witness ti = [])"
  shows "BtcDecode_body pver wit (tx_Version tx) (word_of_nat (length (msg_TxIn tx))) (body_bytes wit tx @ r)
    = Inr (tx, r)"
proof -
  let ?tis = "msg_TxIn tx" and ?tos = "msg_TxOut tx"
  let ?base = "map strip_witness ?tis"
  let ?c = "word_of_nat (length ?tos) :: uint64"
  let ?n1 = "0 + word_of_nat (\<Sum>ti\<leftarrow>?tis. length (SignatureScript ti)) :: uint64"
  let ?n2 = "?n1 + word_of_nat (\<Sum>to\<leftarrow>?tos. length (PkScript to))"
  let ?n3 = "word_of_nat (script_total ?tis ?tos) :: uint64"
  let ?r3 = "le_bytes 4 (LockTime tx) @ r"
  let ?w = "if wit then concat (map (\<lambda>ti. witness_bytes (Witness ti)) ?tis) else []"
  have li: "unat (word_of_nat (length ?tis) :: uint64) = length ?tis" and lo: "unat ?c = length ?tos"
    using wf by (simp_all add: wf_tx_def limits unat_of_nat_small)
  have ins: "BtcDecode_ins pver (tx_Version tx) (length ?tis) 0 (concat (map txin_bytes ?tis) @ s)
      = Inr ((?base, ?n1), s)" for s
    using wf by (simp add: BtcDecode_ins_iff wf_tx_def wf_txin_strip o_def)
  have outc: "BtcDecode_outcount pver (varint_bytes ?c @ s) = Inr (?c, s)" for s
    using wf by (simp add: BtcDecode_outcount_iff lo wf_tx_def)
  have outs: "BtcDecode_outs pver (tx_Version tx) (length ?tos) ?n1 (concat (map txout_bytes ?tos) @ s)
      = Inr ((?tos, ?n2), s)" for s
    using wf by (simp add: BtcDecode_outs_iff wf_tx_def)
  have wits: "(if wit then BtcDecode_witnesses pver ?base ?n2 (?w @ s) else Inr ((?base, ?n2), ?w @ s))
      = Inr ((?tis, ?n3), s)" for s
  proof (cases wit)
    case True
    then show ?thesis
      using wf by (simp add: BtcDecode_witnesses_iff wf_tx_def wf_txin_def script_total_split)
  next
    case False
    with wit have "?base = ?tis" by (simp add: strip_witness_id map_idI)
    with False wit show ?thesis by (simp add: script_total_split sum_witness_Nil)
  qed
  have "script_total ?tis ?tos < 2 ^ 64" using script_total_bound [OF wf] by simp
  then show ?thesis
    unfolding BtcDecode_body_def body_bytes_def li append_assoc ins bindR_simps prod.case outc lo outs wits
    by (simp add: BtcDecode_scripts_same wire_dec)
qed

text \<open>What the four reading stages deliver: the copying stage then gives the same transaction back.\<close>

lemma BtcDecode_wits_stage:
  assumes "(if wit then BtcDecode_witnesses pver base t2 s3 else Inr ((base, t2), s3)) = Inr ((tis, t3), s4)"
    and base: "\<forall>ti \<in> set base. wf_txin_base ti"
  shows "map strip_witness tis = base \<and> (\<forall>ti \<in> set tis. wf_witness (Witness ti)) \<and>
      (wit \<or> (\<forall>ti \<in> set tis. Witness ti = [])) \<and>
      s3 = (if wit then concat (map (\<lambda>ti. witness_bytes (Witness ti)) tis) else []) @ s4 \<and>
      t3 = t2 + word_of_nat (\<Sum>ti\<leftarrow>tis. sum_list (map length (Witness ti)))"
proof -
  have strip: "map strip_witness base = base"
    using base by (simp add: map_idI strip_witness_id wf_txin_base_iff)
  show ?thesis
  proof (cases wit)
    case True
    with assms(1) show ?thesis by (simp add: BtcDecode_witnesses_iff strip)
  next
    case False
    with assms strip show ?thesis
      by (auto simp: sum_witness_Nil wf_txin_base_iff wf_witness_def)
  qed
qed

lemma BtcDecode_stages:
  assumes ins: "BtcDecode_ins pver version (unat count) 0 bs = Inr ((base, t1), s1)"
    and oc: "BtcDecode_outcount pver s1 = Inr (oc, s2)"
    and outs: "BtcDecode_outs pver version (unat oc) t1 s2 = Inr ((tos, t2), s3)"
    and wits: "(if wit then BtcDecode_witnesses pver base t2 s3 else Inr ((base, t2), s3)) = Inr ((tis, t3), s4)"
    and count: "unat count \<le> maxTxInPerMessage"
  defines "tx lt \<equiv> \<lparr>tx_Version = version, msg_TxIn = tis, msg_TxOut = tos, LockTime = lt\<rparr>"
  shows "wf_tx (tx lt)" and "wit \<or> (\<forall>ti \<in> set tis. Witness ti = [])"
    and "count = word_of_nat (length tis)" and "s4 = le_bytes 4 lt @ r \<Longrightarrow> bs = body_bytes wit (tx lt) @ r"
    and "BtcDecode_scripts tis tos t3 = Inr (tis, tos)"
proof -
  note base = ins [unfolded BtcDecode_ins_iff]
  note oc' = oc [unfolded BtcDecode_outcount_iff]
  note tos = outs [unfolded BtcDecode_outs_iff]
  have wits': "map strip_witness tis = base" "\<forall>ti \<in> set tis. wf_witness (Witness ti)"
    "wit \<or> (\<forall>ti \<in> set tis. Witness ti = [])"
    "s3 = (if wit then concat (map (\<lambda>ti. witness_bytes (Witness ti)) tis) else []) @ s4"
    "t3 = t2 + word_of_nat (\<Sum>ti\<leftarrow>tis. sum_list (map length (Witness ti)))"
    using BtcDecode_wits_stage [OF wits] base by simp_all
  then show "wit \<or> (\<forall>ti \<in> set tis. Witness ti = [])" by simp
  have "\<forall>ti \<in> set tis. wf_txin ti" using base wits' by (auto simp: wf_txin_strip)
  then show wf: "wf_tx (tx lt)" for lt
    using tos oc' base count wits'(1) by (auto simp: wf_tx_def tx_def)
  have oc_len: "oc = word_of_nat (length tos)" using tos by simp
  have "length tis = unat count" using base wits'(1) by auto
  then show "count = word_of_nat (length tis)" by simp
  show "bs = body_bytes wit (tx lt) @ r" if "s4 = le_bytes 4 lt @ r"
    using that base oc' tos wits'(1,4) by (auto simp: tx_def body_bytes_def o_def)
  have "(\<Sum>ti\<leftarrow>base. length (SignatureScript ti)) = (\<Sum>ti\<leftarrow>tis. length (SignatureScript ti))"
    by (simp add: wits'(1) [symmetric] o_def)
  then have "t3 = word_of_nat (script_total tis tos)"
    using wits'(5) tos base by (simp add: script_total_split)
  moreover have "script_total tis tos < 2 ^ 64" using script_total_bound [OF wf] by (simp add: tx_def)
  ultimately show "BtcDecode_scripts tis tos t3 = Inr (tis, tos)" by (simp add: BtcDecode_scripts_same)
qed

lemma BtcDecode_body_sound:
  assumes dec: "BtcDecode_body pver wit version count bs = Inr (tx, r)"
    and count: "unat count \<le> maxTxInPerMessage"
  shows "wf_tx tx \<and> (wit \<or> (\<forall>ti \<in> set (msg_TxIn tx). Witness ti = [])) \<and>
    tx_Version tx = version \<and> count = word_of_nat (length (msg_TxIn tx)) \<and> bs = body_bytes wit tx @ r"
proof -
  obtain base t1 s1 oc s2 tos t2 s3 tis t3 s4 lt tis' tos' where
    st: "BtcDecode_ins pver version (unat count) 0 bs = Inr ((base, t1), s1)"
      "BtcDecode_outcount pver s1 = Inr (oc, s2)"
      "BtcDecode_outs pver version (unat oc) t1 s2 = Inr ((tos, t2), s3)"
      "(if wit then BtcDecode_witnesses pver base t2 s3 else Inr ((base, t2), s3)) = Inr ((tis, t3), s4)" and
    lt: "s4 = le_bytes 4 lt @ r" and
    scr: "BtcDecode_scripts tis tos t3 = Inr (tis', tos')" and
    tx: "tx = \<lparr>tx_Version = version, msg_TxIn = tis', msg_TxOut = tos', LockTime = lt\<rparr>"
    using dec unfolding BtcDecode_body_def by (auto simp: bindR_Inr_conv Uint32_Inr)
  note S = BtcDecode_stages [OF st count]
  have "tis' = tis" "tos' = tos" using S(5) scr by simp_all
  then show ?thesis using S(1) [of lt] S(2,3) S(4) [OF lt] by (simp add: tx)
qed

subsection \<open>The decoder never panics\<close>

definition no_panic :: "'a result \<Rightarrow> bool" where
  "no_panic m \<longleftrightarrow> (\<forall>s. m \<noteq> Inl (Panic s))"

lemma no_panic_Inr [simp]: "no_panic (Inr x)"
  by (simp add: no_panic_def)

lemma no_panic_Inl [simp]: "no_panic (Inl e) \<longleftrightarrow> (\<forall>s. e \<noteq> Panic s)"
  by (simp add: no_panic_def)

lemma no_panic_bindR: "no_panic m \<Longrightarrow> (\<And>a. m = Inr a \<Longrightarrow> no_panic (f a)) \<Longrightarrow> no_panic (bindR m f)"
  by (cases m) auto

lemma no_panic_ReadFull [simp]: "no_panic (ReadFull n r)"
  by (simp add: ReadFull_def)

lemmas no_panic_intros = no_panic_bindR no_panic_ReadFull

lemma no_panic_uints [simp]:
  "no_panic (Uint8 r)" "no_panic (Uint16 b r)" "no_panic (Uint32 b r)" "no_panic (Uint64 b r)"
  by (auto simp: Uint8_def Uint16_def Uint32_def Uint64_def intro!: no_panic_bindR)

lemma no_panic_ReadVarInt [simp]: "no_panic (ReadVarInt pver r)"
  by (auto simp: ReadVarInt_def messageError_def Let_def intro!: no_panic_bindR)

lemma no_panic_readScript [simp]: "no_panic (readScript pver m f r)"
  by (auto simp: readScript_def messageError_def intro!: no_panic_bindR)

lemma no_panic_readTxIn [simp]: "no_panic (readTxIn pver version r)"
  by (auto simp: readTxIn_def readOutPoint_def read_uint32_def mapD_def intro!: no_panic_bindR)

lemma no_panic_readTxOut [simp]: "no_panic (readTxOut pver version r)"
  by (auto simp: readTxOut_def read_int64_def mapD_def intro!: no_panic_bindR)

lemma no_panic_read_n: "(\<And>r. no_panic (dec r)) \<Longrightarrow> no_panic (read_n dec n r)"
  by (induction n arbitrary: r) (auto intro!: no_panic_bindR)

lemma no_panic_loops [simp]:
  "no_panic (BtcDecode_ins pver version n t r)" "no_panic (BtcDecode_outs pver version n t r)"
  "no_panic (BtcDecode_items pver n t r)"
  by (auto simp: BtcDecode_ins_read_n BtcDecode_outs_read_n BtcDecode_items_read_n
      intro!: no_panic_bindR no_panic_read_n)

lemma no_panic_witnesses [simp]: "no_panic (BtcDecode_witnesses pver tis t r)"
  by (induction tis arbitrary: t r) (auto simp: messageError_def intro!: no_panic_bindR)

lemma no_panic_prefix [simp]: "no_panic (BtcDecode_prefix pver enc r)"
  by (auto simp: BtcDecode_prefix_def BtcDecode_flag_def messageError_def intro!: no_panic_bindR)

lemma no_panic_outcount [simp]: "no_panic (BtcDecode_outcount pver r)"
  by (auto simp: BtcDecode_outcount_def messageError_def intro!: no_panic_bindR)

lemma no_panic_body:
  assumes "unat count \<le> maxTxInPerMessage"
  shows "no_panic (BtcDecode_body pver wit version count r)"
proof -
  have "BtcDecode_body pver wit version count r \<noteq> Inl (Panic s)" for s
  proof
    assume "BtcDecode_body pver wit version count r = Inl (Panic s)"
    then obtain base t1 s1 oc s2 tos t2 s3 tis t3 s4 where
      st: "BtcDecode_ins pver version (unat count) 0 r = Inr ((base, t1), s1)"
      "BtcDecode_outcount pver s1 = Inr (oc, s2)"
      "BtcDecode_outs pver version (unat oc) t1 s2 = Inr ((tos, t2), s3)"
      "(if wit then BtcDecode_witnesses pver base t2 s3 else Inr ((base, t2), s3)) = Inr ((tis, t3), s4)"
      and "BtcDecode_scripts tis tos t3 = Inl (Panic s)"
      unfolding BtcDecode_body_def
      by (cases wit) (auto simp: bindR_Inl_conv no_panic_loops [unfolded no_panic_def] no_panic_outcount [unfolded no_panic_def]
          no_panic_witnesses [unfolded no_panic_def] no_panic_uints [unfolded no_panic_def])
    with BtcDecode_stages(5) [OF st assms] show False by simp
  qed
  then show ?thesis by (simp add: no_panic_def)
qed

lemma no_panic_BtcDecode: "no_panic (BtcDecode pver enc bs)"
  unfolding BtcDecode_alt
  by (auto intro!: no_panic_bindR no_panic_body simp: BtcDecode_prefix_iff)

subsection \<open>Characterisation\<close>

lemma BtcDecode_Inr:
  "BtcDecode pver enc bs = Inr (tx, r) \<longleftrightarrow>
     wf_tx tx \<and>
     (if enc = WitnessEncoding
      then bs = flagged_bytes tx @ r \<or>
           msg_TxIn tx \<noteq> [] \<and> \<not> HasWitness tx \<and> bs = plain_bytes tx @ r
      else \<not> HasWitness tx \<and> bs = plain_bytes tx @ r)"
    (is "?L = ?R")
proof
  assume ?L
  then obtain version flag count s where
    p: "BtcDecode_prefix pver enc bs = Inr ((version, flag, count), s)" and
    b: "BtcDecode_body pver (flag \<noteq> 0 \<and> enc = WitnessEncoding) version count s = Inr (tx, r)"
    by (auto simp: BtcDecode_alt bindR_Inr_conv)
  have "unat count \<le> maxTxInPerMessage" using p by (simp add: BtcDecode_prefix_iff)
  note s = BtcDecode_body_sound [OF b this]
  then have "count \<noteq> 0 \<Longrightarrow> msg_TxIn tx \<noteq> []" by auto
  with p s show ?R
    by (auto simp: BtcDecode_prefix_iff flagged_bytes_body plain_bytes_body HasWitness_iff split: if_splits)
next
  assume R: ?R
  let ?c = "word_of_nat (length (msg_TxIn tx)) :: uint64"
  have c: "unat ?c = length (msg_TxIn tx)" and le: "length (msg_TxIn tx) \<le> maxTxInPerMessage"
    using R by (simp_all add: wf_tx_def limits unat_of_nat_small)
  have nz: "?c \<noteq> 0" if "msg_TxIn tx \<noteq> []" using that c by auto
  have "BtcDecode_prefix pver WitnessEncoding (flagged_bytes tx @ r)
      = Inr ((tx_Version tx, 1, ?c), body_bytes True tx @ r)"
    using c le by (simp add: BtcDecode_prefix_iff flagged_bytes_body)
  then have "BtcDecode pver WitnessEncoding (flagged_bytes tx @ r) = Inr (tx, r)"
    using R by (simp add: BtcDecode_alt BtcDecode_body_enc)
  moreover have "BtcDecode pver enc (plain_bytes tx @ r) = Inr (tx, r)"
    if "enc = WitnessEncoding \<Longrightarrow> msg_TxIn tx \<noteq> []" "\<not> HasWitness tx"
  proof -
    have "BtcDecode_prefix pver enc (plain_bytes tx @ r) = Inr ((tx_Version tx, 0, ?c), body_bytes False tx @ r)"
      using c le nz that(1) by (auto simp: BtcDecode_prefix_iff plain_bytes_body)
    then show ?thesis
      using R that(2) by (simp add: BtcDecode_alt BtcDecode_body_enc HasWitness_iff)
  qed
  ultimately show ?L using R by (auto split: if_splits)
qed

text \<open>The base encoding is a codec; the witness encoding accepts more than it writes.\<close>

interpretation base_tx: codec "tx_bytes BaseEncoding" "BtcDecode pver BaseEncoding" "\<lambda>tx. wf_tx tx \<and> \<not> HasWitness tx"
  for pver :: uint32
  by unfold_locales (simp_all add: BtcDecode_Inr tx_bytes_def)

interpretation witness_tx: sound_codec "tx_bytes WitnessEncoding" "BtcDecode pver WitnessEncoding"
    "\<lambda>tx. wf_tx tx \<and> msg_TxIn tx \<noteq> []"
  for pver :: uint32
  by unfold_locales (simp add: BtcDecode_Inr tx_bytes_def)

section \<open>Properties\<close>

text \<open>A transaction with one input, one output and a witness of two items, for the witnesses below.\<close>

definition sample_txin :: TxIn where
  "sample_txin = \<lparr>PreviousOutPoint = \<lparr>op_Hash = replicate 32 7, op_Index = 1\<rparr>,
     SignatureScript = [1, 2, 3], Witness = [[4], []], Sequence = 5\<rparr>"

definition sample_tx :: MsgTx where
  "sample_tx = \<lparr>tx_Version = 1, msg_TxIn = [sample_txin],
     msg_TxOut = [\<lparr>Value = 9, PkScript = [8, 8]\<rparr>], LockTime = 0\<rparr>"

lemma sample_tx_wf:
  "wf_tx sample_tx" "msg_TxIn sample_tx = [sample_txin]" "HasWitness sample_tx"
  by (simp_all add: wf_tx_def sample_tx_def sample_txin_def limits wf_txin_def wf_outpoint_def wf_hash_def
      HashSize_def wf_witness_def wf_txout_def HasWitness_iff)

text \<open>
  C1: what \<^verbatim>\<open>BtcDecode\<close> accepts and returns, for every input and both encodings. It succeeds with
  \<open>tx\<close> and the rest \<open>r\<close> exactly when \<open>tx\<close> is within the limits on counts and sizes and the input
  is \<open>r\<close> behind an encoding of \<open>tx\<close>: the plain layout without witness data under the base encoding;
  under the witness encoding the flagged layout, or the plain one if there are inputs and no witness.
\<close>

theorem BtcDecode_accepts:
  "BtcDecode pver enc bs = Inr (tx, r) \<longleftrightarrow>
     wf_tx tx \<and>
     (case enc of
        BaseEncoding \<Rightarrow> \<not> HasWitness tx \<and> bs = plain_bytes tx @ r
      | WitnessEncoding \<Rightarrow>
          bs = flagged_bytes tx @ r \<or> msg_TxIn tx \<noteq> [] \<and> \<not> HasWitness tx \<and> bs = plain_bytes tx @ r)"
  by (cases enc) (simp_all add: BtcDecode_Inr)

text \<open>
  C4: the witness encoding round trips. What \<^verbatim>\<open>Serialize\<close> writes for a transaction within the limits
  that has an input, \<^verbatim>\<open>Deserialize\<close> reads back, witness stacks included, leaving what follows.
\<close>

theorem Deserialize_Serialize:
  assumes "wf_tx tx" and "msg_TxIn tx \<noteq> []"
  shows "\<exists>bs. Serialize tx emptyBuffer = (None, \<lparr>wbuf = bs, wroom = None\<rparr>) \<and>
    Deserialize (bs @ r) = Inr (tx, r)"
  using witness_tx.dec_enc [where x = tx] assms by (simp add: Serialize_Write Deserialize_def)

theorem Deserialize_Serialize_witness:
  "\<exists>bs. Serialize sample_tx emptyBuffer = (None, \<lparr>wbuf = bs, wroom = None\<rparr>) \<and>
    Deserialize (bs @ [1]) = Inr (sample_tx, [1])"
  by (rule Deserialize_Serialize) (simp_all add: sample_tx_wf)

text \<open>
  the base encoding drops the witnesses and nothing else: a peer that decodes what \<^verbatim>\<open>BtcEncode\<close>
  wrote with the base encoding gets the transaction with every witness stack empty.
\<close>

theorem BtcDecode_BtcEncode_base:
  assumes "wf_tx tx"
  shows "\<exists>bs. BtcEncode pver BaseEncoding tx emptyBuffer = (None, \<lparr>wbuf = bs, wroom = None\<rparr>) \<and>
    BtcDecode pver2 BaseEncoding (bs @ r) = Inr (tx\<lparr>msg_TxIn := map strip_witness (msg_TxIn tx)\<rparr>, r)"
proof -
  let ?tx = "tx\<lparr>msg_TxIn := map strip_witness (msg_TxIn tx)\<rparr>"
  have "wf_tx ?tx" using assms by (auto simp: wf_tx_def wf_txin_strip wf_witness_def)
  moreover have "\<not> HasWitness ?tx" by (simp add: HasWitness_iff)
  moreover have "plain_bytes ?tx = plain_bytes tx"
    by (simp add: plain_bytes_def ins_outs_bytes_def o_def)
  ultimately show ?thesis by (simp add: BtcEncode_Write BtcDecode_Inr tx_bytes_def)
qed

theorem BtcDecode_BtcEncode_base_witness:
  "\<exists>bs. BtcEncode 0 BaseEncoding sample_tx emptyBuffer = (None, \<lparr>wbuf = bs, wroom = None\<rparr>) \<and>
    BtcDecode 0 BaseEncoding (bs @ []) =
      Inr (sample_tx\<lparr>msg_TxIn := map strip_witness (msg_TxIn sample_tx)\<rparr>, [])"
  by (rule BtcDecode_BtcEncode_base) (rule sample_tx_wf)

text \<open>
  C29: \<^verbatim>\<open>SerializeSize\<close> is the exact number of bytes \<^verbatim>\<open>Serialize\<close> writes and \<^verbatim>\<open>baseSize\<close> that of the base
  encoding, for transactions of any size, when the hashes of the outpoints have 32 bytes.
\<close>

theorem SerializeSize_Serialize:
  assumes "\<forall>ti \<in> set (msg_TxIn tx). wf_hash (op_Hash (PreviousOutPoint ti))"
  shows "(\<exists>bs. Serialize tx emptyBuffer = (None, \<lparr>wbuf = bs, wroom = None\<rparr>) \<and> length bs = SerializeSize tx) \<and>
    (\<exists>bs. BtcEncode pver BaseEncoding tx emptyBuffer = (None, \<lparr>wbuf = bs, wroom = None\<rparr>) \<and>
          length bs = baseSize tx)"
  using length_tx_bytes [OF assms] by (simp add: Serialize_Write BtcEncode_Write)

theorem SerializeSize_Serialize_witness:
  "\<exists>bs. Serialize sample_tx emptyBuffer = (None, \<lparr>wbuf = bs, wroom = None\<rparr>) \<and> length bs = 71"
proof -
  have "\<forall>ti \<in> set (msg_TxIn sample_tx). wf_hash (op_Hash (PreviousOutPoint ti))"
    by (simp add: sample_tx_def sample_txin_def wf_hash_def HashSize_def)
  moreover have "SerializeSize sample_tx = 71"
    by code_simp
  ultimately show ?thesis using SerializeSize_Serialize [of sample_tx] by simp
qed

text \<open>
  C10: decoding is safe on every input. \<^verbatim>\<open>BtcDecode\<close> never panics: the copies into the contiguous
  script buffer and the slices taken from it stay within its bounds, since \<^verbatim>\<open>totalScriptSize\<close> never
  wraps around; a transaction it returns holds fewer than \<open>2 ^ 53\<close> bytes of scripts and witnesses.
\<close>

theorem BtcDecode_safe:
  "case BtcDecode pver enc bs of
     Inl err \<Rightarrow> (\<forall>what. err \<noteq> Panic what)
   | Inr (tx, r) \<Rightarrow> wf_tx tx \<and> script_total (msg_TxIn tx) (msg_TxOut tx) < 2 ^ 53 \<and> length r < length bs"
proof (cases "BtcDecode pver enc bs")
  case (Inl e)
  then show ?thesis using no_panic_BtcDecode [of pver enc bs] by (auto simp: no_panic_def)
next
  case (Inr p)
  then obtain tx r where p: "p = (tx, r)" by (cases p)
  with Inr have "BtcDecode pver enc bs = Inr (tx, r)" by simp
  then have "wf_tx tx" and "bs = flagged_bytes tx @ r \<or> bs = plain_bytes tx @ r"
    by (auto simp: BtcDecode_Inr split: if_splits)
  then have "length r < length bs" by (auto simp: flagged_bytes_def plain_bytes_def)
  then show ?thesis using \<open>wf_tx tx\<close> Inr p script_total_bound [of tx] by simp
qed

text \<open>
  moving the scripts into one allocation is invisible: given the total of their sizes, the loops
  that copy each script and replace it by a slice of the contiguous buffer return inputs and outputs
  with the scripts and witness items they started from.
\<close>

theorem contiguous_scripts:
  assumes "length (concat (ins_scripts tis)) + length (concat (map PkScript tos)) < 2 ^ 64"
  shows "BtcDecode_scripts tis tos
      (word_of_nat (length (concat (ins_scripts tis)) + length (concat (map PkScript tos)))) = Inr (tis, tos)"
  using BtcDecode_scripts_same [of tis tos] assms by (simp add: script_total_def)

theorem contiguous_scripts_witness:
  "BtcDecode_scripts (msg_TxIn sample_tx) (msg_TxOut sample_tx) 6 =
     Inr (msg_TxIn sample_tx, msg_TxOut sample_tx)"
  using contiguous_scripts [of "msg_TxIn sample_tx" "msg_TxOut sample_tx"]
  by (simp add: sample_tx_def sample_txin_def)

text \<open>
  the witness encoding of a transaction without inputs is not read back: the input count of zero
  is taken for the flag marker, so \<^verbatim>\<open>Deserialize\<close> never returns the transaction \<^verbatim>\<open>Serialize\<close> wrote.
\<close>

theorem Deserialize_no_inputs:
  assumes "msg_TxIn tx = []"
  shows "\<exists>bs. Serialize tx emptyBuffer = (None, \<lparr>wbuf = bs, wroom = None\<rparr>) \<and>
    Deserialize (bs @ r) \<noteq> Inr (tx, r)"
proof -
  have "length (flagged_bytes tx) = length (plain_bytes tx) + 2"
    using assms by (simp add: flagged_bytes_def plain_bytes_def)
  then have "plain_bytes tx \<noteq> flagged_bytes tx" by auto
  moreover have "\<not> HasWitness tx" using assms by (simp add: HasWitness_iff)
  ultimately show ?thesis
    using assms by (simp add: Serialize_Write tx_bytes_def Deserialize_def BtcDecode_Inr)
qed

theorem Deserialize_no_inputs_witness:
  "\<exists>bs. Serialize (sample_tx\<lparr>msg_TxIn := []\<rparr>) emptyBuffer = (None, \<lparr>wbuf = bs, wroom = None\<rparr>) \<and>
    Deserialize (bs @ []) \<noteq> Inr (sample_tx\<lparr>msg_TxIn := []\<rparr>, [])"
  by (rule Deserialize_no_inputs) simp

text \<open>
  reading a script through the pool of 512-byte buffers gives the same bytes and errors as
  reading it into a new slice, and the pool keeps its invariant (at most 12500 buffers, all of 512
  bytes), whatever a script's length is and also when the read fails.
\<close>

theorem readScript_pool_transparent:
  assumes "pool_inv c"
  shows "bindR (fst (readScript_pool pver maxAllowed f c r)) (\<lambda>(b, r). Inr (slice_view b, r))
      = readScript pver maxAllowed f r \<and>
    pool_inv (snd (readScript_pool pver maxAllowed f c r))"
  using readScript_pool_correct [of pver maxAllowed f c r] assms
  by (simp add: readScript_pool_inv mapD_def)

theorem readScript_pool_transparent_witness:
  "bindR (fst (readScript_pool 0 100 ''script'' [replicate 512 9] [2, 6, 7, 8])) (\<lambda>(b, r). Inr (slice_view b, r))
      = readScript 0 100 ''script'' [2, 6, 7, 8] \<and>
   pool_inv (snd (readScript_pool 0 100 ''script'' [replicate 512 9] [2, 6, 7, 8]))"
  by (rule readScript_pool_transparent)
    (simp add: pool_inv_def freeListMaxItems_def freeListMaxScriptSize_def)

end
