(* ===== verification/Blocks.thy ===== *)
theory Blocks
  imports Wire_Tx
begin

text \<open>
  Block headers and blocks (\<^verbatim>\<open>wire/blockheader.go\<close>, \<^verbatim>\<open>msgblock.go\<close>, \<^verbatim>\<open>invvect.go\<close>, \<^verbatim>\<open>netaddress.go\<close>,
  \<^verbatim>\<open>protocol.go\<close>), the caching wrappers of package acbcutil (\<^verbatim>\<open>block.go\<close>, \<^verbatim>\<open>tx.go\<close>), the flat view of
  the best chain (\<^verbatim>\<open>blockchain/chainview.go\<close>, \<^verbatim>\<open>chain.go\<close>, \<^verbatim>\<open>chainio.go\<close>, \<^verbatim>\<open>weight.go\<close>) and the median
  time deployments of \<^verbatim>\<open>chaincfg/deployment_time_frame.go\<close>. The block clock is a parameter.
\<close>

section \<open>Block headers\<close>

definition MaxBlockHeaderPayload :: nat where
  "MaxBlockHeaderPayload = 16 + HashSize * 2"

record BlockHeader =
  bh_Version :: int32
  PrevBlock :: hash
  MerkleRoot :: hash
  Timestamp :: gotime
  Bits :: uint32
  Nonce :: uint32

record MsgBlock =
  Header :: BlockHeader
  mb_Transactions :: "MsgTx list"

record InvVect =
  iv_Type :: uint32
  iv_Hash :: hash

record NetAddress =
  na_Timestamp :: gotime
  Services :: uint64
  na_IP :: bytes
  na_Port :: uint16

definition MainNet :: uint32 where "MainNet = 0xd9b4bef9"
definition TestNet :: uint32 where "TestNet = 0xdab5bffa"
definition TestNet3 :: uint32 where "TestNet3 = 0x0709110b"
definition SimNet :: uint32 where "SimNet = 0x12141c16"

definition writeBlockHeader :: "uint32 \<Rightarrow> BlockHeader \<Rightarrow> encoder" where
  "writeBlockHeader pver bh =
     (let sec = word_of_int (Unix (Timestamp bh)) in
      writeElements [El_int32 (bh_Version bh), El_Hash (PrevBlock bh), El_Hash (MerkleRoot bh),
        El_uint32 sec, El_uint32 (Bits bh), El_uint32 (Nonce bh)])"

definition BlockHash :: "BlockHeader \<Rightarrow> hash" where
  "BlockHash h =
     (let (_, buf) = writeBlockHeader 0 h emptyBuffer in DoubleHashH (wbuf buf))"

definition readBlockHeader :: "uint32 \<Rightarrow> BlockHeader \<Rightarrow> BlockHeader decoder" where
  "readBlockHeader pver bh r =
     bindR (readElements [El_int32 (bh_Version bh), El_Hash (PrevBlock bh), El_Hash (MerkleRoot bh),
         El_uint32Time (Timestamp bh), El_uint32 (Bits bh), El_uint32 (Nonce bh)] r)
       (\<lambda>(es, r). case es of
          [El_int32 v, El_Hash p, El_Hash m, El_uint32Time t, El_uint32 b, El_uint32 n] \<Rightarrow>
            Inr (\<lparr>bh_Version = v, PrevBlock = p, MerkleRoot = m, Timestamp = t, Bits = b, Nonce = n\<rparr>, r)
        | _ \<Rightarrow> Inr (bh, r))"

definition BlockHeader_Deserialize :: "BlockHeader \<Rightarrow> BlockHeader decoder" where
  "BlockHeader_Deserialize h r = readBlockHeader 0 h r"

definition MsgBlock_BlockHash :: "MsgBlock \<Rightarrow> hash" where
  "MsgBlock_BlockHash msg = BlockHash (Header msg)"

subsection \<open>The 80 bytes of a header\<close>

definition header_bytes :: "BlockHeader \<Rightarrow> bytes" where
  "header_bytes h = le_bytes 4 (bh_Version h) @ PrevBlock h @ MerkleRoot h @
     le_bytes 4 (word_of_int (Unix (Timestamp h)) :: uint32) @ le_bytes 4 (Bits h) @ le_bytes 4 (Nonce h)"

definition wf_header :: "BlockHeader \<Rightarrow> bool" where
  "wf_header h \<longleftrightarrow> wf_hash (PrevBlock h) \<and> wf_hash (MerkleRoot h) \<and>
     Timestamp h = time_Unix (Unix (Timestamp h) mod 2 ^ 32)"

lemma writeBlockHeader_Write [wire_enc]: "writeBlockHeader pver h = Write (header_bytes h)"
  by (simp add: writeBlockHeader_def header_bytes_def Let_def writeElements_Write)

lemma uint_word_of_int32: "uint (word_of_int k :: uint32) = k mod 2 ^ 32"
  by (simp add: unsigned_of_int take_bit_eq_mod)

lemma uint32_mod: "uint (w :: uint32) mod 4294967296 = uint w"
  using unsigned_less [of w, where 'a = int] by simp

lemma readBlockHeader_iff:
  "readBlockHeader pver d bs = Inr (h, r) \<longleftrightarrow> wf_header h \<and> bs = header_bytes h @ r"
proof
  assume "readBlockHeader pver d bs = Inr (h, r)"
  then show "wf_header h \<and> bs = header_bytes h @ r"
    by (auto simp: readBlockHeader_def bindR_Inr_conv mapD_def Uint32_Inr ReadFull_Inr wf_header_def
        wf_hash_def header_bytes_def uint32_mod)
next
  assume *: "wf_header h \<and> bs = header_bytes h @ r"
  then have t: "time_Unix (uint (word_of_int (Unix (Timestamp h)) :: uint32)) = Timestamp h"
    by (simp add: wf_header_def uint_word_of_int32)
  show "readBlockHeader pver d bs = Inr (h, r)"
    using * by (simp add: readBlockHeader_def mapD_def wire_dec wf_header_def wf_hash_def header_bytes_def t)
qed

interpretation header: codec header_bytes "readBlockHeader pver d" wf_header
  for pver :: uint32 and d :: BlockHeader
  by unfold_locales (simp_all add: readBlockHeader_iff)

lemma length_header_bytes [wire_len]: "wf_header h \<Longrightarrow> length (header_bytes h) = MaxBlockHeaderPayload"
  by (simp add: header_bytes_def wf_header_def wf_hash_def MaxBlockHeaderPayload_def)

section \<open>Transactions and blocks with caches\<close>

definition TxIndexUnknown :: int where
  "TxIndexUnknown = - 1"

record Tx =
  msgTx :: MsgTx
  txHash :: "hash option"
  txHashWitness :: "hash option"
  txHasWitness :: "bool option"
  txIndex :: int

definition NewTx :: "MsgTx \<Rightarrow> Tx" where
  "NewTx m = \<lparr>msgTx = m, txHash = None, txHashWitness = None, txHasWitness = None, txIndex = TxIndexUnknown\<rparr>"

definition Tx_Index :: "Tx \<Rightarrow> int" where
  "Tx_Index t = txIndex t"

definition SetIndex :: "int \<Rightarrow> Tx \<Rightarrow> Tx" where
  "SetIndex index t = t\<lparr>txIndex := index\<rparr>"

definition Tx_MsgTx :: "Tx \<Rightarrow> MsgTx" where
  "Tx_MsgTx t = msgTx t"

definition NewTxFromReader :: "Tx decoder" where
  "NewTxFromReader r =
     bindR (Deserialize r) (\<lambda>(m, r).
       Inr (\<lparr>msgTx = m, txHash = None, txHashWitness = None, txHasWitness = None, txIndex = TxIndexUnknown\<rparr>, r))"

definition NewTxFromBytes :: "bytes \<Rightarrow> Tx result" where
  "NewTxFromBytes serializedTx = bindR (NewTxFromReader serializedTx) (\<lambda>(t, _). Inr t)"

text \<open>\<open>None\<close> in the list of wrapped transactions is the nil pointer of a slot not generated yet.\<close>

record Block =
  msgBlock :: MsgBlock
  serializedBlock :: bytes
  serializedBlockNoWitness :: bytes
  blockHash :: "hash option"
  blockHeight :: int32
  transactions :: "Tx option list"
  txnsGenerated :: bool

text \<open>
  The generating loop runs over the slots; indexing \<^verbatim>\<open>msgBlock.Transactions\<close> past its end panics.
\<close>

primrec generate_txs :: "MsgTx list \<Rightarrow> nat \<Rightarrow> Tx option list \<Rightarrow> Tx option list result" where
  "generate_txs msgs i [] = Inr []"
| "generate_txs msgs i (t # ts) =
     bindR (case t of
              Some tx \<Rightarrow> Inr (Some tx)
            | None \<Rightarrow> if i < length msgs then Inr (Some (SetIndex (int i) (NewTx (msgs ! i))))
                      else Inl (Panic ''index out of range''))
       (\<lambda>t. bindR (generate_txs msgs (Suc i) ts) (\<lambda>ts. Inr (t # ts)))"

definition Transactions :: "Block \<Rightarrow> (Tx option list \<times> Block) result" where
  "Transactions b =
     (if txnsGenerated b then Inr (transactions b, b)
      else
        let b = (if length (transactions b) = 0
                 then b\<lparr>transactions := replicate (length (mb_Transactions (msgBlock b))) None\<rparr> else b)
        in bindR (generate_txs (mb_Transactions (msgBlock b)) 0 (transactions b)) (\<lambda>txs.
             Inr (txs, b\<lparr>transactions := txs, txnsGenerated := True\<rparr>)))"

definition Height :: "Block \<Rightarrow> int32" where
  "Height b = blockHeight b"

definition Block_Hash :: "Block \<Rightarrow> hash \<times> Block" where
  "Block_Hash b =
     (case blockHash b of
        Some h \<Rightarrow> (h, b)
      | None \<Rightarrow> let h = MsgBlock_BlockHash (msgBlock b) in (h, b\<lparr>blockHash := Some h\<rparr>))"

definition Block_MsgBlock :: "Block \<Rightarrow> MsgBlock" where
  "Block_MsgBlock b = msgBlock b"

text \<open>
  The invariant of the caches: a generated slot wraps the transaction at its position, and a cached
  hash is the hash of the header.
\<close>

definition slot_ok :: "MsgTx list \<Rightarrow> nat \<Rightarrow> Tx option \<Rightarrow> bool" where
  "slot_ok msgs i t \<longleftrightarrow> (case t of None \<Rightarrow> True | Some tx \<Rightarrow> i < length msgs \<and> msgTx tx = msgs ! i \<and> txIndex tx = int i)"

definition block_inv :: "Block \<Rightarrow> bool" where
  "block_inv b \<longleftrightarrow>
     (let msgs = mb_Transactions (msgBlock b); ts = transactions b in
      (ts = [] \<and> \<not> txnsGenerated b \<or> length ts = length msgs) \<and>
      (\<forall>i < length ts. slot_ok msgs i (ts ! i)) \<and>
      (txnsGenerated b \<longrightarrow> None \<notin> set ts) \<and>
      (\<forall>h. blockHash b = Some h \<longrightarrow> h = MsgBlock_BlockHash (msgBlock b)))"

lemma generate_txs_ok:
  assumes "\<forall>j < length ts. slot_ok msgs (i + j) (ts ! j)" and "i + length ts \<le> length msgs"
  shows "\<exists>txs. generate_txs msgs i ts = Inr txs \<and> length txs = length ts \<and> None \<notin> set txs \<and>
    (\<forall>j < length txs. slot_ok msgs (i + j) (txs ! j))"
  using assms
proof (induction ts arbitrary: i)
  case (Cons t ts)
  have "\<forall>j < length ts. slot_ok msgs (Suc i + j) (ts ! j)"
    using Cons.prems(1) by (metis add_Suc_shift length_Cons nth_Cons_Suc Suc_less_eq)
  moreover have "Suc i + length ts \<le> length msgs" using Cons.prems(2) by simp
  ultimately obtain txs where txs: "generate_txs msgs (Suc i) ts = Inr txs" "length txs = length ts"
    "None \<notin> set txs" "\<forall>j < length txs. slot_ok msgs (Suc i + j) (txs ! j)"
    using Cons.IH [of "Suc i"] by blast
  have "slot_ok msgs i t" using Cons.prems(1) by force
  then obtain tx where "(case t of Some tx \<Rightarrow> Inr (Some tx)
      | None \<Rightarrow> if i < length msgs then Inr (Some (SetIndex (int i) (NewTx (msgs ! i))))
                else Inl (Panic ''index out of range'')) = Inr (Some tx)" and "slot_ok msgs i (Some tx)"
    using Cons.prems(2) by (cases t) (auto simp: slot_ok_def SetIndex_def NewTx_def)
  with txs show ?case by (auto simp: nth_Cons split: nat.split)
qed simp

lemma Transactions_inv:
  assumes inv: "block_inv b"
  shows "\<exists>txs b'. Transactions b = Inr (txs, b') \<and> block_inv b' \<and> txnsGenerated b' \<and> transactions b' = txs \<and>
    msgBlock b' = msgBlock b \<and> length txs = length (mb_Transactions (msgBlock b)) \<and> None \<notin> set txs \<and>
    (\<forall>i < length txs. slot_ok (mb_Transactions (msgBlock b)) i (txs ! i))"
proof (cases "txnsGenerated b")
  case True
  with inv show ?thesis by (simp add: Transactions_def block_inv_def Let_def)
next
  case False
  let ?ts = "if length (transactions b) = 0 then replicate (length (mb_Transactions (msgBlock b))) None
    else transactions b"
  have "\<forall>j < length ?ts. slot_ok (mb_Transactions (msgBlock b)) (0 + j) (?ts ! j)"
    using inv by (simp add: block_inv_def Let_def slot_ok_def)
  moreover have len: "length ?ts = length (mb_Transactions (msgBlock b))"
    using inv False by (auto simp: block_inv_def Let_def)
  ultimately obtain txs where "generate_txs (mb_Transactions (msgBlock b)) 0 ?ts = Inr txs"
    "length txs = length ?ts" "None \<notin> set txs"
    "\<forall>j < length txs. slot_ok (mb_Transactions (msgBlock b)) (0 + j) (txs ! j)"
    using generate_txs_ok [of ?ts "mb_Transactions (msgBlock b)" 0] by auto
  with False inv len show ?thesis by (auto simp: Transactions_def block_inv_def Let_def split: if_splits)
qed

lemma Block_Hash_inv:
  "block_inv b \<Longrightarrow>
     (case Block_Hash b of (h, b') \<Rightarrow>
        h = MsgBlock_BlockHash (msgBlock b) \<and> block_inv b' \<and> blockHash b' = Some h \<and> msgBlock b' = msgBlock b)"
  by (auto simp: Block_Hash_def block_inv_def Let_def split: option.split)

section \<open>The best chain by height\<close>

record blockNode =
  bn_parent :: "hash option"
  bn_hash :: hash
  workSum :: int
  bn_height :: int32
  bn_version :: int32
  bn_bits :: uint32
  bn_nonce :: uint32
  bn_timestamp :: int64
  bn_merkleRoot :: hash
  bn_status :: byte

record chainView =
  nodes :: "blockNode list"

record BlockChain =
  bestChain :: chainView

text \<open>\<^verbatim>\<open>int32(len(c.nodes))\<close> keeps the low 32 bits of the length; indexing past the end panics.\<close>

definition nodeByHeight :: "chainView \<Rightarrow> int32 \<Rightarrow> blockNode option result" where
  "nodeByHeight c height =
     (if sint height < 0 \<or> sint height \<ge> sint (word_of_nat (length (nodes c)) :: int32) then Inr None
      else if nat (sint height) < length (nodes c) then Inr (Some (nodes c ! nat (sint height)))
      else Inl (Panic ''index out of range''))"

definition NodeByHeight :: "chainView \<Rightarrow> int32 \<Rightarrow> blockNode option result" where
  "NodeByHeight c height = nodeByHeight c height"

definition BlockHashByHeight :: "BlockChain \<Rightarrow> int32 \<Rightarrow> hash result" where
  "BlockHashByHeight b height =
     bindR (NodeByHeight (bestChain b) height) (\<lambda>node.
       case node of
         None \<Rightarrow> Inl (ErrNotInMainChain (''no block at height '' @ fmt_d (sint height) @ '' exists''))
       | Some node \<Rightarrow> Inr (bn_hash node))"

definition MaxBlockWeight :: nat where "MaxBlockWeight = 4000000"
definition MaxBlockBaseSize :: nat where "MaxBlockBaseSize = 1000000"
definition MaxBlockSigOpsCost :: nat where "MaxBlockSigOpsCost = 80000"
definition WitnessScaleFactor :: nat where "WitnessScaleFactor = 4"
definition MinTxOutputWeight :: nat where "MinTxOutputWeight = WitnessScaleFactor * MinTxOutPayload"
definition MaxOutputsPerBlock :: nat where "MaxOutputsPerBlock = MaxBlockWeight div MinTxOutputWeight"

lemma sint_of_nat_le: "sint (word_of_nat n :: int32) \<le> int n"
  by (simp add: signed_of_nat signed_take_bit_int_less_eq_self_iff)

lemma sint_of_nat_small: "n < 2 ^ 31 \<Longrightarrow> sint (word_of_nat n :: int32) = int n"
  by (simp add: signed_of_nat signed_take_bit_int_eq_self)

lemma nodeByHeight_small:
  "length (nodes c) < 2 ^ 31 \<Longrightarrow>
   nodeByHeight c height =
     Inr (if 0 \<le> sint height \<and> sint height < int (length (nodes c))
          then Some (nodes c ! nat (sint height)) else None)"
  by (auto simp: nodeByHeight_def sint_of_nat_small)

lemma nodeByHeight_no_panic: "nodeByHeight c height \<noteq> Inl e"
  using sint_of_nat_le [of "length (nodes c)"] by (auto simp: nodeByHeight_def)

section \<open>Median time deployments\<close>

definition ErrNoBlockClock :: goerr where
  "ErrNoBlockClock = ErrorString ''no block clock synchronized''"

text \<open>A \<^verbatim>\<open>BlockClock\<close> is its method \<^verbatim>\<open>PastMedianTime\<close>.\<close>

type_synonym BlockClock = "BlockHeader \<Rightarrow> gotime result"

record MedianTimeDeploymentStarter =
  ds_blockClock :: "BlockClock option"
  startTime :: gotime

record MedianTimeDeploymentEnder =
  de_blockClock :: "BlockClock option"
  endTime :: gotime

definition NewMedianTimeDeploymentStarter :: "gotime \<Rightarrow> MedianTimeDeploymentStarter" where
  "NewMedianTimeDeploymentStarter t = \<lparr>ds_blockClock = None, startTime = t\<rparr>"

definition Starter_SynchronizeClock :: "BlockClock \<Rightarrow> MedianTimeDeploymentStarter \<Rightarrow> MedianTimeDeploymentStarter" where
  "Starter_SynchronizeClock clock m = m\<lparr>ds_blockClock := Some clock\<rparr>"

definition HasStarted :: "MedianTimeDeploymentStarter \<Rightarrow> BlockHeader \<Rightarrow> bool result" where
  "HasStarted m blkHeader =
     (case ds_blockClock m of
        None \<Rightarrow> Inl ErrNoBlockClock
      | Some clock \<Rightarrow>
          if IsZero (startTime m) then Inr True
          else bindR (clock blkHeader) (\<lambda>medianTime.
                 Inr (medianTime > startTime m \<or> medianTime = startTime m)))"

definition StartTime :: "MedianTimeDeploymentStarter \<Rightarrow> gotime" where
  "StartTime m = startTime m"

definition NewMedianTimeDeploymentEnder :: "gotime \<Rightarrow> MedianTimeDeploymentEnder" where
  "NewMedianTimeDeploymentEnder t = \<lparr>de_blockClock = None, endTime = t\<rparr>"

definition Ender_SynchronizeClock :: "BlockClock \<Rightarrow> MedianTimeDeploymentEnder \<Rightarrow> MedianTimeDeploymentEnder" where
  "Ender_SynchronizeClock clock m = m\<lparr>de_blockClock := Some clock\<rparr>"

definition HasEnded :: "MedianTimeDeploymentEnder \<Rightarrow> BlockHeader \<Rightarrow> bool result" where
  "HasEnded m blkHeader =
     (case de_blockClock m of
        None \<Rightarrow> Inl ErrNoBlockClock
      | Some clock \<Rightarrow>
          if IsZero (endTime m) then Inr False
          else bindR (clock blkHeader) (\<lambda>medianTime.
                 Inr (medianTime > endTime m \<or> medianTime = endTime m)))"

definition EndTime :: "MedianTimeDeploymentEnder \<Rightarrow> gotime" where
  "EndTime m = endTime m"

section \<open>Properties\<close>

text \<open>
  a block header is 80 bytes on the wire and \<^verbatim>\<open>readBlockHeader\<close> accepts exactly the encodings of
  headers with whole-second timestamps of 32 bits. A header with any other timestamp comes back with
  its Unix second reduced modulo \<open>2 ^ 32\<close> and all other fields unchanged.
\<close>

theorem readBlockHeader_writeBlockHeader:
  assumes "wf_hash (PrevBlock h)" and "wf_hash (MerkleRoot h)"
  shows "\<exists>bs. writeBlockHeader pver h emptyBuffer = (None, \<lparr>wbuf = bs, wroom = None\<rparr>) \<and>
    length bs = MaxBlockHeaderPayload \<and> MaxBlockHeaderPayload = 80 \<and>
    (\<forall>d r. readBlockHeader pver d (bs @ r) = Inr (h\<lparr>Timestamp := time_Unix (Unix (Timestamp h) mod 2 ^ 32)\<rparr>, r))"
proof -
  let ?h = "h\<lparr>Timestamp := time_Unix (Unix (Timestamp h) mod 2 ^ 32)\<rparr>"
  have "wf_header ?h" using assms by (simp add: wf_header_def)
  moreover have "(word_of_int (Unix (Timestamp h) mod 2 ^ 32) :: uint32) = word_of_int (Unix (Timestamp h))"
    by (simp add: word_of_int_eq_iff take_bit_eq_mod)
  then have "header_bytes ?h = header_bytes h" by (simp add: header_bytes_def)
  moreover have "MaxBlockHeaderPayload = 80" by (simp add: MaxBlockHeaderPayload_def HashSize_def)
  ultimately show ?thesis
    using length_header_bytes [of ?h] by (simp add: writeBlockHeader_Write readBlockHeader_iff)
qed

definition sample_header :: BlockHeader where
  "sample_header = \<lparr>bh_Version = 1, PrevBlock = replicate 32 1, MerkleRoot = replicate 32 2,
     Timestamp = time_Unix 1231006505, Bits = 0x1d00ffff, Nonce = 2083236893\<rparr>"

theorem readBlockHeader_writeBlockHeader_witness:
  "\<exists>bs. writeBlockHeader 0 sample_header emptyBuffer = (None, \<lparr>wbuf = bs, wroom = None\<rparr>) \<and> length bs = 80 \<and>
    readBlockHeader 0 sample_header (bs @ [1]) = Inr (sample_header, [1])"
proof -
  have h: "wf_hash (PrevBlock sample_header)" "wf_hash (MerkleRoot sample_header)"
    by (simp_all add: sample_header_def wf_hash_def HashSize_def)
  have "sample_header\<lparr>Timestamp := time_Unix (Unix (Timestamp sample_header) mod 2 ^ 32)\<rparr> = sample_header"
    by (simp add: sample_header_def)
  with readBlockHeader_writeBlockHeader [OF h, of 0] show ?thesis by auto
qed


definition sample_block :: Block where
  "sample_block = \<lparr>msgBlock = \<lparr>Header = sample_header, mb_Transactions = [sample_tx]\<rparr>, serializedBlock = [],
     serializedBlockNoWitness = [], blockHash = None, blockHeight = 7, transactions = [], txnsGenerated = False\<rparr>"


text \<open>
  \<^verbatim>\<open>BlockHashByHeight\<close> on a chain of fewer than \<open>2 ^ 31\<close> blocks returns the hash of the block at the
  height for heights from 0 to the tip and the not-in-main-chain error for every other one, negative
  heights included; on a chain of any length the look up never indexes out of range.
\<close>

theorem BlockHashByHeight_spec:
  "(length (nodes (bestChain b)) < 2 ^ 31 \<longrightarrow>
     BlockHashByHeight b height =
       (if 0 \<le> sint height \<and> sint height < int (length (nodes (bestChain b)))
        then Inr (bn_hash (nodes (bestChain b) ! nat (sint height)))
        else Inl (ErrNotInMainChain (''no block at height '' @ fmt_d (sint height) @ '' exists'')))) \<and>
   (\<forall>what. BlockHashByHeight b height \<noteq> Inl (Panic what))"
  using nodeByHeight_small [of "bestChain b" height] nodeByHeight_no_panic [of "bestChain b" height]
  by (cases "nodeByHeight (bestChain b) height")
    (auto simp: BlockHashByHeight_def NodeByHeight_def split: option.splits)

theorem BlockHashByHeight_spec_witness:
  "BlockHashByHeight \<lparr>bestChain = \<lparr>nodes = []\<rparr>\<rparr> 3 = Inl (ErrNotInMainChain ''no block at height 3 exists'')"
proof -
  have "fmt_d 3 = ''3''" by code_simp
  then show ?thesis using BlockHashByHeight_spec [of "\<lparr>bestChain = \<lparr>nodes = []\<rparr>\<rparr>" 3] by simp
qed

text \<open>
  deployments are windows of median time. Without a clock both queries fail with
  \<^verbatim>\<open>ErrNoBlockClock\<close>, whatever their times. With a clock that knows the median time past of the
  block, the deployment has started from the start time on and ended from the end time on; a zero
  start time means always started and a zero end time never ended; a deployment whose end does not
  precede its start never has ended without having started.
\<close>

theorem deployment_window:
  assumes "clock h = Inr t"
  shows "HasStarted (NewMedianTimeDeploymentStarter s) h = Inl ErrNoBlockClock \<and>
    HasEnded (NewMedianTimeDeploymentEnder e) h = Inl ErrNoBlockClock \<and>
    HasStarted (Starter_SynchronizeClock clock (NewMedianTimeDeploymentStarter s)) h = Inr (IsZero s \<or> s \<le> t) \<and>
    HasEnded (Ender_SynchronizeClock clock (NewMedianTimeDeploymentEnder e)) h = Inr (\<not> IsZero e \<and> e \<le> t) \<and>
    (s \<le> e \<and> HasEnded (Ender_SynchronizeClock clock (NewMedianTimeDeploymentEnder e)) h = Inr True \<longrightarrow>
     HasStarted (Starter_SynchronizeClock clock (NewMedianTimeDeploymentStarter s)) h = Inr True)"
  using assms
  by (auto simp: HasStarted_def HasEnded_def NewMedianTimeDeploymentStarter_def NewMedianTimeDeploymentEnder_def
      Starter_SynchronizeClock_def Ender_SynchronizeClock_def)

theorem deployment_window_witness:
  "HasStarted (Starter_SynchronizeClock (\<lambda>_. Inr (time_Unix 20)) (NewMedianTimeDeploymentStarter (time_Unix 20)))
     sample_header = Inr True"
  using deployment_window [of "\<lambda>_. Inr (time_Unix 20)" sample_header "time_Unix 20" "time_Unix 20"] by simp

text \<open>
  \<^verbatim>\<open>NewTxFromBytes\<close> of a serialized transaction gives a wrapper around that transaction with an
  unknown index, and bytes behind the transaction are ignored.
\<close>

theorem NewTxFromBytes_Serialize:
  assumes "wf_tx tx" and "msg_TxIn tx \<noteq> []"
  shows "\<exists>bs. Serialize tx emptyBuffer = (None, \<lparr>wbuf = bs, wroom = None\<rparr>) \<and>
    (\<forall>trailing. NewTxFromBytes (bs @ trailing) = Inr (NewTx tx))"
  using witness_tx.dec_enc [where x = tx] assms
  by (simp add: Serialize_Write Deserialize_def NewTxFromBytes_def NewTxFromReader_def NewTx_def)

theorem NewTxFromBytes_Serialize_witness:
  "\<exists>bs. Serialize sample_tx emptyBuffer = (None, \<lparr>wbuf = bs, wroom = None\<rparr>) \<and>
    (\<forall>trailing. NewTxFromBytes (bs @ trailing) = Inr (NewTx sample_tx))"
  by (rule NewTxFromBytes_Serialize) (simp_all add: sample_tx_wf)

end
