(* ===== verification/Json.thy ===== *)
theory Json
  imports Prelude
begin

text \<open>
  What the sources use of the packages \<^verbatim>\<open>reflect\<close> and \<^verbatim>\<open>encoding/json\<close>: Go types with the struct tags,
  dynamically typed values, \<^verbatim>\<open>json.Marshal\<close> and \<^verbatim>\<open>json.Unmarshal\<close>. A JSON document is its syntax tree,
  so text that is no JSON at all does not occur; an integer literal is its value and any other number
  literal is kept as written. A \<^verbatim>\<open>float64\<close> is the literal it came from or prints as. Struct values are
  decoded into by field name, first exactly and then ignoring case, as the package does.
\<close>

section \<open>Documents, types and values\<close>

datatype json =
    JNull
  | JBool bool
  | JInt int
  | JFloat string
  | JString string
  | JArray "json list"
  | JObject "(string \<times> json) list"

text \<open>
  \<open>TInt 0\<close> and \<open>TUint 0\<close> are the types \<^verbatim>\<open>int\<close> and \<^verbatim>\<open>uint\<close>. A field has its name, whether it is embedded,
  its package path (empty for an exported field), its type, its name in JSON, whether it carries
  \<^verbatim>\<open>omitempty\<close>, and its \<^verbatim>\<open>jsonrpcdefault\<close> tag.
\<close>

datatype gotype =
    TBool
  | TInt nat
  | TUint nat
  | TFloat nat
  | TComplex nat
  | TString
  | TChan gotype
  | TFunc
  | TInterface
  | TPtr gotype
  | TSlice gotype
  | TStruct string "gofield list"
and gofield =
    GoField (fname: string) (fanonymous: bool) (fpkgpath: string) (ftype: gotype)
      (fjson: string) (fomitempty: bool) (fdefault: "json option")

text \<open>\<open>VSlice None\<close> is the nil slice, \<open>VPtr None\<close> the nil pointer and \<open>VAny None\<close> the nil interface.\<close>

datatype goval =
    VBool bool
  | VInt int
  | VFloat string
  | VString string
  | VPtr "goval option"
  | VSlice "goval list option"
  | VStruct "goval list"
  | VAny "(gotype \<times> goval) option"
  | VOther

type_synonym iface = "(gotype \<times> goval) option"

datatype jerror =
    UnmarshalTypeError string gotype
  | UnsupportedTypeError gotype

datatype Kind =
    K_Bool | K_Int nat | K_Uint nat | K_Float nat | K_Complex nat | K_String | K_Chan | K_Func
  | K_Interface | K_Ptr | K_Slice | K_Struct

primrec Kind_of :: "gotype \<Rightarrow> Kind" where
  "Kind_of TBool = K_Bool"
| "Kind_of (TInt n) = K_Int n"
| "Kind_of (TUint n) = K_Uint n"
| "Kind_of (TFloat n) = K_Float n"
| "Kind_of (TComplex n) = K_Complex n"
| "Kind_of TString = K_String"
| "Kind_of (TChan t) = K_Chan"
| "Kind_of TFunc = K_Func"
| "Kind_of TInterface = K_Interface"
| "Kind_of (TPtr t) = K_Ptr"
| "Kind_of (TSlice t) = K_Slice"
| "Kind_of (TStruct n fs) = K_Struct"

definition bits_String :: "nat \<Rightarrow> string" where
  "bits_String n = (if n = 0 then [] else fmt_d (int n))"

primrec Kind_String :: "Kind \<Rightarrow> string" where
  "Kind_String K_Bool = ''bool''"
| "Kind_String (K_Int n) = ''int'' @ bits_String n"
| "Kind_String (K_Uint n) = ''uint'' @ bits_String n"
| "Kind_String (K_Float n) = ''float'' @ bits_String n"
| "Kind_String (K_Complex n) = ''complex'' @ bits_String n"
| "Kind_String K_String = ''string''"
| "Kind_String K_Chan = ''chan''"
| "Kind_String K_Func = ''func''"
| "Kind_String K_Interface = ''interface''"
| "Kind_String K_Ptr = ''ptr''"
| "Kind_String K_Slice = ''slice''"
| "Kind_String K_Struct = ''struct''"

primrec Type_String :: "gotype \<Rightarrow> string" where
  "Type_String TBool = ''bool''"
| "Type_String (TInt n) = ''int'' @ bits_String n"
| "Type_String (TUint n) = ''uint'' @ bits_String n"
| "Type_String (TFloat n) = ''float'' @ bits_String n"
| "Type_String (TComplex n) = ''complex'' @ bits_String n"
| "Type_String TString = ''string''"
| "Type_String (TChan t) = ''chan '' @ Type_String t"
| "Type_String TFunc = ''func()''"
| "Type_String TInterface = ''interface {}''"
| "Type_String (TPtr t) = ''*'' @ Type_String t"
| "Type_String (TSlice t) = ''[]'' @ Type_String t"
| "Type_String (TStruct n fs) = n"

fun Elem :: "gotype \<Rightarrow> gotype" where
  "Elem (TPtr t) = t"
| "Elem (TSlice t) = t"
| "Elem (TChan t) = t"
| "Elem t = t"

primrec zero :: "gotype \<Rightarrow> goval" and zero_field :: "gofield \<Rightarrow> goval" where
  "zero TBool = VBool False"
| "zero (TInt n) = VInt 0"
| "zero (TUint n) = VInt 0"
| "zero (TFloat n) = VFloat ''0''"
| "zero (TComplex n) = VOther"
| "zero TString = VString []"
| "zero (TChan t) = VOther"
| "zero TFunc = VOther"
| "zero TInterface = VAny None"
| "zero (TPtr t) = VPtr None"
| "zero (TSlice t) = VSlice None"
| "zero (TStruct n fs) = VStruct (map zero_field fs)"
| "zero_field (GoField n a p t j om d) = zero t"

lemma zero_field_ftype: "zero_field f = zero (ftype f)"
  by (cases f) simp

text \<open>The compact text of a document.\<close>

fun sep_by :: "string \<Rightarrow> string list \<Rightarrow> string" where
  "sep_by s [] = []"
| "sep_by s [x] = x"
| "sep_by s (x # xs) = x @ s @ sep_by s xs"

fun json_String :: "json \<Rightarrow> string" where
  "json_String JNull = ''null''"
| "json_String (JBool b) = (if b then ''true'' else ''false'')"
| "json_String (JInt i) = fmt_d i"
| "json_String (JFloat l) = l"
| "json_String (JString s) = fmt_q s"
| "json_String (JArray js) = ''['' @ sep_by '','' (map json_String js) @ '']''"
| "json_String (JObject kvs) =
     ''{'' @ sep_by '','' (map (\<lambda>(k, j). fmt_q k @ '':'' @ json_String j) kvs) @ ''}''"

section \<open>Marshalling\<close>

text \<open>\<^verbatim>\<open>omitempty\<close> leaves out false, 0, a nil pointer or interface, and an empty slice or string.\<close>

fun isEmptyValue :: "goval \<Rightarrow> bool" where
  "isEmptyValue (VBool b) = (\<not> b)"
| "isEmptyValue (VInt i) = (i = 0)"
| "isEmptyValue (VFloat s) = (s = ''0'')"
| "isEmptyValue (VString s) = (s = [])"
| "isEmptyValue (VPtr p) = (p = None)"
| "isEmptyValue (VSlice None) = True"
| "isEmptyValue (VSlice (Some vs)) = (vs = [])"
| "isEmptyValue (VAny a) = (a = None)"
| "isEmptyValue _ = False"

fun json_Marshal :: "gotype \<Rightarrow> goval \<Rightarrow> jerror + json"
  and marshal_elems :: "gotype \<Rightarrow> goval list \<Rightarrow> jerror + json list"
  and marshal_fields :: "gofield list \<Rightarrow> goval list \<Rightarrow> jerror + (string \<times> json) list" where
  "json_Marshal t (VBool b) = (if t = TBool then Inr (JBool b) else Inl (UnsupportedTypeError t))"
| "json_Marshal t (VInt i) =
     (case t of TInt n \<Rightarrow> Inr (JInt i) | TUint n \<Rightarrow> Inr (JInt i) | _ \<Rightarrow> Inl (UnsupportedTypeError t))"
| "json_Marshal t (VFloat s) = (case t of TFloat n \<Rightarrow> Inr (JFloat s) | _ \<Rightarrow> Inl (UnsupportedTypeError t))"
| "json_Marshal t (VString s) = (if t = TString then Inr (JString s) else Inl (UnsupportedTypeError t))"
| "json_Marshal t (VPtr None) = Inr JNull"
| "json_Marshal t (VPtr (Some v)) = json_Marshal (Elem t) v"
| "json_Marshal t (VSlice None) = Inr JNull"
| "json_Marshal t (VSlice (Some vs)) = bindR (marshal_elems (Elem t) vs) (\<lambda>js. Inr (JArray js))"
| "json_Marshal t (VStruct vs) =
     (case t of
        TStruct n fs \<Rightarrow> bindR (marshal_fields fs vs) (\<lambda>kvs. Inr (JObject kvs))
      | _ \<Rightarrow> Inl (UnsupportedTypeError t))"
| "json_Marshal t (VAny None) = Inr JNull"
| "json_Marshal t (VAny (Some (t', v))) = json_Marshal t' v"
| "json_Marshal t VOther = Inl (UnsupportedTypeError t)"
| "marshal_elems t [] = Inr []"
| "marshal_elems t (v # vs) =
     bindR (json_Marshal t v) (\<lambda>j. bindR (marshal_elems t vs) (\<lambda>js. Inr (j # js)))"
| "marshal_fields fs [] = Inr []"
| "marshal_fields fs (v # vs) =
     (case fs of
        [] \<Rightarrow> Inr []
      | f # fs \<Rightarrow>
          if fomitempty f \<and> isEmptyValue v then marshal_fields fs vs
          else bindR (json_Marshal (ftype f) v) (\<lambda>j.
                 bindR (marshal_fields fs vs) (\<lambda>kvs. Inr ((fjson f, j) # kvs))))"

section \<open>Unmarshalling\<close>

primrec json_kind :: "json \<Rightarrow> string" where
  "json_kind JNull = ''null''"
| "json_kind (JBool b) = ''bool''"
| "json_kind (JInt i) = ''number''"
| "json_kind (JFloat l) = ''number''"
| "json_kind (JString s) = ''string''"
| "json_kind (JArray js) = ''array''"
| "json_kind (JObject kvs) = ''object''"

text \<open>The widths \<^verbatim>\<open>int\<close> and \<^verbatim>\<open>uint\<close> have are those of a 64-bit platform.\<close>

definition int_bits :: "nat \<Rightarrow> nat" where
  "int_bits n = (if n = 0 then 64 else n)"

definition in_int :: "nat \<Rightarrow> int \<Rightarrow> bool" where
  "in_int n i \<longleftrightarrow> - (2 ^ (int_bits n - 1)) \<le> i \<and> i < 2 ^ (int_bits n - 1)"

definition in_uint :: "nat \<Rightarrow> int \<Rightarrow> bool" where
  "in_uint n i \<longleftrightarrow> 0 \<le> i \<and> i < 2 ^ int_bits n"

definition to_lower :: "string \<Rightarrow> string" where
  "to_lower s = map (\<lambda>c. if CHR ''A'' \<le> c \<and> c \<le> CHR ''Z'' then char_of (of_char c + (32 :: nat)) else c) s"

fun first_index :: "('a \<Rightarrow> bool) \<Rightarrow> 'a list \<Rightarrow> nat option" where
  "first_index P [] = None"
| "first_index P (x # xs) = (if P x then Some 0 else map_option Suc (first_index P xs))"

definition field_index :: "gofield list \<Rightarrow> string \<Rightarrow> nat option" where
  "field_index fs k =
     (case first_index (\<lambda>f. fjson f = k) fs of
        Some i \<Rightarrow> Some i
      | None \<Rightarrow> first_index (\<lambda>f. to_lower (fjson f) = to_lower k) fs)"

text \<open>Decoding into an empty interface gives \<^verbatim>\<open>float64\<close>, \<^verbatim>\<open>string\<close>, \<^verbatim>\<open>bool\<close>, a slice or a map.\<close>

fun iface_of :: "json \<Rightarrow> iface" where
  "iface_of JNull = None"
| "iface_of (JBool b) = Some (TBool, VBool b)"
| "iface_of (JInt i) = Some (TFloat 64, VFloat (fmt_d i))"
| "iface_of (JFloat l) = Some (TFloat 64, VFloat l)"
| "iface_of (JString s) = Some (TString, VString s)"
| "iface_of (JArray js) = Some (TSlice TInterface, VSlice (Some (map (\<lambda>j. VAny (iface_of j)) js)))"
| "iface_of (JObject kvs) = Some (TStruct ''map[string]interface {}'' [], VOther)"

function json_Unmarshal :: "gotype \<Rightarrow> json \<Rightarrow> goval \<Rightarrow> jerror + goval"
  and unmarshal_elems :: "gotype \<Rightarrow> json list \<Rightarrow> jerror + goval list"
  and unmarshal_fields :: "gofield list \<Rightarrow> (string \<times> json) list \<Rightarrow> goval list \<Rightarrow> jerror + goval list" where
  "json_Unmarshal t j old =
     (case t of
        TInterface \<Rightarrow> Inr (VAny (iface_of j))
      | TPtr t' \<Rightarrow>
          if j = JNull then Inr (VPtr None)
          else bindR (json_Unmarshal t' j (case old of VPtr (Some v) \<Rightarrow> v | _ \<Rightarrow> zero t'))
                 (\<lambda>v. Inr (VPtr (Some v)))
      | TSlice t' \<Rightarrow>
          (case j of
             JNull \<Rightarrow> Inr (VSlice None)
           | JArray js \<Rightarrow> bindR (unmarshal_elems t' js) (\<lambda>vs. Inr (VSlice (Some vs)))
           | _ \<Rightarrow> Inl (UnmarshalTypeError (json_kind j) t))
      | TStruct n fs \<Rightarrow>
          (case j of
             JNull \<Rightarrow> Inr old
           | JObject kvs \<Rightarrow>
               bindR (unmarshal_fields fs kvs (case old of VStruct vs \<Rightarrow> vs | _ \<Rightarrow> map zero_field fs))
                 (\<lambda>vs. Inr (VStruct vs))
           | _ \<Rightarrow> Inl (UnmarshalTypeError (json_kind j) t))
      | TBool \<Rightarrow>
          (case j of
             JNull \<Rightarrow> Inr old
           | JBool b \<Rightarrow> Inr (VBool b)
           | _ \<Rightarrow> Inl (UnmarshalTypeError (json_kind j) t))
      | TInt n \<Rightarrow>
          (case j of
             JNull \<Rightarrow> Inr old
           | JInt i \<Rightarrow> if in_int n i then Inr (VInt i) else Inl (UnmarshalTypeError (''number '' @ fmt_d i) t)
           | JFloat l \<Rightarrow> Inl (UnmarshalTypeError (''number '' @ l) t)
           | _ \<Rightarrow> Inl (UnmarshalTypeError (json_kind j) t))
      | TUint n \<Rightarrow>
          (case j of
             JNull \<Rightarrow> Inr old
           | JInt i \<Rightarrow> if in_uint n i then Inr (VInt i) else Inl (UnmarshalTypeError (''number '' @ fmt_d i) t)
           | JFloat l \<Rightarrow> Inl (UnmarshalTypeError (''number '' @ l) t)
           | _ \<Rightarrow> Inl (UnmarshalTypeError (json_kind j) t))
      | TFloat n \<Rightarrow>
          (case j of
             JNull \<Rightarrow> Inr old
           | JInt i \<Rightarrow> Inr (VFloat (fmt_d i))
           | JFloat l \<Rightarrow> Inr (VFloat l)
           | _ \<Rightarrow> Inl (UnmarshalTypeError (json_kind j) t))
      | TString \<Rightarrow>
          (case j of
             JNull \<Rightarrow> Inr old
           | JString s \<Rightarrow> Inr (VString s)
           | _ \<Rightarrow> Inl (UnmarshalTypeError (json_kind j) t))
      | _ \<Rightarrow> if j = JNull then Inr old else Inl (UnmarshalTypeError (json_kind j) t))"
| "unmarshal_elems t [] = Inr []"
| "unmarshal_elems t (j # js) =
     bindR (json_Unmarshal t j (zero t)) (\<lambda>v. bindR (unmarshal_elems t js) (\<lambda>vs. Inr (v # vs)))"
| "unmarshal_fields fs [] vs = Inr vs"
| "unmarshal_fields fs (kv # kvs) vs =
     (case field_index fs (fst kv) of
        None \<Rightarrow> unmarshal_fields fs kvs vs
      | Some i \<Rightarrow> bindR (json_Unmarshal (ftype (fs ! i)) (snd kv) (vs ! i)) (\<lambda>v.
                   unmarshal_fields fs kvs (vs[i := v])))"
  by pat_completeness auto
termination
  by (relation "inv_image (less_than <*lex*> less_than)
      (case_sum (\<lambda>(t, j, old). (size j, size t))
        (case_sum (\<lambda>(t, js). (size_list size js, 0)) (\<lambda>(fs, kvs, vs). (size_list (size_prod (\<lambda>_. 0) size) kvs, 0))))")
    auto

declare json_Unmarshal.simps [simp del]

section \<open>What survives the round trip\<close>

text \<open>
  \<open>round_trips t v\<close>: \<open>v\<close> is a value of type \<open>t\<close>, with integers in range, without interfaces, with no
  pointer to something that prints as null (it would come back as the nil pointer), and with no
  non-nil empty slice in a field that is left out when empty.
\<close>

fun round_trips :: "gotype \<Rightarrow> goval \<Rightarrow> bool"
  and round_elems :: "gotype \<Rightarrow> goval list \<Rightarrow> bool"
  and round_fields :: "gofield list \<Rightarrow> goval list \<Rightarrow> bool" where
  "round_trips t (VBool b) = (t = TBool)"
| "round_trips t (VInt i) = (case t of TInt n \<Rightarrow> in_int n i | TUint n \<Rightarrow> in_uint n i | _ \<Rightarrow> False)"
| "round_trips t (VFloat s) = (case t of TFloat n \<Rightarrow> True | _ \<Rightarrow> False)"
| "round_trips t (VString s) = (t = TString)"
| "round_trips t (VPtr None) = (case t of TPtr t' \<Rightarrow> True | _ \<Rightarrow> False)"
| "round_trips t (VPtr (Some v)) =
     (case t of TPtr t' \<Rightarrow> round_trips t' v \<and> json_Marshal t' v \<noteq> Inr JNull | _ \<Rightarrow> False)"
| "round_trips t (VSlice None) = (case t of TSlice t' \<Rightarrow> True | _ \<Rightarrow> False)"
| "round_trips t (VSlice (Some vs)) = (case t of TSlice t' \<Rightarrow> round_elems t' vs | _ \<Rightarrow> False)"
| "round_trips t (VStruct vs) =
     (case t of TStruct n fs \<Rightarrow> distinct (map fjson fs) \<and> round_fields fs vs | _ \<Rightarrow> False)"
| "round_trips t (VAny a) = False"
| "round_trips t VOther = False"
| "round_elems t [] = True"
| "round_elems t (v # vs) = (round_trips t v \<and> round_elems t vs)"
| "round_fields fs [] = (fs = [])"
| "round_fields fs (v # vs) =
     (case fs of
        [] \<Rightarrow> False
      | f # fs \<Rightarrow>
          (if fomitempty f \<and> isEmptyValue v then v = zero (ftype f) else round_trips (ftype f) v) \<and>
          round_fields fs vs)"

lemma first_index_append:
  "\<forall>x \<in> set xs. \<not> P x \<Longrightarrow> P y \<Longrightarrow> first_index P (xs @ y # ys) = Some (length xs)"
  by (induction xs) auto

lemma field_index_distinct:
  assumes "distinct (map fjson (pre @ f # fs))"
  shows "field_index (pre @ f # fs) (fjson f) = Some (length pre)"
proof -
  have "fjson f \<notin> fjson ` set pre" using assms by simp
  then have "\<forall>x \<in> set pre. fjson x \<noteq> fjson f" by (metis image_eqI)
  then show ?thesis by (simp add: field_index_def first_index_append)
qed

text \<open>The equations of the decoder on scalar types and on null, which do not recurse.\<close>

lemmas unmarshal_scalar =
  json_Unmarshal.simps [of TBool] json_Unmarshal.simps [of "TInt n" for n]
  json_Unmarshal.simps [of "TUint n" for n] json_Unmarshal.simps [of "TFloat n" for n]
  json_Unmarshal.simps [of TString] json_Unmarshal.simps [of "TPtr t" JNull for t]
  json_Unmarshal.simps [of "TSlice t" JNull for t]

lemma marshal_round:
  shows "round_trips t v \<Longrightarrow> \<exists>j. json_Marshal t v = Inr j \<and> json_Unmarshal t j (zero t) = Inr v"
    and "round_elems t vs \<Longrightarrow> \<exists>js. marshal_elems t vs = Inr js \<and> unmarshal_elems t js = Inr vs"
    and "round_fields fs vs \<Longrightarrow> \<exists>kvs. marshal_fields fs vs = Inr kvs \<and>
      (\<forall>pre pvs. length pvs = length pre \<longrightarrow> distinct (map fjson (pre @ fs)) \<longrightarrow>
         unmarshal_fields (pre @ fs) kvs (pvs @ map zero_field fs) = Inr (pvs @ vs))"
proof (induction t v and t vs and fs vs rule: json_Marshal_marshal_elems_marshal_fields.induct)
  case (6 t v)
  then obtain t' where t: "t = TPtr t'" "round_trips t' v" "json_Marshal t' v \<noteq> Inr JNull"
    by (auto split: gotype.splits)
  then obtain j where "json_Marshal t' v = Inr j" "json_Unmarshal t' j (zero t') = Inr v"
    using 6 by auto
  with t show ?case by (auto simp: json_Unmarshal.simps [of "TPtr t'"])
next
  case (8 t vs)
  then obtain t' where t: "t = TSlice t'" "round_elems t' vs" by (auto split: gotype.splits)
  then obtain js where "marshal_elems t' vs = Inr js" "unmarshal_elems t' js = Inr vs" using 8 by auto
  with t show ?case by (auto simp: json_Unmarshal.simps [of "TSlice t'"])
next
  case (9 t vs)
  then obtain n fs where t: "t = TStruct n fs" "distinct (map fjson fs)" "round_fields fs vs"
    by (auto split: gotype.splits)
  then obtain kvs where "marshal_fields fs vs = Inr kvs" and
    "\<forall>pre pvs. length pvs = length pre \<longrightarrow> distinct (map fjson (pre @ fs)) \<longrightarrow>
       unmarshal_fields (pre @ fs) kvs (pvs @ map zero_field fs) = Inr (pvs @ vs)" using 9 by auto
  moreover from this(2) [rule_format, of "[]" "[]"] t have "unmarshal_fields fs kvs (map zero_field fs) = Inr vs"
    by simp
  ultimately show ?case using t by (auto simp: json_Unmarshal.simps [of "TStruct n fs"])
next
  case (16 fs v vs)
  then obtain f fs' where fs [simp]: "fs = f # fs'" and rest: "round_fields fs' vs"
    by (auto split: list.splits)
  show ?case
  proof (cases "fomitempty f \<and> isEmptyValue v")
    case True
    then obtain kvs where kvs: "marshal_fields fs' vs = Inr kvs"
      "\<forall>pre pvs. length pvs = length pre \<longrightarrow> distinct (map fjson (pre @ fs')) \<longrightarrow>
         unmarshal_fields (pre @ fs') kvs (pvs @ map zero_field fs') = Inr (pvs @ vs)"
      using "16.IH"(1) [OF fs True rest] by blast
    have v: "v = zero_field f" using "16.prems" True by (simp add: zero_field_ftype)
    have "unmarshal_fields (pre @ f # fs') kvs (pvs @ map zero_field (f # fs')) = Inr (pvs @ v # vs)"
      if "length pvs = length pre" "distinct (map fjson (pre @ f # fs'))" for pre pvs
      using kvs(2) [rule_format, of "pvs @ [v]" "pre @ [f]"] that v by simp
    with True kvs(1) show ?thesis by auto
  next
    case False
    then have "round_trips (ftype f) v" using "16.prems" by auto
    from "16.IH"(2) [OF fs False this]
    obtain j where j: "json_Marshal (ftype f) v = Inr j" "json_Unmarshal (ftype f) j (zero (ftype f)) = Inr v"
      by blast
    obtain kvs where kvs: "marshal_fields fs' vs = Inr kvs"
      "\<forall>pre pvs. length pvs = length pre \<longrightarrow> distinct (map fjson (pre @ fs')) \<longrightarrow>
         unmarshal_fields (pre @ fs') kvs (pvs @ map zero_field fs') = Inr (pvs @ vs)"
      using "16.IH"(3) [OF fs False j(1) rest] by blast
    have "unmarshal_fields (pre @ f # fs') ((fjson f, j) # kvs) (pvs @ map zero_field (f # fs')) = Inr (pvs @ v # vs)"
      if l: "length pvs = length pre" and d: "distinct (map fjson (pre @ f # fs'))" for pre pvs
    proof -
      have "(pre @ f # fs') ! length pre = f" by simp
      moreover have "(pvs @ map zero_field (f # fs')) ! length pre = zero (ftype f)"
        using l by (simp add: nth_append zero_field_ftype)
      moreover have "(pvs @ map zero_field (f # fs'))[length pre := v] = (pvs @ [v]) @ map zero_field fs'"
        using l by (simp add: list_update_append)
      ultimately show ?thesis
        using kvs(2) [rule_format, of "pvs @ [v]" "pre @ [f]"] l d j(2)
        by (simp add: field_index_distinct [OF d])
    qed
    with False j(1) kvs(1) show ?thesis by auto
  qed
qed (auto simp: unmarshal_scalar split: gotype.splits)

end
