(* ===== verification/Acbcjson.thy ===== *)
theory Acbcjson
  imports Json
begin

text \<open>
  Package acbcjson: error codes (\<^verbatim>\<open>error.go\<close>, \<^verbatim>\<open>jsonrpcerr.go\<close>), requests and responses (\<^verbatim>\<open>jsonrpc.go\<close>),
  the registry of commands (\<^verbatim>\<open>register.go\<close>, \<^verbatim>\<open>cmdinfo.go\<close>) and the conversion between typed commands and
  requests (\<^verbatim>\<open>cmdparse.go\<close>), with the commands and notifications of the package as types. The registry
  is a record threaded through \<^verbatim>\<open>RegisterCmd\<close>; the lock around it is not modelled.
\<close>

section \<open>Errors\<close>

type_synonym ErrorCode = int

definition ErrDuplicateMethod :: ErrorCode where "ErrDuplicateMethod = 0"
definition ErrInvalidUsageFlags :: ErrorCode where "ErrInvalidUsageFlags = 1"
definition ErrInvalidType :: ErrorCode where "ErrInvalidType = 2"
definition ErrEmbeddedType :: ErrorCode where "ErrEmbeddedType = 3"
definition ErrUnexportedField :: ErrorCode where "ErrUnexportedField = 4"
definition ErrUnsupportedFieldType :: ErrorCode where "ErrUnsupportedFieldType = 5"
definition ErrNonOptionalField :: ErrorCode where "ErrNonOptionalField = 6"
definition ErrNonOptionalDefault :: ErrorCode where "ErrNonOptionalDefault = 7"
definition ErrMismatchedDefault :: ErrorCode where "ErrMismatchedDefault = 8"
definition ErrUnregisteredMethod :: ErrorCode where "ErrUnregisteredMethod = 9"
definition ErrMissingDescription :: ErrorCode where "ErrMissingDescription = 10"
definition ErrNumParams :: ErrorCode where "ErrNumParams = 11"
definition numErrorCodes :: ErrorCode where "numErrorCodes = 12"

lemmas ErrorCode_defs =
  ErrDuplicateMethod_def ErrInvalidUsageFlags_def ErrInvalidType_def ErrEmbeddedType_def
  ErrUnexportedField_def ErrUnsupportedFieldType_def ErrNonOptionalField_def ErrNonOptionalDefault_def
  ErrMismatchedDefault_def ErrUnregisteredMethod_def ErrMissingDescription_def ErrNumParams_def

definition errorCodeStrings :: "(ErrorCode \<times> string) list" where
  "errorCodeStrings =
     [(ErrDuplicateMethod, ''ErrDuplicateMethod''), (ErrInvalidUsageFlags, ''ErrInvalidUsageFlags''),
      (ErrInvalidType, ''ErrInvalidType''), (ErrEmbeddedType, ''ErrEmbeddedType''),
      (ErrUnexportedField, ''ErrUnexportedField''), (ErrUnsupportedFieldType, ''ErrUnsupportedFieldType''),
      (ErrNonOptionalField, ''ErrNonOptionalField''), (ErrNonOptionalDefault, ''ErrNonOptionalDefault''),
      (ErrMismatchedDefault, ''ErrMismatchedDefault''), (ErrUnregisteredMethod, ''ErrUnregisteredMethod''),
      (ErrMissingDescription, ''ErrMissingDescription''), (ErrNumParams, ''ErrNumParams'')]"

definition ErrorCode_String :: "ErrorCode \<Rightarrow> string" where
  "ErrorCode_String e =
     (case map_of errorCodeStrings e of
        Some s \<Rightarrow> if s \<noteq> [] then s else ''Unknown ErrorCode ('' @ fmt_d e @ '')''
      | None \<Rightarrow> ''Unknown ErrorCode ('' @ fmt_d e @ '')'')"

text \<open>An error of the package, or one that \<^verbatim>\<open>encoding/json\<close> returned.\<close>

datatype cmderr = Error (errCode: ErrorCode) (errDescription: string) | JsonErr jerror

type_synonym 'a jresult = "cmderr + 'a"

definition Error_Error :: "ErrorCode \<Rightarrow> string \<Rightarrow> string" where
  "Error_Error c desc = desc"

definition makeError :: "ErrorCode \<Rightarrow> string \<Rightarrow> cmderr" where
  "makeError c desc = Error c desc"

section \<open>Requests and responses\<close>

type_synonym RPCVersion = string

definition RpcVersion1 :: RPCVersion where "RpcVersion1 = ''1.0''"
definition RpcVersion2 :: RPCVersion where "RpcVersion2 = ''2.0''"
definition validRpcVersions :: "RPCVersion list" where "validRpcVersions = [RpcVersion1, RpcVersion2]"

fun version_in :: "RPCVersion \<Rightarrow> RPCVersion list \<Rightarrow> bool" where
  "version_in r [] = False"
| "version_in r (version # vs) = (if version = r then True else version_in r vs)"

definition RPCVersion_IsValid :: "RPCVersion \<Rightarrow> bool" where
  "RPCVersion_IsValid r = version_in r validRpcVersions"

record RPCError =
  Code :: int
  Message :: string

definition RPCError_Error :: "RPCError \<Rightarrow> string" where
  "RPCError_Error e = fmt_d (Code e) @ '': '' @ Message e"

definition NewRPCError :: "int \<Rightarrow> string \<Rightarrow> RPCError" where
  "NewRPCError code message = \<lparr>Code = code, Message = message\<rparr>"

definition ErrRPCOutOfRange :: int where "ErrRPCOutOfRange = - 1"
definition ErrRPCInvalidRequest :: RPCError where
  "ErrRPCInvalidRequest = \<lparr>Code = - 32600, Message = ''Invalid request''\<rparr>"
definition ErrRPCMethodNotFound :: RPCError where
  "ErrRPCMethodNotFound = \<lparr>Code = - 32601, Message = ''Method not found''\<rparr>"
definition ErrRPCInvalidParams :: RPCError where
  "ErrRPCInvalidParams = \<lparr>Code = - 32602, Message = ''Invalid parameters''\<rparr>"
definition ErrRPCInternal :: RPCError where
  "ErrRPCInternal = \<lparr>Code = - 32603, Message = ''Internal error''\<rparr>"
definition ErrRPCParse :: RPCError where
  "ErrRPCParse = \<lparr>Code = - 32700, Message = ''Parse error''\<rparr>"
definition ErrRPCNoWallet :: int where "ErrRPCNoWallet = - 1"
definition ErrRPCUnimplemented :: int where "ErrRPCUnimplemented = - 1"

fun IsValidIDType :: "iface \<Rightarrow> bool" where
  "IsValidIDType None = True"
| "IsValidIDType (Some (TInt _, _)) = True"
| "IsValidIDType (Some (TUint _, _)) = True"
| "IsValidIDType (Some (TFloat _, _)) = True"
| "IsValidIDType (Some (TString, _)) = True"
| "IsValidIDType (Some _) = False"

definition fmt_T :: "iface \<Rightarrow> string" where
  "fmt_T a = (case a of None \<Rightarrow> ''<nil>'' | Some (t, _) \<Rightarrow> Type_String t)"

record Request =
  req_Jsonrpc :: RPCVersion
  req_Method :: string
  req_Params :: "json list option"
  req_ID :: iface

record Response =
  resp_Jsonrpc :: RPCVersion
  resp_Result :: json
  resp_Error :: "RPCError option"
  resp_ID :: "iface option"

definition json_Marshal_iface :: "iface \<Rightarrow> json jresult" where
  "json_Marshal_iface a =
     (case json_Marshal TInterface (VAny a) of Inl e \<Rightarrow> Inl (JsonErr e) | Inr j \<Rightarrow> Inr j)"

primrec marshal_params :: "iface list \<Rightarrow> json list jresult" where
  "marshal_params [] = Inr []"
| "marshal_params (param # ps) =
     bindR (json_Marshal_iface param) (\<lambda>j. bindR (marshal_params ps) (\<lambda>js. Inr (j # js)))"

definition NewRequest :: "RPCVersion \<Rightarrow> iface \<Rightarrow> string \<Rightarrow> iface list \<Rightarrow> Request jresult" where
  "NewRequest rpcVersion id1 method params =
     (if \<not> RPCVersion_IsValid rpcVersion
      then Inl (makeError ErrInvalidType (''rpcversion '' @ [CHR 0x27] @ rpcVersion @ [CHR 0x27] @ '' is invalid''))
      else if \<not> IsValidIDType id1
      then Inl (makeError ErrInvalidType (''the id of type '' @ [CHR 0x27] @ fmt_T id1 @ [CHR 0x27] @ '' is invalid''))
      else bindR (marshal_params params) (\<lambda>rawParams.
        Inr \<lparr>req_Jsonrpc = rpcVersion, req_Method = method, req_Params = Some rawParams, req_ID = id1\<rparr>))"

text \<open>\<open>None\<close> is the nil slice, whose length is 0.\<close>

definition params_of :: "Request \<Rightarrow> json list" where
  "params_of r = (case req_Params r of None \<Rightarrow> [] | Some js \<Rightarrow> js)"

text \<open>The JSON of a request and of a response, in the order of the struct fields.\<close>

definition Request_json :: "Request \<Rightarrow> json jresult" where
  "Request_json r =
     bindR (json_Marshal_iface (req_ID r)) (\<lambda>i.
       Inr (JObject [(''jsonrpc'', JString (req_Jsonrpc r)), (''method'', JString (req_Method r)),
                     (''params'', case req_Params r of None \<Rightarrow> JNull | Some js \<Rightarrow> JArray js), (''id'', i)]))"

definition RPCError_json :: "RPCError option \<Rightarrow> json" where
  "RPCError_json e =
     (case e of
        None \<Rightarrow> JNull
      | Some e \<Rightarrow> JObject ((if Code e = 0 then [] else [(''code'', JInt (Code e))]) @
                           (if Message e = [] then [] else [(''message'', JString (Message e))])))"

definition Response_json :: "Response \<Rightarrow> json jresult" where
  "Response_json r =
     bindR (case resp_ID r of None \<Rightarrow> Inr JNull | Some a \<Rightarrow> json_Marshal_iface a) (\<lambda>i.
       Inr (JObject [(''jsonrpc'', JString (resp_Jsonrpc r)), (''result'', resp_Result r),
                     (''error'', RPCError_json (resp_Error r)), (''id'', i)]))"

definition NewResponse :: "RPCVersion \<Rightarrow> iface \<Rightarrow> json \<Rightarrow> RPCError option \<Rightarrow> Response jresult" where
  "NewResponse rpcVersion id1 marshalledResult rpcErr =
     (if \<not> RPCVersion_IsValid rpcVersion
      then Inl (makeError ErrInvalidType (''rpcversion '' @ [CHR 0x27] @ rpcVersion @ [CHR 0x27] @ '' is invalid''))
      else if \<not> IsValidIDType id1
      then Inl (makeError ErrInvalidType (''the id of type '' @ [CHR 0x27] @ fmt_T id1 @ [CHR 0x27] @ '' is invalid''))
      else Inr \<lparr>resp_Jsonrpc = rpcVersion, resp_Result = marshalledResult, resp_Error = rpcErr,
                resp_ID = Some id1\<rparr>)"

definition MarshalResponse :: "RPCVersion \<Rightarrow> iface \<Rightarrow> iface \<Rightarrow> RPCError option \<Rightarrow> json jresult" where
  "MarshalResponse rpcVersion id1 result rpcErr =
     (if \<not> RPCVersion_IsValid rpcVersion
      then Inl (makeError ErrInvalidType (''rpcversion '' @ [CHR 0x27] @ rpcVersion @ [CHR 0x27] @ '' is invalid''))
      else bindR (json_Marshal_iface result) (\<lambda>marshalledResult.
        bindR (NewResponse rpcVersion id1 marshalledResult rpcErr) Response_json))"

section \<open>The registry of commands\<close>

type_synonym UsageFlag = uint32

definition UFWalletOnly :: UsageFlag where "UFWalletOnly = 1"
definition UFWebsocketOnly :: UsageFlag where "UFWebsocketOnly = 2"
definition UFNotification :: UsageFlag where "UFNotification = 4"
definition highestUsageFlagBit :: UsageFlag where "highestUsageFlagBit = 8"

record methodInfo =
  maxParams :: nat
  numReqParams :: nat
  numOptParams :: nat
  defaults :: "nat \<rightharpoonup> goval"
  flags :: UsageFlag
  usage :: string

record registry =
  methodToConcreteType :: "string \<rightharpoonup> gotype"
  methodToInfo :: "string \<rightharpoonup> methodInfo"
  concreteTypeToMethod :: "gotype \<rightharpoonup> string"

definition empty_registry :: registry where
  "empty_registry =
     \<lparr>methodToConcreteType = Map.empty, methodToInfo = Map.empty, concreteTypeToMethod = Map.empty\<rparr>"

fun strip_ptrs :: "gotype \<Rightarrow> nat \<times> gotype" where
  "strip_ptrs (TPtr t) = (case strip_ptrs t of (n, u) \<Rightarrow> (Suc n, u))"
| "strip_ptrs t = (0, t)"

definition baseKindString :: "gotype \<Rightarrow> string" where
  "baseKindString rt =
     (let (numIndirects, rt) = strip_ptrs rt
      in replicate numIndirects (CHR ''*'') @ Kind_String (Kind_of rt))"

definition isAcceptableKind :: "Kind \<Rightarrow> bool" where
  "isAcceptableKind kind =
     (case kind of
        K_Chan \<Rightarrow> False
      | K_Complex _ \<Rightarrow> False
      | K_Func \<Rightarrow> False
      | K_Ptr \<Rightarrow> False
      | K_Interface \<Rightarrow> False
      | _ \<Rightarrow> True)"

text \<open>One field of the struct: its kind, whether it is optional, and its default.\<close>

definition check_field_kind :: "gofield \<Rightarrow> bool jresult" where
  "check_field_kind rtf =
     (let isOptional = (Kind_of (ftype rtf) = K_Ptr);
          kind = (if isOptional then Kind_of (Elem (ftype rtf)) else Kind_of (ftype rtf))
      in if \<not> isAcceptableKind kind
         then Inl (makeError ErrUnsupportedFieldType
                (''unsupported field type '' @ [CHR 0x27] @ Type_String (ftype rtf) @ '' ('' @
                 baseKindString (ftype rtf) @ '')'' @ [CHR 0x27] @ '' (field name '' @ fmt_q (fname rtf) @ '')''))
         else Inr isOptional)"

definition check_field_default ::
  "gofield \<Rightarrow> bool \<Rightarrow> nat \<Rightarrow> (nat \<rightharpoonup> goval) \<Rightarrow> (nat \<rightharpoonup> goval) jresult" where
  "check_field_default rtf isOptional i defs =
     (case fdefault rtf of
        None \<Rightarrow> Inr defs
      | Some tag \<Rightarrow>
          if \<not> isOptional
          then Inl (makeError ErrNonOptionalDefault
                 (''required fields must not have a default specified (field name '' @ fmt_q (fname rtf) @ '')''))
          else
            case json_Unmarshal (Elem (ftype rtf)) tag (zero (Elem (ftype rtf))) of
              Inl err \<Rightarrow> Inl (makeError ErrMismatchedDefault
                (''default value of '' @ fmt_q (json_String tag) @ '' is the wrong type (field name '' @
                 fmt_q (fname rtf) @ '')''))
            | Inr v \<Rightarrow> Inr (defs(i \<mapsto> VPtr (Some v))))"

fun register_fields ::
  "nat \<Rightarrow> gofield list \<Rightarrow> nat \<Rightarrow> (nat \<rightharpoonup> goval) \<Rightarrow> (nat \<times> (nat \<rightharpoonup> goval)) jresult" where
  "register_fields i [] numOptFields defs = Inr (numOptFields, defs)"
| "register_fields i (rtf # fs) numOptFields defs =
     (if fanonymous rtf
      then Inl (makeError ErrEmbeddedType
             (''embedded fields are not supported (field name: '' @ fmt_q (fname rtf) @ '')''))
      else if fpkgpath rtf \<noteq> []
      then Inl (makeError ErrUnexportedField
             (''unexported fields are not supported (field name: '' @ fmt_q (fname rtf) @ '')''))
      else bindR (check_field_kind rtf) (\<lambda>isOptional.
        if \<not> isOptional \<and> numOptFields > 0
        then Inl (makeError ErrNonOptionalField
               (''all fields after the first optional field must also be optional (field name '' @
                fmt_q (fname rtf) @ '')''))
        else bindR (check_field_default rtf isOptional i defs) (\<lambda>defs.
          register_fields (Suc i) fs (if isOptional then Suc numOptFields else numOptFields) defs)))"

definition RegisterCmd :: "string \<Rightarrow> gotype \<Rightarrow> UsageFlag \<Rightarrow> registry \<Rightarrow> registry jresult" where
  "RegisterCmd method rtp fl reg =
     (if methodToConcreteType reg method \<noteq> None
      then Inl (makeError ErrDuplicateMethod (''method '' @ fmt_q method @ '' is already registered''))
      else if (NOT (highestUsageFlagBit - 1)) AND fl \<noteq> 0
      then Inl (makeError ErrInvalidUsageFlags
             (''invalid usage flags specified for method '' @ method @ '': '' @ fmt_d (uint fl)))
      else
        case rtp of
          TPtr rt \<Rightarrow>
            (case rt of
               TStruct name flds \<Rightarrow>
                 bindR (register_fields 0 flds 0 Map.empty) (\<lambda>(numOptFields, defs).
                   Inr (reg\<lparr>
                     methodToConcreteType := (methodToConcreteType reg)(method \<mapsto> rtp),
                     methodToInfo := (methodToInfo reg)(method \<mapsto>
                       \<lparr>maxParams = length flds, numReqParams = length flds - numOptFields,
                        numOptParams = numOptFields, defaults = defs, flags = fl, usage = []\<rparr>),
                     concreteTypeToMethod := (concreteTypeToMethod reg)(rtp \<mapsto> method)\<rparr>))
             | _ \<Rightarrow> Inl (makeError ErrInvalidType
                 (''type must be *struct not '' @ [CHR 0x27] @ Type_String rtp @ '' (*'' @
                  Kind_String (Kind_of rt) @ '')'' @ [CHR 0x27])))
        | _ \<Rightarrow> Inl (makeError ErrInvalidType
            (''type must be *struct not '' @ [CHR 0x27] @ Type_String rtp @ '' ('' @
             Kind_String (Kind_of rtp) @ '')'' @ [CHR 0x27])))"

text \<open>\<^verbatim>\<open>MustRegisterCmd\<close> panics on an error: \<open>None\<close>.\<close>

definition MustRegisterCmd :: "string \<Rightarrow> gotype \<Rightarrow> UsageFlag \<Rightarrow> registry \<Rightarrow> registry option" where
  "MustRegisterCmd method rtp fl reg = (case RegisterCmd method rtp fl reg of Inl e \<Rightarrow> None | Inr r \<Rightarrow> Some r)"

section \<open>Commands and requests\<close>

text \<open>A command is a pointer to a struct with its dynamic type; \<open>VPtr None\<close> is the nil command.\<close>

type_synonym cmd = "gotype \<times> goval"

definition CmdMethod :: "registry \<Rightarrow> cmd \<Rightarrow> string jresult" where
  "CmdMethod reg c =
     (case concreteTypeToMethod reg (fst c) of
        None \<Rightarrow> Inl (makeError ErrUnregisteredMethod (fmt_q [] @ '' is not registered''))
      | Some method \<Rightarrow> Inr method)"

text \<open>\<open>lastParam\<close> of the source is one less than \<open>n\<close> here: the number of parameters kept so far.\<close>

fun makeParams_loop :: "nat \<Rightarrow> gofield list \<Rightarrow> goval list \<Rightarrow> nat \<Rightarrow> iface list \<times> nat" where
  "makeParams_loop i (rtf # fs) (rvf # vs) n =
     (let n = (if Kind_of (ftype rtf) = K_Ptr \<and> rvf = VPtr None then n else Suc i);
          (params, n) = makeParams_loop (Suc i) fs vs n
      in (Some (ftype rtf, rvf) # params, n))"
| "makeParams_loop i _ _ n = ([], n)"

definition makeParams :: "gofield list \<Rightarrow> goval list \<Rightarrow> iface list" where
  "makeParams fs vs = (let (params, n) = makeParams_loop 0 fs vs 0 in take n params)"

definition MarshalCmd :: "registry \<Rightarrow> RPCVersion \<Rightarrow> iface \<Rightarrow> cmd \<Rightarrow> json jresult" where
  "MarshalCmd reg rpcVersion id1 c =
     (case concreteTypeToMethod reg (fst c) of
        None \<Rightarrow> Inl (makeError ErrUnregisteredMethod (fmt_q [] @ '' is not registered''))
      | Some method \<Rightarrow>
          (case c of
             (TPtr (TStruct name fs), VPtr (Some (VStruct vs))) \<Rightarrow>
               bindR (NewRequest rpcVersion id1 method (makeParams fs vs)) Request_json
           | _ \<Rightarrow> Inl (makeError ErrInvalidType ''the specified command is nil'')))"

definition checkNumParams :: "nat \<Rightarrow> methodInfo \<Rightarrow> cmderr option" where
  "checkNumParams numParams info =
     (if numParams < numReqParams info \<or> numParams > maxParams info then
        if numReqParams info = maxParams info
        then Some (makeError ErrNumParams
               (''wrong number of params (expected '' @ fmt_d (int (numReqParams info)) @ '', received '' @
                fmt_d (int numParams) @ '')''))
        else Some (makeError ErrNumParams
               (''wrong number of params (expected between '' @ fmt_d (int (numReqParams info)) @ '' and '' @
                fmt_d (int (maxParams info)) @ '', received '' @ fmt_d (int numParams) @ '')''))
      else None)"

definition populateDefaults :: "nat \<Rightarrow> methodInfo \<Rightarrow> goval list \<Rightarrow> goval list" where
  "populateDefaults numParams info rv =
     fold (\<lambda>i rv. case defaults info i of Some defaultVal \<Rightarrow> rv[i := defaultVal] | None \<Rightarrow> rv)
       [numParams..<maxParams info] rv"

definition jerror_Error :: "jerror \<Rightarrow> string" where
  "jerror_Error e =
     (case e of
        UnmarshalTypeError v t \<Rightarrow> ''json: cannot unmarshal '' @ v @ '' into Go value of type '' @ Type_String t
      | UnsupportedTypeError t \<Rightarrow> ''json: unsupported type: '' @ Type_String t)"

definition param_error :: "nat \<Rightarrow> gofield \<Rightarrow> jerror \<Rightarrow> cmderr" where
  "param_error i f err =
     (let fieldName = to_lower (fname f) in
      case err of
        UnmarshalTypeError v t \<Rightarrow>
          makeError ErrInvalidType
            (''parameter #'' @ fmt_d (int i + 1) @ '' '' @ [CHR 0x27] @ fieldName @ [CHR 0x27] @
             '' must be type '' @ Type_String t @ '' (got '' @ v @ '')'')
      | _ \<Rightarrow>
          makeError ErrInvalidType
            (''parameter #'' @ fmt_d (int i + 1) @ '' '' @ [CHR 0x27] @ fieldName @ [CHR 0x27] @
             '' failed to unmarshal: '' @ jerror_Error err))"

fun unmarshal_params :: "gofield list \<Rightarrow> nat \<Rightarrow> json list \<Rightarrow> goval list \<Rightarrow> goval list jresult" where
  "unmarshal_params fs i [] rv = Inr rv"
| "unmarshal_params fs i (p # ps) rv =
     (case json_Unmarshal (ftype (fs ! i)) p (rv ! i) of
        Inl err \<Rightarrow> Inl (param_error i (fs ! i) err)
      | Inr v \<Rightarrow> unmarshal_params fs (Suc i) ps (rv[i := v]))"

definition UnmarshalCmd :: "registry \<Rightarrow> Request \<Rightarrow> cmd jresult" where
  "UnmarshalCmd reg r =
     (case (methodToConcreteType reg (req_Method r), methodToInfo reg (req_Method r)) of
        (Some (TPtr (TStruct name fs)), Some info) \<Rightarrow>
          let rv = map zero_field fs; numParams = length (params_of r) in
          (case checkNumParams numParams info of
             Some err \<Rightarrow> Inl err
           | None \<Rightarrow>
               bindR (unmarshal_params fs 0 (params_of r) rv) (\<lambda>rv.
                 let rv = (if numParams < maxParams info then populateDefaults numParams info rv else rv)
                 in Inr (TPtr (TStruct name fs), VPtr (Some (VStruct rv)))))
      | _ \<Rightarrow> Inl (makeError ErrUnregisteredMethod (fmt_q (req_Method r) @ '' is not registered'')))"

section \<open>The registry invariant\<close>

text \<open>
  What \<^verbatim>\<open>RegisterCmd\<close> documents: a registered type is a pointer to a struct whose fields are exported,
  not embedded and of a supported kind, the required ones first; defaults belong to optional fields.
\<close>

definition is_optional :: "gofield \<Rightarrow> bool" where
  "is_optional f \<longleftrightarrow> Kind_of (ftype f) = K_Ptr"

definition field_ok :: "gofield \<Rightarrow> bool" where
  "field_ok f \<longleftrightarrow> \<not> fanonymous f \<and> fpkgpath f = [] \<and>
     isAcceptableKind (Kind_of (if is_optional f then Elem (ftype f) else ftype f)) \<and>
     (fdefault f \<noteq> None \<longrightarrow> is_optional f)"

definition info_ok :: "gofield list \<Rightarrow> methodInfo \<Rightarrow> bool" where
  "info_ok fs info \<longleftrightarrow>
     maxParams info = length fs \<and> numReqParams info + numOptParams info = maxParams info \<and>
     (\<forall>i < length fs. field_ok (fs ! i) \<and> (is_optional (fs ! i) \<longleftrightarrow> numReqParams info \<le> i)) \<and>
     (\<forall>i < length fs. (defaults info i \<noteq> None) = (fdefault (fs ! i) \<noteq> None)) \<and>
     (\<forall>i. defaults info i \<noteq> None \<longrightarrow> numReqParams info \<le> i \<and> i < length fs)"

definition reg_inv :: "registry \<Rightarrow> bool" where
  "reg_inv reg \<longleftrightarrow>
     (\<forall>m t. methodToConcreteType reg m = Some t \<longrightarrow>
        (\<exists>name fs info. t = TPtr (TStruct name fs) \<and> methodToInfo reg m = Some info \<and> info_ok fs info \<and>
           NOT (highestUsageFlagBit - 1) AND flags info = 0)) \<and>
     (\<forall>t m. concreteTypeToMethod reg t = Some m \<longrightarrow> methodToConcreteType reg m = Some t)"

lemma check_field_kind_Inr:
  "check_field_kind f = Inr b \<longleftrightarrow>
     b = is_optional f \<and> isAcceptableKind (Kind_of (if is_optional f then Elem (ftype f) else ftype f))"
  by (auto simp: check_field_kind_def is_optional_def Let_def)

lemma check_field_default_Inr:
  assumes "check_field_default f opt i defs = Inr defs'"
  shows "(fdefault f \<noteq> None \<longrightarrow> opt) \<and> (\<forall>j. j \<noteq> i \<longrightarrow> defs' j = defs j) \<and>
    (if fdefault f = None then defs' i = defs i else defs' i \<noteq> None)"
  using assms by (auto simp: check_field_default_def split: option.splits if_splits sum.splits)

text \<open>The loop over the fields: all fields from position \<open>i\<close> on are fine, the optional ones last.\<close>

lemma register_fields_Inr:
  assumes "register_fields i fs n defs = Inr (n', defs')" and "0 < n \<longrightarrow> n \<le> i"
  shows "n \<le> n' \<and> n' \<le> n + length fs \<and> (\<forall>f \<in> set fs. field_ok f) \<and>
    (\<forall>k < length fs. is_optional (fs ! k) \<longleftrightarrow> length fs + n \<le> k + n' \<or> 0 < n) \<and>
    (0 < n \<longrightarrow> n' = n + length fs) \<and>
    (\<forall>k < length fs. if fdefault (fs ! k) = None then defs' (i + k) = defs (i + k) else defs' (i + k) \<noteq> None) \<and>
    (\<forall>j. j < i \<or> i + length fs \<le> j \<longrightarrow> defs' j = defs j)"
  using assms
proof (induction i fs n defs arbitrary: n' defs' rule: register_fields.induct)
  case (2 i f fs n defs)
  define opt where "opt = is_optional f"
  have nof: "\<not> fanonymous f" "fpkgpath f = []" using "2.prems" by (auto split: if_splits)
  then obtain defs1 where kind: "check_field_kind f = Inr opt" and order: "opt \<or> n = 0"
    and d1: "check_field_default f opt i defs = Inr defs1"
    and rest: "register_fields (Suc i) fs (if opt then Suc n else n) defs1 = Inr (n', defs')"
    using "2.prems" by (auto simp: bindR_Inr_conv check_field_kind_Inr opt_def split: if_splits)
  have a: "\<not> fpkgpath f \<noteq> []" "\<not> (\<not> opt \<and> 0 < n)"
    "0 < (if opt then Suc n else n) \<longrightarrow> (if opt then Suc n else n) \<le> Suc i"
    using nof(2) order "2.prems"(2) by auto
  have IH: "(if opt then Suc n else n) \<le> n' \<and> n' \<le> (if opt then Suc n else n) + length fs \<and>
    (\<forall>f \<in> set fs. field_ok f) \<and>
    (\<forall>k < length fs. is_optional (fs ! k) \<longleftrightarrow> length fs + (if opt then Suc n else n) \<le> k + n' \<or>
       0 < (if opt then Suc n else n)) \<and>
    (0 < (if opt then Suc n else n) \<longrightarrow> n' = (if opt then Suc n else n) + length fs) \<and>
    (\<forall>k < length fs. if fdefault (fs ! k) = None then defs' (Suc i + k) = defs1 (Suc i + k)
       else defs' (Suc i + k) \<noteq> None) \<and>
    (\<forall>j. j < Suc i \<or> Suc i + length fs \<le> j \<longrightarrow> defs' j = defs1 j)"
    by (rule "2.IH" [OF nof(1) a(1) kind a(2) d1 rest a(3)])
  have fok: "field_ok f"
    using nof kind check_field_default_Inr [OF d1] by (auto simp: field_ok_def check_field_kind_Inr opt_def)
  have opts: "is_optional ((f # fs) ! k) \<longleftrightarrow> length (f # fs) + n \<le> k + n' \<or> 0 < n" if "k < length (f # fs)" for k
    using that IH order by (cases k) (auto simp: opt_def split: if_splits)
  have defk: "if fdefault ((f # fs) ! k) = None then defs' (i + k) = defs (i + k) else defs' (i + k) \<noteq> None"
    if "k < length (f # fs)" for k
    using that IH check_field_default_Inr [OF d1] by (cases k) (auto split: if_splits)
  have out: "defs' j = defs j" if "j < i \<or> i + length (f # fs) \<le> j" for j
    using that IH check_field_default_Inr [OF d1] by auto
  show ?case using IH fok opts defk out order by (auto split: if_splits)
qed auto

lemma RegisterCmd_Inr:
  assumes "RegisterCmd method rtp fl reg = Inr reg'"
  shows "\<exists>name fs info. rtp = TPtr (TStruct name fs) \<and> info_ok fs info \<and> flags info = fl \<and>
    methodToConcreteType reg method = None \<and> NOT (highestUsageFlagBit - 1) AND fl = 0 \<and>
    reg' = reg\<lparr>methodToConcreteType := (methodToConcreteType reg)(method \<mapsto> rtp),
      methodToInfo := (methodToInfo reg)(method \<mapsto> info),
      concreteTypeToMethod := (concreteTypeToMethod reg)(rtp \<mapsto> method)\<rparr>"
proof -
  obtain name fs n defs where rtp: "rtp = TPtr (TStruct name fs)"
    and new: "methodToConcreteType reg method = None" "NOT (highestUsageFlagBit - 1) AND fl = 0"
    and f: "register_fields 0 fs 0 Map.empty = Inr (n, defs)"
    and reg': "reg' = reg\<lparr>methodToConcreteType := (methodToConcreteType reg)(method \<mapsto> rtp),
      methodToInfo := (methodToInfo reg)(method \<mapsto> \<lparr>maxParams = length fs, numReqParams = length fs - n,
        numOptParams = n, defaults = defs, flags = fl, usage = []\<rparr>),
      concreteTypeToMethod := (concreteTypeToMethod reg)(rtp \<mapsto> method)\<rparr>"
    using assms
    by (auto simp: RegisterCmd_def bindR_Inr_conv split: if_splits gotype.splits)
  note F = register_fields_Inr [OF f, simplified]
  have "info_ok fs \<lparr>maxParams = length fs, numReqParams = length fs - n, numOptParams = n, defaults = defs,
      flags = fl, usage = []\<rparr>" (is "info_ok fs ?info")
  proof -
    have opt: "is_optional (fs ! i) \<longleftrightarrow> length fs - n \<le> i" if "i < length fs" for i using F that by auto
    have dflt: "(defs i \<noteq> None) = (fdefault (fs ! i) \<noteq> None)" if "i < length fs" for i
      using F that by (cases "fdefault (fs ! i)") auto
    have fok: "field_ok (fs ! i)" if "i < length fs" for i using F that by simp
    have "length fs - n \<le> i \<and> i < length fs" if "defs i \<noteq> None" for i
    proof -
      have "i < length fs" using F that by (metis linorder_not_le option.distinct(1))
      then show ?thesis using that dflt fok opt by (auto simp: field_ok_def)
    qed
    then show ?thesis using F opt dflt fok by (auto simp: info_ok_def)
  qed
  then show ?thesis using rtp new reg' by auto
qed

lemma RegisterCmd_inv:
  assumes "reg_inv reg" and "RegisterCmd method rtp fl reg = Inr reg'"
  shows "reg_inv reg'"
proof -
  obtain name fs info where r: "rtp = TPtr (TStruct name fs)" "info_ok fs info" "flags info = fl"
    "methodToConcreteType reg method = None" "NOT (highestUsageFlagBit - 1) AND fl = 0"
    "reg' = reg\<lparr>methodToConcreteType := (methodToConcreteType reg)(method \<mapsto> rtp),
      methodToInfo := (methodToInfo reg)(method \<mapsto> info),
      concreteTypeToMethod := (concreteTypeToMethod reg)(rtp \<mapsto> method)\<rparr>"
    using RegisterCmd_Inr [OF assms(2)] by blast
  have "concreteTypeToMethod reg t \<noteq> Some method" for t
    using assms(1) r(4) by (auto simp: reg_inv_def)
  then show ?thesis
    using assms(1) r by (auto simp: reg_inv_def)
qed

lemma reg_inv_empty: "reg_inv empty_registry"
  by (simp add: reg_inv_def empty_registry_def)

section \<open>Marshalling and unmarshalling a command\<close>

text \<open>The number of fields up to the last one that is not a nil pointer.\<close>

fun kept :: "goval list \<Rightarrow> nat" where
  "kept [] = 0"
| "kept (v # vs) = (if kept vs = 0 then if v = VPtr None then 0 else 1 else Suc (kept vs))"

lemma kept_le: "kept vs \<le> length vs"
  by (induction vs) auto

lemma kept_nil: "kept vs \<le> i \<Longrightarrow> i < length vs \<Longrightarrow> vs ! i = VPtr None"
  by (induction vs arbitrary: i) (auto simp: nth_Cons split: nat.splits if_splits)

lemma kept_nil_iff: "i < length vs \<Longrightarrow> (\<forall>j. i \<le> j \<and> j < length vs \<longrightarrow> vs ! j = VPtr None) \<longleftrightarrow> kept vs \<le> i"
proof
  assume "i < length vs" "\<forall>j. i \<le> j \<and> j < length vs \<longrightarrow> vs ! j = VPtr None"
  then show "kept vs \<le> i"
  proof (induction vs arbitrary: i)
    case (Cons v vs)
    show ?case
    proof (cases i)
      case 0
      then have "\<forall>j < length vs. vs ! j = VPtr None" "v = VPtr None" using Cons.prems by fastforce+
      moreover have "kept vs = 0" using Cons.IH [of 0] \<open>\<forall>j < length vs. _\<close> by (cases vs) auto
      ultimately show ?thesis by simp
    next
      case (Suc k)
      then have "kept vs \<le> k" using Cons.prems Cons.IH [of k] by fastforce
      then show ?thesis using Suc by auto
    qed
  qed simp
qed (simp add: kept_nil)

lemma makeParams_loop_eq:
  assumes "length vs = length fs" and "\<forall>i < length fs. vs ! i = VPtr None \<longrightarrow> is_optional (fs ! i)"
  shows "makeParams_loop i fs vs n =
    (map2 (\<lambda>f v. Some (ftype f, v)) fs vs, if kept vs = 0 then n else i + kept vs)"
  using assms
proof (induction fs arbitrary: vs i n)
  case (Cons f fs)
  then obtain v vs' where vs: "vs = v # vs'" by (cases vs) auto
  have "\<forall>i < length fs. vs' ! i = VPtr None \<longrightarrow> is_optional (fs ! i)" using Cons.prems vs by fastforce
  moreover have "v = VPtr None \<longrightarrow> is_optional f" using Cons.prems vs by fastforce
  ultimately show ?case using Cons.IH [of vs'] Cons.prems vs by (auto simp: Let_def is_optional_def)
qed simp

lemma makeParams_eq:
  assumes "length vs = length fs" and "\<forall>i < length fs. vs ! i = VPtr None \<longrightarrow> is_optional (fs ! i)"
  shows "makeParams fs vs = map2 (\<lambda>f v. Some (ftype f, v)) (take (kept vs) fs) (take (kept vs) vs)"
  by (simp add: makeParams_def makeParams_loop_eq [OF assms] take_map take_zip)

lemma marshal_params_round:
  assumes "length vs = length fs" and "\<forall>i < length fs. round_trips (ftype (fs ! i)) (vs ! i)"
  shows "\<exists>js. marshal_params (map2 (\<lambda>f v. Some (ftype f, v)) fs vs) = Inr js \<and> length js = length fs \<and>
    (\<forall>i < length fs. json_Unmarshal (ftype (fs ! i)) (js ! i) (zero (ftype (fs ! i))) = Inr (vs ! i))"
  using assms
proof (induction fs arbitrary: vs)
  case (Cons f fs)
  then obtain v vs' where vs: "vs = v # vs'" by (cases vs) auto
  have "\<forall>i < length fs. round_trips (ftype (fs ! i)) (vs' ! i)" using Cons.prems vs by fastforce
  then obtain js where js: "marshal_params (map2 (\<lambda>f v. Some (ftype f, v)) fs vs') = Inr js" "length js = length fs"
    "\<forall>i < length fs. json_Unmarshal (ftype (fs ! i)) (js ! i) (zero (ftype (fs ! i))) = Inr (vs' ! i)"
    using Cons.IH [of vs'] Cons.prems vs by auto
  have "round_trips (ftype f) v" using Cons.prems(2) vs by fastforce
  then obtain j where "json_Marshal (ftype f) v = Inr j" "json_Unmarshal (ftype f) j (zero (ftype f)) = Inr v"
    using marshal_round(1) by blast
  then show ?case using js vs
    by (auto simp: json_Marshal_iface_def nth_Cons split: nat.split)
qed simp

lemma unmarshal_params_Inr:
  assumes "i + length js \<le> length rv"
    and "\<forall>k < length js. json_Unmarshal (ftype (fs ! (i + k))) (js ! k) (rv ! (i + k)) = Inr (g (i + k))"
  shows "\<exists>rv'. unmarshal_params fs i js rv = Inr rv' \<and> length rv' = length rv \<and>
    (\<forall>k < length rv. rv' ! k = (if i \<le> k \<and> k < i + length js then g k else rv ! k))"
  using assms
proof (induction js arbitrary: i rv)
  case (Cons j js)
  have v: "json_Unmarshal (ftype (fs ! i)) j (rv ! i) = Inr (g i)" using Cons.prems(2) by force
  have "json_Unmarshal (ftype (fs ! (Suc i + k))) (js ! k) (rv[i := g i] ! (Suc i + k)) = Inr (g (Suc i + k))"
    if "k < length js" for k
    using Cons.prems(2) [rule_format, of "Suc k"] that by simp
  then obtain rv' where rv': "unmarshal_params fs (Suc i) js (rv[i := g i]) = Inr rv'" "length rv' = length rv"
    "\<forall>k < length rv. rv' ! k = (if Suc i \<le> k \<and> k < Suc i + length js then g k else rv[i := g i] ! k)"
    using Cons.IH [of "Suc i" "rv[i := g i]"] Cons.prems(1) by auto
  have "rv' ! k = (if i \<le> k \<and> k < i + length (j # js) then g k else rv ! k)" if "k < length rv" for k
    using rv'(3) [rule_format, OF that] that by (cases "k = i") auto
  then show ?case using v rv'(1,2) by simp
qed auto

lemma length_populateDefaults [simp]: "length (populateDefaults n info rv) = length rv"
proof -
  have "length (fold (\<lambda>i rv. case defaults info i of Some d \<Rightarrow> rv[i := d] | None \<Rightarrow> rv) is rv) = length rv" for "is"
    by (induction "is" arbitrary: rv) (auto split: option.split)
  then show ?thesis by (simp add: populateDefaults_def)
qed

lemma populateDefaults_nth:
  assumes "k < length rv"
  shows "length (populateDefaults n info rv) = length rv \<and>
    populateDefaults n info rv ! k =
      (if n \<le> k \<and> k < maxParams info then case defaults info k of Some d \<Rightarrow> d | None \<Rightarrow> rv ! k else rv ! k)"
proof -
  have "length (fold (\<lambda>i rv. case defaults info i of Some d \<Rightarrow> rv[i := d] | None \<Rightarrow> rv) is rv) = length rv \<and>
    fold (\<lambda>i rv. case defaults info i of Some d \<Rightarrow> rv[i := d] | None \<Rightarrow> rv) is rv ! k =
      (if k \<in> set is then case defaults info k of Some d \<Rightarrow> d | None \<Rightarrow> rv ! k else rv ! k)" for "is"
    using assms
  proof (induction "is" arbitrary: rv)
    case (Cons i "is")
    then show ?case by (cases "defaults info i"; cases "i = k") (auto split: option.split)
  qed simp
  then show ?thesis by (simp add: populateDefaults_def)
qed

text \<open>
  The command that arrives: a field that was cut off because it and everything behind it was nil has
  its registered default; every other field has the value that was sent.
\<close>

definition received :: "methodInfo \<Rightarrow> goval list \<Rightarrow> goval list" where
  "received info vs = map (\<lambda>i.
     if list_all (\<lambda>v. v = VPtr None) (drop i vs)
     then case defaults info i of Some d \<Rightarrow> d | None \<Rightarrow> vs ! i else vs ! i) [0..<length vs]"

lemma nil_tail_iff: "i < length vs \<Longrightarrow> list_all (\<lambda>v. v = VPtr None) (drop i vs) \<longleftrightarrow> kept vs \<le> i"
proof -
  have "list_all (\<lambda>v. v = VPtr None) (drop i vs) \<longleftrightarrow> (\<forall>j. i \<le> j \<and> j < length vs \<longrightarrow> vs ! j = VPtr None)"
    by (auto simp: list_all_length) (metis add_diff_inverse_nat diff_less_mono not_le)
  then show "i < length vs \<Longrightarrow> ?thesis" by (simp add: kept_nil_iff)
qed

lemma received_eq:
  assumes "length rv = length vs" and "\<forall>i < length vs. rv ! i = vs ! i" and "maxParams info = length vs"
  shows "(if kept vs < maxParams info then populateDefaults (kept vs) info rv else rv) = received info vs"
proof -
  let ?l = "if kept vs < maxParams info then populateDefaults (kept vs) info rv else rv"
  have len: "length ?l = length vs"
    using assms by simp
  have "?l ! i = received info vs ! i" if "i < length vs" for i
  proof -
    have "?l ! i = (if kept vs \<le> i then case defaults info i of Some d \<Rightarrow> d | None \<Rightarrow> vs ! i else vs ! i)"
      using that assms populateDefaults_nth [of i rv "kept vs" info] by (auto split: option.split)
    then show ?thesis using that by (cases "defaults info i") (simp_all add: received_def nil_tail_iff)
  qed
  then show ?thesis using len by (intro nth_equalityI) (auto simp: received_def)
qed

lemma UnmarshalCmd_MarshalCmd:
  assumes inv: "reg_inv reg" and m: "concreteTypeToMethod reg (TPtr (TStruct name fs)) = Some method"
    and ver: "RPCVersion_IsValid ver" and idt: "IsValidIDType id1" "json_Marshal_iface id1 = Inr jid"
    and len: "length vs = length fs" and rt: "\<forall>i < length fs. round_trips (ftype (fs ! i)) (vs ! i)"
  shows "\<exists>req j info. MarshalCmd reg ver id1 (TPtr (TStruct name fs), VPtr (Some (VStruct vs))) = Inr j \<and>
    Request_json req = Inr j \<and> req_Method req = method \<and> req_ID req = id1 \<and> req_Jsonrpc req = ver \<and>
    methodToInfo reg method = Some info \<and>
    UnmarshalCmd reg req = Inr (TPtr (TStruct name fs), VPtr (Some (VStruct (received info vs))))"
proof -
  obtain info where t: "methodToConcreteType reg method = Some (TPtr (TStruct name fs))"
    and info: "methodToInfo reg method = Some info" "info_ok fs info"
    using inv m unfolding reg_inv_def by force
  let ?k = "kept vs"
  have nilopt: "\<forall>i < length fs. vs ! i = VPtr None \<longrightarrow> is_optional (fs ! i)"
    using rt by (fastforce simp: is_optional_def split: gotype.splits)
  have k: "?k \<le> length fs" using kept_le [of vs] len by simp
  obtain js where js: "marshal_params (makeParams fs vs) = Inr js" "length js = ?k"
    "\<forall>i < ?k. json_Unmarshal (ftype (fs ! i)) (js ! i) (zero (ftype (fs ! i))) = Inr (vs ! i)"
  proof -
    have l: "length (take ?k fs) = ?k" "length (take ?k vs) = ?k" using k len by auto
    moreover have "\<forall>i < length (take ?k fs). round_trips (ftype (take ?k fs ! i)) (take ?k vs ! i)"
      using rt k by simp
    ultimately obtain js where "marshal_params (makeParams fs vs) = Inr js" "length js = ?k"
      "\<forall>i < ?k. json_Unmarshal (ftype (take ?k fs ! i)) (js ! i) (zero (ftype (take ?k fs ! i))) = Inr (take ?k vs ! i)"
      using marshal_params_round [of "take ?k vs" "take ?k fs"] by (metis makeParams_eq [OF len nilopt])
    then show ?thesis using that by simp
  qed
  let ?req = "\<lparr>req_Jsonrpc = ver, req_Method = method, req_Params = Some js, req_ID = id1\<rparr>"
  let ?j = "JObject [(''jsonrpc'', JString ver), (''method'', JString method), (''params'', JArray js), (''id'', jid)]"
  have mar: "MarshalCmd reg ver id1 (TPtr (TStruct name fs), VPtr (Some (VStruct vs))) = Inr ?j"
    "Request_json ?req = Inr ?j"
    using m ver idt js(1) by (simp_all add: MarshalCmd_def NewRequest_def Request_json_def)
  have "\<not> ?k < numReqParams info"
  proof
    assume lt: "?k < numReqParams info"
    then have kl: "?k < length fs" using info(2) by (auto simp: info_ok_def)
    then have "is_optional (fs ! ?k)" using kept_nil [of vs ?k] len nilopt by simp
    then show False using lt kl info(2) by (auto simp: info_ok_def)
  qed
  then have num: "checkNumParams ?k info = None" using k info(2) by (auto simp: checkNumParams_def info_ok_def)
  have "\<forall>i < length js. json_Unmarshal (ftype (fs ! (0 + i))) (js ! i) (map zero_field fs ! (0 + i)) = Inr (vs ! (0 + i))"
    using js k by (simp add: zero_field_ftype)
  then obtain rv where rv: "unmarshal_params fs 0 js (map zero_field fs) = Inr rv" "length rv = length fs"
    "\<forall>i < length fs. rv ! i = (if i < ?k then vs ! i else zero (ftype (fs ! i)))"
    using unmarshal_params_Inr [of 0 js "map zero_field fs" fs "\<lambda>i. vs ! i"] js(2) k
    by (auto simp: zero_field_ftype)
  have tail: "rv ! i = vs ! i" if "i < length fs" for i
    using rv(3) that kept_nil [of vs i] len rt by (fastforce split: gotype.splits)
  have "(if ?k < maxParams info then populateDefaults ?k info rv else rv) = received info vs"
    using rv(2) tail info(2) len by (intro received_eq) (auto simp: info_ok_def)
  then have "UnmarshalCmd reg ?req = Inr (TPtr (TStruct name fs), VPtr (Some (VStruct (received info vs))))"
    using t info(1) num rv(1) js(2) by (simp add: UnmarshalCmd_def params_of_def Let_def)
  then show ?thesis using mar info(1) by auto
qed

end
