(* ===== verification/Acbcjson_Types.thy ===== *)
theory Acbcjson_Types
  imports Acbcjson "HOL-Library.Monad_Syntax"
begin

text \<open>
  The commands, notifications and result types of package acbcjson (\<^verbatim>\<open>chainsvrcmd.go\<close>,
  \<^verbatim>\<open>chainsvrwscmds.go\<close>, \<^verbatim>\<open>chainsvrresults.go\<close>, \<^verbatim>\<open>chainsvrwsntfns.go\<close>, \<^verbatim>\<open>walletsvrresults.go\<close>,
  \<^verbatim>\<open>walletsvrwsntfns.go\<close>) as Go types with their tags, their constructors, and the registry that the
  \<^verbatim>\<open>init\<close> functions of the package leave behind.
\<close>

section \<open>Types\<close>

definition fld :: "string \<Rightarrow> gotype \<Rightarrow> gofield" where
  "fld n t = GoField n False [] t n False None"

definition jfld :: "string \<Rightarrow> gotype \<Rightarrow> string \<Rightarrow> bool \<Rightarrow> gofield" where
  "jfld n t j om = GoField n False [] t j om None"

definition dfld :: "string \<Rightarrow> gotype \<Rightarrow> json \<Rightarrow> gofield" where
  "dfld n t d = GoField n False [] t n False (Some d)"

definition T_GetBlockHashCmd :: gotype where
  "T_GetBlockHashCmd = TStruct ''acbcjson.GetBlockHashCmd''
     [fld ''Index'' (TInt 64)]"

definition T_OutPoint :: gotype where
  "T_OutPoint = TStruct ''acbcjson.OutPoint''
     [jfld ''Hash'' TString ''hash'' False,
      jfld ''Index'' (TUint 32) ''index'' False]"

definition T_LoadTxFilterCmd :: gotype where
  "T_LoadTxFilterCmd = TStruct ''acbcjson.LoadTxFilterCmd''
     [fld ''Reload'' TBool,
      fld ''Addresses'' (TSlice TString),
      fld ''OutPoints'' (TSlice T_OutPoint)]"

definition T_AuthenticateCmd :: gotype where
  "T_AuthenticateCmd = TStruct ''acbcjson.AuthenticateCmd''
     [fld ''Username'' TString,
      fld ''Passphrase'' TString]"

definition T_RescanCmd :: gotype where
  "T_RescanCmd = TStruct ''acbcjson.RescanCmd''
     [fld ''BeginBlock'' TString,
      fld ''Addresses'' (TSlice TString),
      fld ''OutPoints'' (TSlice T_OutPoint),
      fld ''EndBlock'' (TPtr TString)]"

definition T_NotifyReceivedCmd :: gotype where
  "T_NotifyReceivedCmd = TStruct ''acbcjson.NotifyReceivedCmd''
     [fld ''Addresses'' (TSlice TString)]"

definition T_NotifyNewTransactionsCmd :: gotype where
  "T_NotifyNewTransactionsCmd = TStruct ''acbcjson.NotifyNewTransactionsCmd''
     [dfld ''Verbose'' (TPtr TBool) (JBool False)]"

definition T_NotifySpentCmd :: gotype where
  "T_NotifySpentCmd = TStruct ''acbcjson.NotifySpentCmd''
     [fld ''OutPoints'' (TSlice T_OutPoint)]"

definition T_NotifyBlocksCmd :: gotype where
  "T_NotifyBlocksCmd = TStruct ''acbcjson.NotifyBlocksCmd''
     []"

definition T_ScriptSig :: gotype where
  "T_ScriptSig = TStruct ''acbcjson.ScriptSig''
     [jfld ''Asm'' TString ''asm'' False,
      jfld ''Hex'' TString ''hex'' False]"

definition T_Vin :: gotype where
  "T_Vin = TStruct ''acbcjson.Vin''
     [jfld ''Coinbase'' TString ''coinbase'' False,
      jfld ''Txid'' TString ''txid'' False,
      jfld ''Vout'' (TUint 32) ''vout'' False,
      jfld ''ScriptSig'' (TPtr T_ScriptSig) ''scriptSig'' False,
      jfld ''Sequence'' (TUint 32) ''sequence'' False,
      jfld ''Witness'' (TSlice TString) ''txinwitness'' False]"

definition T_ScriptPubKeyResult :: gotype where
  "T_ScriptPubKeyResult = TStruct ''acbcjson.ScriptPubKeyResult''
     [jfld ''Asm'' TString ''asm'' False,
      jfld ''Hex'' TString ''hex'' True,
      jfld ''ReqSigs'' (TInt 32) ''reqSigs'' True,
      jfld ''Type'' TString ''type'' False,
      jfld ''Addresses'' (TSlice TString) ''addresses'' True]"

definition T_Vout :: gotype where
  "T_Vout = TStruct ''acbcjson.Vout''
     [jfld ''Value'' (TFloat 64) ''value'' False,
      jfld ''N'' (TUint 32) ''n'' False,
      jfld ''ScriptPubKey'' T_ScriptPubKeyResult ''scriptPubKey'' False]"

definition T_TxRawResult :: gotype where
  "T_TxRawResult = TStruct ''acbcjson.TxRawResult''
     [jfld ''Hex'' TString ''hex'' False,
      jfld ''Txid'' TString ''txid'' False,
      jfld ''Hash'' TString ''hash'' True,
      jfld ''Size'' (TInt 32) ''size'' True,
      jfld ''Vsize'' (TInt 32) ''vsize'' True,
      jfld ''Weight'' (TInt 32) ''weight'' True,
      jfld ''Version'' (TUint 32) ''version'' False,
      jfld ''LockTime'' (TUint 32) ''locktime'' False,
      jfld ''Vin'' (TSlice T_Vin) ''vin'' False,
      jfld ''Vout'' (TSlice T_Vout) ''vout'' False,
      jfld ''BlockHash'' TString ''blockhash'' True,
      jfld ''Confirmations'' (TUint 64) ''confirmations'' True,
      jfld ''Time'' (TInt 64) ''time'' True,
      jfld ''Blocktime'' (TInt 64) ''blocktime'' True]"

definition T_BlockConnectedNtfn :: gotype where
  "T_BlockConnectedNtfn = TStruct ''acbcjson.BlockConnectedNtfn''
     [fld ''Hash'' TString,
      fld ''Height'' (TInt 32),
      fld ''Time'' (TInt 64)]"

definition T_BlockDisconnectedNtfn :: gotype where
  "T_BlockDisconnectedNtfn = TStruct ''acbcjson.BlockDisconnectedNtfn''
     [fld ''Hash'' TString,
      fld ''Height'' (TInt 32),
      fld ''Time'' (TInt 64)]"

definition T_FilteredBlockConnectedNtfn :: gotype where
  "T_FilteredBlockConnectedNtfn = TStruct ''acbcjson.FilteredBlockConnectedNtfn''
     [fld ''Height'' (TInt 32),
      fld ''Header'' TString,
      fld ''SubscribedTxs'' (TSlice TString)]"

definition T_FilteredBlockDisconnectedNtfn :: gotype where
  "T_FilteredBlockDisconnectedNtfn = TStruct ''acbcjson.FilteredBlockDisconnectedNtfn''
     [fld ''Height'' (TInt 32),
      fld ''Header'' TString]"

definition T_BlockDetails :: gotype where
  "T_BlockDetails = TStruct ''acbcjson.BlockDetails''
     [jfld ''Height'' (TInt 32) ''height'' False,
      jfld ''Hash'' TString ''hash'' False,
      jfld ''Index'' (TInt 0) ''index'' False,
      jfld ''Time'' (TInt 64) ''time'' False]"

definition T_RecvTxNtfn :: gotype where
  "T_RecvTxNtfn = TStruct ''acbcjson.RecvTxNtfn''
     [fld ''HexTx'' TString,
      fld ''Block'' (TPtr T_BlockDetails)]"

definition T_RedeemingTxNtfn :: gotype where
  "T_RedeemingTxNtfn = TStruct ''acbcjson.RedeemingTxNtfn''
     [fld ''HexTx'' TString,
      fld ''Block'' (TPtr T_BlockDetails)]"

definition T_RescanFinishedNtfn :: gotype where
  "T_RescanFinishedNtfn = TStruct ''acbcjson.RescanFinishedNtfn''
     [fld ''Hash'' TString,
      fld ''Height'' (TInt 32),
      fld ''Time'' (TInt 64)]"

definition T_RescanProgressNtfn :: gotype where
  "T_RescanProgressNtfn = TStruct ''acbcjson.RescanProgressNtfn''
     [fld ''Hash'' TString,
      fld ''Height'' (TInt 32),
      fld ''Time'' (TInt 64)]"

definition T_TxAcceptedNtfn :: gotype where
  "T_TxAcceptedNtfn = TStruct ''acbcjson.TxAcceptedNtfn''
     [fld ''TxID'' TString,
      fld ''Amount'' (TFloat 64)]"

definition T_TxAcceptedVerboseNtfn :: gotype where
  "T_TxAcceptedVerboseNtfn = TStruct ''acbcjson.TxAcceptedVerboseNtfn''
     [fld ''RawTx'' T_TxRawResult]"

definition T_RelevantTxAcceptedNtfn :: gotype where
  "T_RelevantTxAcceptedNtfn = TStruct ''acbcjson.RelevantTxAcceptedNtfn''
     [jfld ''Transaction'' TString ''transaction'' False]"

definition T_ListTransactionsResult :: gotype where
  "T_ListTransactionsResult = TStruct ''acbcjson.ListTransactionsResult''
     [jfld ''Abandoned'' TBool ''abandoned'' False,
      jfld ''Account'' TString ''account'' False,
      jfld ''Address'' TString ''address'' True,
      jfld ''Amount'' (TFloat 64) ''amount'' False,
      jfld ''BIP125Replaceable'' TString ''bip125-replaceable'' True,
      jfld ''BlockHash'' TString ''blockhash'' True,
      jfld ''BlockHeight'' (TPtr (TInt 32)) ''blockheight'' True,
      jfld ''BlockIndex'' (TPtr (TInt 64)) ''blockindex'' True,
      jfld ''BlockTime'' (TInt 64) ''blocktime'' True,
      jfld ''Category'' TString ''category'' False,
      jfld ''Confirmations'' (TInt 64) ''confirmations'' False,
      jfld ''Fee'' (TPtr (TFloat 64)) ''fee'' True,
      jfld ''Generated'' TBool ''generated'' True,
      jfld ''InvolvesWatchOnly'' TBool ''involveswatchonly'' True,
      jfld ''Label'' (TPtr TString) ''label'' True,
      jfld ''Time'' (TInt 64) ''time'' False,
      jfld ''TimeReceived'' (TInt 64) ''timereceived'' False,
      jfld ''Trusted'' TBool ''trusted'' False,
      jfld ''TxID'' TString ''txid'' False,
      jfld ''Vout'' (TUint 32) ''vout'' False,
      jfld ''WalletConflicts'' (TSlice TString) ''walletconflicts'' False,
      jfld ''Comment'' TString ''comment'' True,
      jfld ''OtherAccount'' TString ''otheraccount'' True]"

definition T_AccountBalanceNtfn :: gotype where
  "T_AccountBalanceNtfn = TStruct ''acbcjson.AccountBalanceNtfn''
     [fld ''Account'' TString,
      fld ''Balance'' (TFloat 64),
      fld ''Confirmed'' TBool]"

definition T_BtcdConnectedNtfn :: gotype where
  "T_BtcdConnectedNtfn = TStruct ''acbcjson.BtcdConnectedNtfn''
     [fld ''Connected'' TBool]"

definition T_WalletLockStateNtfn :: gotype where
  "T_WalletLockStateNtfn = TStruct ''acbcjson.WalletLockStateNtfn''
     [fld ''Locked'' TBool]"

definition T_NewTxNtfn :: gotype where
  "T_NewTxNtfn = TStruct ''acbcjson.NewTxNtfn''
     [fld ''Account'' TString,
      fld ''Details'' T_ListTransactionsResult]"

section \<open>Constructors\<close>

definition NewGetBlockHashCmd :: "int \<Rightarrow> cmd" where
  "NewGetBlockHashCmd index = (TPtr T_GetBlockHashCmd, VPtr (Some (VStruct [VInt index])))"

definition NewLoadTxFilterCmd :: "bool \<Rightarrow> string list option \<Rightarrow> goval list option \<Rightarrow> cmd" where
  "NewLoadTxFilterCmd reload addresses outPoints = (TPtr T_LoadTxFilterCmd, VPtr (Some (VStruct [VBool reload, VSlice (map_option (map VString) addresses), VSlice outPoints])))"

definition NewRescanCmd :: "string \<Rightarrow> string list option \<Rightarrow> goval list option \<Rightarrow> goval option \<Rightarrow> cmd" where
  "NewRescanCmd beginBlock addresses outPoints endBlock = (TPtr T_RescanCmd, VPtr (Some (VStruct [VString beginBlock, VSlice (map_option (map VString) addresses), VSlice outPoints, VPtr endBlock])))"

definition NewNotifyReceivedCmd :: "string list option \<Rightarrow> cmd" where
  "NewNotifyReceivedCmd addresses = (TPtr T_NotifyReceivedCmd, VPtr (Some (VStruct [VSlice (map_option (map VString) addresses)])))"

definition NewNotifyNewTransactionsCmd :: "goval option \<Rightarrow> cmd" where
  "NewNotifyNewTransactionsCmd verbose = (TPtr T_NotifyNewTransactionsCmd, VPtr (Some (VStruct [VPtr verbose])))"

definition NewNotifySpentCmd :: "goval list option \<Rightarrow> cmd" where
  "NewNotifySpentCmd outPoints = (TPtr T_NotifySpentCmd, VPtr (Some (VStruct [VSlice outPoints])))"

definition NewNotifyBlocksCmd :: "cmd" where
  "NewNotifyBlocksCmd = (TPtr T_NotifyBlocksCmd, VPtr (Some (VStruct [])))"

definition NewBlockConnectedNtfn :: "string \<Rightarrow> int \<Rightarrow> int \<Rightarrow> cmd" where
  "NewBlockConnectedNtfn h height tm = (TPtr T_BlockConnectedNtfn, VPtr (Some (VStruct [VString h, VInt height, VInt tm])))"

definition NewBlockDisconnectedNtfn :: "string \<Rightarrow> int \<Rightarrow> int \<Rightarrow> cmd" where
  "NewBlockDisconnectedNtfn h height tm = (TPtr T_BlockDisconnectedNtfn, VPtr (Some (VStruct [VString h, VInt height, VInt tm])))"

definition NewFilteredBlockConnectedNtfn :: "int \<Rightarrow> string \<Rightarrow> string list option \<Rightarrow> cmd" where
  "NewFilteredBlockConnectedNtfn height hdr subscribedTxs = (TPtr T_FilteredBlockConnectedNtfn, VPtr (Some (VStruct [VInt height, VString hdr, VSlice (map_option (map VString) subscribedTxs)])))"

definition NewFilteredBlockDisconnectedNtfn :: "int \<Rightarrow> string \<Rightarrow> cmd" where
  "NewFilteredBlockDisconnectedNtfn height hdr = (TPtr T_FilteredBlockDisconnectedNtfn, VPtr (Some (VStruct [VInt height, VString hdr])))"

definition NewRecvTxNtfn :: "string \<Rightarrow> goval option \<Rightarrow> cmd" where
  "NewRecvTxNtfn hexTx block = (TPtr T_RecvTxNtfn, VPtr (Some (VStruct [VString hexTx, VPtr block])))"

definition NewRedeemingTxNtfn :: "string \<Rightarrow> goval option \<Rightarrow> cmd" where
  "NewRedeemingTxNtfn hexTx block = (TPtr T_RedeemingTxNtfn, VPtr (Some (VStruct [VString hexTx, VPtr block])))"

definition NewRescanFinishedNtfn :: "string \<Rightarrow> int \<Rightarrow> int \<Rightarrow> cmd" where
  "NewRescanFinishedNtfn h height tm = (TPtr T_RescanFinishedNtfn, VPtr (Some (VStruct [VString h, VInt height, VInt tm])))"

definition NewRescanProgressNtfn :: "string \<Rightarrow> int \<Rightarrow> int \<Rightarrow> cmd" where
  "NewRescanProgressNtfn h height tm = (TPtr T_RescanProgressNtfn, VPtr (Some (VStruct [VString h, VInt height, VInt tm])))"

definition NewTxAcceptedNtfn :: "string \<Rightarrow> string \<Rightarrow> cmd" where
  "NewTxAcceptedNtfn txHash amount = (TPtr T_TxAcceptedNtfn, VPtr (Some (VStruct [VString txHash, VFloat amount])))"

definition NewTxAcceptedVerboseNtfn :: "goval \<Rightarrow> cmd" where
  "NewTxAcceptedVerboseNtfn rawTx = (TPtr T_TxAcceptedVerboseNtfn, VPtr (Some (VStruct [rawTx])))"

definition NewRelevantTxAcceptedNtfn :: "string \<Rightarrow> cmd" where
  "NewRelevantTxAcceptedNtfn txHex = (TPtr T_RelevantTxAcceptedNtfn, VPtr (Some (VStruct [VString txHex])))"

definition NewAccountBalanceNtfn :: "string \<Rightarrow> string \<Rightarrow> bool \<Rightarrow> cmd" where
  "NewAccountBalanceNtfn account balance confirmed = (TPtr T_AccountBalanceNtfn, VPtr (Some (VStruct [VString account, VFloat balance, VBool confirmed])))"

definition NewBtcdConnectedNtfn :: "bool \<Rightarrow> cmd" where
  "NewBtcdConnectedNtfn connected = (TPtr T_BtcdConnectedNtfn, VPtr (Some (VStruct [VBool connected])))"

definition NewWalletLockStateNtfn :: "bool \<Rightarrow> cmd" where
  "NewWalletLockStateNtfn locked = (TPtr T_WalletLockStateNtfn, VPtr (Some (VStruct [VBool locked])))"

definition NewNewTxNtfn :: "string \<Rightarrow> goval \<Rightarrow> cmd" where
  "NewNewTxNtfn account details = (TPtr T_NewTxNtfn, VPtr (Some (VStruct [VString account, details])))"

section \<open>Method names\<close>

definition BlockConnectedNtfnMethod :: string where "BlockConnectedNtfnMethod = ''blockconnected''"
definition BlockDisconnectedNtfnMethod :: string where "BlockDisconnectedNtfnMethod = ''blockdisconnected''"
definition FilteredBlockConnectedNtfnMethod :: string where "FilteredBlockConnectedNtfnMethod = ''filteredblockconnected''"
definition FilteredBlockDisconnectedNtfnMethod :: string where "FilteredBlockDisconnectedNtfnMethod = ''filteredblockdisconnected''"
definition RecvTxNtfnMethod :: string where "RecvTxNtfnMethod = ''recvtx''"
definition RedeemingTxNtfnMethod :: string where "RedeemingTxNtfnMethod = ''redeemingtx''"
definition RescanFinishedNtfnMethod :: string where "RescanFinishedNtfnMethod = ''rescanfinished''"
definition RescanProgressNtfnMethod :: string where "RescanProgressNtfnMethod = ''rescanprogress''"
definition TxAcceptedNtfnMethod :: string where "TxAcceptedNtfnMethod = ''txaccepted''"
definition TxAcceptedVerboseNtfnMethod :: string where "TxAcceptedVerboseNtfnMethod = ''txacceptedverbose''"
definition RelevantTxAcceptedNtfnMethod :: string where "RelevantTxAcceptedNtfnMethod = ''relevanttxaccepted''"
definition AccountBalanceNtfnMethod :: string where "AccountBalanceNtfnMethod = ''accountbalance''"
definition BtcdConnectedNtfnMethod :: string where "BtcdConnectedNtfnMethod = ''btcdconnected''"
definition WalletLockStateNtfnMethod :: string where "WalletLockStateNtfnMethod = ''walletlockstate''"
definition NewTxNtfnMethod :: string where "NewTxNtfnMethod = ''newtx''"

section \<open>Registration\<close>

definition init_chainsvrcmd :: "registry \<Rightarrow> registry option" where
  "init_chainsvrcmd reg =
     (let flags = 0 in
      Some reg
      \<bind> MustRegisterCmd ''getblockhash'' (TPtr T_GetBlockHashCmd) flags)"

definition init_chainsvrwsntfns :: "registry \<Rightarrow> registry option" where
  "init_chainsvrwsntfns reg =
     (let flags = UFWebsocketOnly OR UFNotification in
      Some reg
      \<bind> MustRegisterCmd BlockConnectedNtfnMethod (TPtr T_BlockConnectedNtfn) flags
      \<bind> MustRegisterCmd BlockDisconnectedNtfnMethod (TPtr T_BlockDisconnectedNtfn) flags
      \<bind> MustRegisterCmd FilteredBlockConnectedNtfnMethod (TPtr T_FilteredBlockConnectedNtfn) flags
      \<bind> MustRegisterCmd FilteredBlockDisconnectedNtfnMethod (TPtr T_FilteredBlockDisconnectedNtfn) flags
      \<bind> MustRegisterCmd RecvTxNtfnMethod (TPtr T_RecvTxNtfn) flags
      \<bind> MustRegisterCmd RedeemingTxNtfnMethod (TPtr T_RedeemingTxNtfn) flags
      \<bind> MustRegisterCmd RescanFinishedNtfnMethod (TPtr T_RescanFinishedNtfn) flags
      \<bind> MustRegisterCmd RescanProgressNtfnMethod (TPtr T_RescanProgressNtfn) flags
      \<bind> MustRegisterCmd TxAcceptedNtfnMethod (TPtr T_TxAcceptedNtfn) flags
      \<bind> MustRegisterCmd TxAcceptedVerboseNtfnMethod (TPtr T_TxAcceptedVerboseNtfn) flags
      \<bind> MustRegisterCmd RelevantTxAcceptedNtfnMethod (TPtr T_RelevantTxAcceptedNtfn) flags)"

definition init_walletsvrwsntfns :: "registry \<Rightarrow> registry option" where
  "init_walletsvrwsntfns reg =
     (let flags = UFWalletOnly OR UFWebsocketOnly OR UFNotification in
      Some reg
      \<bind> MustRegisterCmd AccountBalanceNtfnMethod (TPtr T_AccountBalanceNtfn) flags
      \<bind> MustRegisterCmd BtcdConnectedNtfnMethod (TPtr T_BtcdConnectedNtfn) flags
      \<bind> MustRegisterCmd WalletLockStateNtfnMethod (TPtr T_WalletLockStateNtfn) flags
      \<bind> MustRegisterCmd NewTxNtfnMethod (TPtr T_NewTxNtfn) flags)"

text \<open>Go runs the \<^verbatim>\<open>init\<close> functions of a package in the order of the file names.\<close>

definition registered :: "registry option" where
  "registered = init_chainsvrcmd empty_registry \<bind> init_chainsvrwsntfns \<bind> init_walletsvrwsntfns"

section \<open>Properties\<close>

lemma MustRegisterCmd_dom:
  assumes "MustRegisterCmd m t fl reg = Some reg'"
  shows "dom (methodToConcreteType reg') = insert m (dom (methodToConcreteType reg))"
    and "dom (concreteTypeToMethod reg') = insert t (dom (concreteTypeToMethod reg))"
    and "reg_inv reg \<Longrightarrow> reg_inv reg'"
proof -
  have r: "RegisterCmd m t fl reg = Inr reg'" using assms by (simp add: MustRegisterCmd_def split: sum.splits)
  then show "dom (methodToConcreteType reg') = insert m (dom (methodToConcreteType reg))"
    and "dom (concreteTypeToMethod reg') = insert t (dom (concreteTypeToMethod reg))"
    using RegisterCmd_Inr [OF r] by auto
  show "reg_inv reg \<Longrightarrow> reg_inv reg'" using RegisterCmd_inv r by blast
qed

lemma bind_Some_conv: "(m \<bind> f) = Some y \<longleftrightarrow> (\<exists>x. m = Some x \<and> f x = Some y)"
  by (cases m) auto

definition registered_methods :: "string list" where
  "registered_methods =
     [''getblockhash'', ''blockconnected'', ''blockdisconnected'', ''filteredblockconnected'',
      ''filteredblockdisconnected'', ''recvtx'', ''redeemingtx'', ''rescanfinished'', ''rescanprogress'',
      ''txaccepted'', ''txacceptedverbose'', ''relevanttxaccepted'', ''accountbalance'', ''btcdconnected'',
      ''walletlockstate'', ''newtx'']"

definition registered_types :: "gotype list" where
  "registered_types = map TPtr
     [T_GetBlockHashCmd, T_BlockConnectedNtfn, T_BlockDisconnectedNtfn, T_FilteredBlockConnectedNtfn,
      T_FilteredBlockDisconnectedNtfn, T_RecvTxNtfn, T_RedeemingTxNtfn, T_RescanFinishedNtfn,
      T_RescanProgressNtfn, T_TxAcceptedNtfn, T_TxAcceptedVerboseNtfn, T_RelevantTxAcceptedNtfn,
      T_AccountBalanceNtfn, T_BtcdConnectedNtfn, T_WalletLockStateNtfn, T_NewTxNtfn]"

lemma registered_Some: "registered \<noteq> None"
  by code_simp

lemma empty_registry_dom [simp]:
  "dom (methodToConcreteType empty_registry) = {}" "dom (concreteTypeToMethod empty_registry) = {}"
  by (simp_all add: empty_registry_def)

text \<open>A sequence of registrations with the same flags.\<close>

primrec register_all :: "UsageFlag \<Rightarrow> (string \<times> gotype) list \<Rightarrow> registry \<Rightarrow> registry option" where
  "register_all fl [] = Some"
| "register_all fl (mt # l) = (\<lambda>reg. MustRegisterCmd (fst mt) (snd mt) fl reg \<bind> register_all fl l)"

lemma register_all_dom:
  "register_all fl l reg = Some reg' \<Longrightarrow>
     dom (methodToConcreteType reg') = set (map fst l) \<union> dom (methodToConcreteType reg) \<and>
     dom (concreteTypeToMethod reg') = set (map snd l) \<union> dom (concreteTypeToMethod reg) \<and>
     (reg_inv reg \<longrightarrow> reg_inv reg')"
proof (induction l arbitrary: reg)
  case (Cons mt l)
  then obtain r where r: "MustRegisterCmd (fst mt) (snd mt) fl reg = Some r" "register_all fl l r = Some reg'"
    by (auto simp: bind_Some_conv)
  show ?case using Cons.IH [OF r(2)] MustRegisterCmd_dom [OF r(1)] by auto
qed simp

lemma init_chainsvrcmd_all: "init_chainsvrcmd = register_all 0 [(''getblockhash'', TPtr T_GetBlockHashCmd)]"
  by (rule ext) (simp add: init_chainsvrcmd_def)

lemma init_chainsvrwsntfns_all:
  "init_chainsvrwsntfns = register_all (UFWebsocketOnly OR UFNotification)
     (zip (take 11 (drop 1 registered_methods)) (take 11 (drop 1 registered_types)))"
  by (rule ext) (simp add: init_chainsvrwsntfns_def Let_def registered_methods_def registered_types_def
      BlockConnectedNtfnMethod_def BlockDisconnectedNtfnMethod_def FilteredBlockConnectedNtfnMethod_def
      FilteredBlockDisconnectedNtfnMethod_def RecvTxNtfnMethod_def RedeemingTxNtfnMethod_def
      RescanFinishedNtfnMethod_def RescanProgressNtfnMethod_def TxAcceptedNtfnMethod_def
      TxAcceptedVerboseNtfnMethod_def RelevantTxAcceptedNtfnMethod_def)

lemma init_walletsvrwsntfns_all:
  "init_walletsvrwsntfns = register_all (UFWalletOnly OR UFWebsocketOnly OR UFNotification)
     (zip (drop 12 registered_methods) (drop 12 registered_types))"
  by (rule ext) (simp add: init_walletsvrwsntfns_def Let_def registered_methods_def registered_types_def
      AccountBalanceNtfnMethod_def BtcdConnectedNtfnMethod_def WalletLockStateNtfnMethod_def NewTxNtfnMethod_def)

lemma registered_dom:
  assumes "registered = Some reg"
  shows "dom (methodToConcreteType reg) = set registered_methods"
    and "dom (concreteTypeToMethod reg) = set registered_types" and "reg_inv reg"
proof -
  obtain r1 r2 where r: "init_chainsvrcmd empty_registry = Some r1" "init_chainsvrwsntfns r1 = Some r2"
    "init_walletsvrwsntfns r2 = Some reg"
    using assms by (auto simp: registered_def bind_Some_conv)
  note d = register_all_dom [OF r(1) [unfolded init_chainsvrcmd_all]]
    register_all_dom [OF r(2) [unfolded init_chainsvrwsntfns_all]]
    register_all_dom [OF r(3) [unfolded init_walletsvrwsntfns_all]]
  show "dom (methodToConcreteType reg) = set registered_methods"
    using d by (simp add: registered_methods_def registered_types_def)
  show "dom (concreteTypeToMethod reg) = set registered_types"
    using d by (simp add: registered_methods_def registered_types_def)
  show "reg_inv reg" using d reg_inv_empty by blast
qed

text \<open>Every type a method is registered with is known by its type as well.\<close>

lemma MustRegisterCmd_ran:
  "MustRegisterCmd m t fl reg = Some reg' \<Longrightarrow> ran (methodToConcreteType reg) \<subseteq> dom (concreteTypeToMethod reg) \<Longrightarrow>
     ran (methodToConcreteType reg') \<subseteq> dom (concreteTypeToMethod reg')"
proof -
  assume s: "MustRegisterCmd m t fl reg = Some reg'" "ran (methodToConcreteType reg) \<subseteq> dom (concreteTypeToMethod reg)"
  then have "RegisterCmd m t fl reg = Inr reg'" by (simp add: MustRegisterCmd_def split: sum.splits)
  from RegisterCmd_Inr [OF this] have "methodToConcreteType reg m = None"
    "methodToConcreteType reg' = (methodToConcreteType reg)(m \<mapsto> t)"
    "concreteTypeToMethod reg' = (concreteTypeToMethod reg)(t \<mapsto> m)" by auto
  with s(2) show ?thesis by auto
qed

lemma register_all_ran:
  "register_all fl l reg = Some reg' \<Longrightarrow> ran (methodToConcreteType reg) \<subseteq> dom (concreteTypeToMethod reg) \<Longrightarrow>
     ran (methodToConcreteType reg') \<subseteq> dom (concreteTypeToMethod reg')"
proof (induction l arbitrary: reg)
  case (Cons mt l)
  then obtain r where r: "MustRegisterCmd (fst mt) (snd mt) fl reg = Some r" "register_all fl l r = Some reg'"
    by (auto simp: bind_Some_conv)
  from Cons.IH [OF r(2) MustRegisterCmd_ran [OF r(1) Cons.prems(2)]] show ?case .
qed simp

lemma registered_ran:
  assumes "registered = Some reg" and "methodToConcreteType reg m = Some t"
  shows "t \<in> set registered_types"
proof -
  obtain r1 r2 where r: "init_chainsvrcmd empty_registry = Some r1" "init_chainsvrwsntfns r1 = Some r2"
    "init_walletsvrwsntfns r2 = Some reg"
    using assms(1) by (auto simp: registered_def bind_Some_conv)
  have "ran (methodToConcreteType empty_registry) \<subseteq> dom (concreteTypeToMethod empty_registry)"
    by (simp add: empty_registry_def)
  then have "ran (methodToConcreteType reg) \<subseteq> dom (concreteTypeToMethod reg)"
    using register_all_ran r [unfolded init_chainsvrcmd_all init_chainsvrwsntfns_all init_walletsvrwsntfns_all] by metis
  with assms(2) show ?thesis unfolding registered_dom(2) [OF assms(1)] by (auto simp: ran_def)
qed


definition sample_registry :: registry where
  "sample_registry = the (MustRegisterCmd ''notifynewtransactions'' (TPtr T_NotifyNewTransactionsCmd) 0 empty_registry)"

lemma sample_registry_Some:
  "MustRegisterCmd ''notifynewtransactions'' (TPtr T_NotifyNewTransactionsCmd) 0 empty_registry = Some sample_registry"
proof -
  have "MustRegisterCmd ''notifynewtransactions'' (TPtr T_NotifyNewTransactionsCmd) 0 empty_registry \<noteq> None"
    by code_simp
  then show ?thesis by (auto simp: sample_registry_def)
qed


text \<open>
  C36: \<^verbatim>\<open>RegisterCmd\<close> only accepts what its documentation lists, and the registry stays consistent:
  every registered type is a pointer to a struct with exported, non-embedded fields of supported
  kinds, required fields before optional ones, defaults on optional fields only, parameter counts that
  add up and known usage flags; a method is registered once and the others keep their entry.
\<close>

theorem RegisterCmd_sound:
  assumes "reg_inv reg" and "RegisterCmd method rtp fl reg = Inr reg'"
  shows "reg_inv reg' \<and> methodToConcreteType reg method = None \<and> methodToConcreteType reg' method = Some rtp \<and>
    concreteTypeToMethod reg' rtp = Some method \<and>
    (\<forall>m. m \<noteq> method \<longrightarrow> methodToConcreteType reg' m = methodToConcreteType reg m \<and>
       methodToInfo reg' m = methodToInfo reg m)"
  using RegisterCmd_inv [OF assms] RegisterCmd_Inr [OF assms(2)] by auto

theorem RegisterCmd_sound_witness:
  "\<exists>reg'. RegisterCmd ''getblockhash'' (TPtr T_GetBlockHashCmd) 0 empty_registry = Inr reg' \<and> reg_inv reg'"
proof -
  have "MustRegisterCmd ''getblockhash'' (TPtr T_GetBlockHashCmd) 0 empty_registry \<noteq> None" by code_simp
  then obtain reg' where r: "RegisterCmd ''getblockhash'' (TPtr T_GetBlockHashCmd) 0 empty_registry = Inr reg'"
    by (auto simp: MustRegisterCmd_def split: sum.splits)
  with RegisterCmd_sound [OF reg_inv_empty r] show ?thesis by blast
qed

text \<open>
  a request becomes a command only when its method is registered and it has at least the required
  and at most all parameters; the command then has the registered type and a value for every field.
\<close>

theorem UnmarshalCmd_checks:
  assumes "reg_inv reg" and "UnmarshalCmd reg req = Inr c"
  shows "\<exists>name fs info vs. methodToConcreteType reg (req_Method req) = Some (TPtr (TStruct name fs)) \<and>
    methodToInfo reg (req_Method req) = Some info \<and> c = (TPtr (TStruct name fs), VPtr (Some (VStruct vs))) \<and>
    numReqParams info \<le> length (params_of req) \<and> length (params_of req) \<le> length fs \<and> length vs = length fs"
proof -
  have len: "unmarshal_params fs i ps rv = Inr rv' \<Longrightarrow> length rv' = length rv" for fs i ps rv rv'
    by (induction fs i ps rv rule: unmarshal_params.induct) (auto split: sum.splits)
  from assms obtain name fs info rv where
    t: "methodToConcreteType reg (req_Method req) = Some (TPtr (TStruct name fs))"
      "methodToInfo reg (req_Method req) = Some info" and
    n: "checkNumParams (length (params_of req)) info = None" and
    rv: "unmarshal_params fs 0 (params_of req) (map zero_field fs) = Inr rv"
      "c = (TPtr (TStruct name fs), VPtr (Some (VStruct (if length (params_of req) < maxParams info
         then populateDefaults (length (params_of req)) info rv else rv))))"
    by (auto simp: UnmarshalCmd_def bindR_Inr_conv Let_def split: option.splits gotype.splits)
  have "info_ok fs info" using assms(1) t unfolding reg_inv_def by fastforce
  then show ?thesis using t n rv len [OF rv(1)]
    by (auto simp: checkNumParams_def info_ok_def split: if_splits)
qed

theorem UnmarshalCmd_checks_witness:
  "\<exists>vs. UnmarshalCmd sample_registry
       \<lparr>req_Jsonrpc = ''1.0'', req_Method = ''notifynewtransactions'', req_Params = Some [JBool True], req_ID = None\<rparr> =
     Inr (TPtr T_NotifyNewTransactionsCmd, VPtr (Some (VStruct vs))) \<and> length vs = 1"
proof -
  let ?req = "\<lparr>req_Jsonrpc = ''1.0'', req_Method = ''notifynewtransactions'', req_Params = Some [JBool True], req_ID = None\<rparr>"
  have inv: "reg_inv sample_registry"
    using MustRegisterCmd_dom(3) [OF sample_registry_Some] reg_inv_empty by blast
  have u: "UnmarshalCmd sample_registry ?req =
      Inr (TPtr T_NotifyNewTransactionsCmd, VPtr (Some (VStruct [VPtr (Some (VBool True))])))"
    by code_simp
  show ?thesis using UnmarshalCmd_checks [OF inv u] u
    by (auto simp: T_NotifyNewTransactionsCmd_def)
qed

text \<open>
  the methods the package registers are \<^verbatim>\<open>getblockhash\<close> and the fifteen notifications. None of the
  websocket commands it defines is among them, so marshalling any of them and unmarshalling a request
  for any of them fails with \<^verbatim>\<open>ErrUnregisteredMethod\<close>.
\<close>

theorem websocket_commands_unregistered:
  assumes "registered = Some reg"
  shows "dom (methodToConcreteType reg) = set registered_methods \<and>
    (\<forall>t \<in> {T_LoadTxFilterCmd, T_AuthenticateCmd, T_RescanCmd, T_NotifyReceivedCmd, T_NotifyNewTransactionsCmd,
        T_NotifySpentCmd, T_NotifyBlocksCmd}. \<forall>ver id1 v.
       \<exists>d. MarshalCmd reg ver id1 (TPtr t, v) = Inl (Error ErrUnregisteredMethod d)) \<and>
    (\<forall>req :: Request. req_Method req \<in> {''loadtxfilter'', ''authenticate'', ''rescan'', ''notifyreceived'',
        ''notifynewtransactions'', ''notifyspent'', ''notifyblocks''} \<longrightarrow>
       (\<exists>d. UnmarshalCmd reg req = Inl (Error ErrUnregisteredMethod d)))"
proof (intro conjI ballI allI impI)
  show "dom (methodToConcreteType reg) = set registered_methods" using registered_dom(1) [OF assms] .
  fix t ver id1 v
  assume "t \<in> {T_LoadTxFilterCmd, T_AuthenticateCmd, T_RescanCmd, T_NotifyReceivedCmd, T_NotifyNewTransactionsCmd,
        T_NotifySpentCmd, T_NotifyBlocksCmd}"
  moreover have "list_all (\<lambda>t. TPtr t \<notin> set registered_types) [T_LoadTxFilterCmd, T_AuthenticateCmd, T_RescanCmd,
      T_NotifyReceivedCmd, T_NotifyNewTransactionsCmd, T_NotifySpentCmd, T_NotifyBlocksCmd]"
    by code_simp
  ultimately have "TPtr t \<notin> dom (concreteTypeToMethod reg)"
    unfolding registered_dom(2) [OF assms] by auto
  then show "\<exists>d. MarshalCmd reg ver id1 (TPtr t, v) = Inl (Error ErrUnregisteredMethod d)"
    by (simp add: MarshalCmd_def makeError_def domIff)
next
  fix req :: Request
  assume "req_Method req \<in> {''loadtxfilter'', ''authenticate'', ''rescan'', ''notifyreceived'',
        ''notifynewtransactions'', ''notifyspent'', ''notifyblocks''}"
  then have "req_Method req \<notin> dom (methodToConcreteType reg)"
    unfolding registered_dom(1) [OF assms] by (auto simp: registered_methods_def)
  then show "\<exists>d. UnmarshalCmd reg req = Inl (Error ErrUnregisteredMethod d)"
    by (simp add: UnmarshalCmd_def makeError_def domIff)
qed

theorem websocket_commands_unregistered_witness:
  "\<exists>reg. registered = Some reg \<and>
    (\<exists>d. MarshalCmd reg ''1.0'' None NewNotifyBlocksCmd = Inl (Error ErrUnregisteredMethod d))"
proof -
  obtain reg where r: "registered = Some reg" using registered_Some by blast
  have "T_NotifyBlocksCmd \<in> {T_LoadTxFilterCmd, T_AuthenticateCmd, T_RescanCmd, T_NotifyReceivedCmd,
    T_NotifyNewTransactionsCmd, T_NotifySpentCmd, T_NotifyBlocksCmd}" by simp
  with r websocket_commands_unregistered [OF r] show ?thesis unfolding NewNotifyBlocksCmd_def by blast
qed

end
