(* ===== verification/Rpcserver.thy ===== *)
theory Rpcserver
  imports Blocks Acbcjson_Types "HOL-Library.List_Lexorder"
begin

text \<open>
  The RPC server (\<^verbatim>\<open>rpcserver.go\<close>): the command tables, authentication, the limit on clients, the
  processing of single and batched requests over HTTP, the status line cache, and start and stop.
  The server is a record that the operations return updated. Logging is left out. A handler that
  panics is modelled as such, since the HTTP server recovers from it by dropping the connection.
\<close>

section \<open>Tables and errors\<close>

text \<open>The part of the global configuration \<^verbatim>\<open>cfg\<close> (\<^verbatim>\<open>config.go\<close>) that the RPC server reads.\<close>

record rpc_config =
  RPCUser :: string
  RPCPass :: string
  RPCLimitUser :: string
  RPCLimitPass :: string
  RPCMaxClients :: int
  RPCMaxWebsockets :: int
  RPCMaxConcurrentReqs :: int
  RPCQuirks :: bool

definition rpcAuthTimeoutSeconds :: int where "rpcAuthTimeoutSeconds = 10"
definition batchedRequestPrefix :: string where "batchedRequestPrefix = ''[''"

definition rpcErrUnimplemented :: RPCError where
  "rpcErrUnimplemented = \<lparr>Code = ErrRPCUnimplemented, Message = ''Command unimplemented''\<rparr>"

definition rpcErrNoWallet :: RPCError where
  "rpcErrNoWallet =
     \<lparr>Code = ErrRPCNoWallet, Message = ''This implementation does not implement wallet commands''\<rparr>"

definition rpcAskWallet :: "string list" where
  "rpcAskWallet = [
     ''addmultisigaddress'', ''backupwallet'', ''createencryptedwallet'', ''createmultisig'',
      ''dumpprivkey'', ''dumpwallet'', ''encryptwallet'', ''getaccount'', ''getaccountaddress'',
      ''getaddressesbyaccount'', ''getbalance'', ''getnewaddress'', ''getrawchangeaddress'',
      ''getreceivedbyaccount'', ''getreceivedbyaddress'', ''gettransaction'',
      ''gettxoutsetinfo'', ''getunconfirmedbalance'', ''getwalletinfo'', ''importprivkey'',
      ''importwallet'', ''keypoolrefill'', ''listaccounts'', ''listaddressgroupings'',
      ''listlockunspent'', ''listreceivedbyaccount'', ''listreceivedbyaddress'',
      ''listsinceblock'', ''listtransactions'', ''listunspent'', ''lockunspent'', ''move'',
      ''sendfrom'', ''sendmany'', ''sendtoaddress'', ''setaccount'', ''settxfee'',
      ''signmessage'', ''signrawtransaction'', ''walletlock'', ''walletpassphrase'',
      ''walletpassphrasechange'']"

definition rpcUnimplemented :: "string list" where
  "rpcUnimplemented = [
     ''estimatepriority'', ''getchaintips'', ''getmempoolentry'', ''getnetworkinfo'',
      ''getwork'', ''invalidateblock'', ''preciousblock'', ''reconsiderblock'']"

definition rpcLimited :: "string list" where
  "rpcLimited = [
     ''loadtxfilter'', ''notifyblocks'', ''notifynewtransactions'', ''notifyreceived'',
      ''notifyspent'', ''rescan'', ''rescanblocks'', ''session'', ''help'',
      ''createrawtransaction'', ''decoderawtransaction'', ''decodescript'', ''estimatefee'',
      ''getbestblock'', ''getbestblockhash'', ''getblock'', ''getblockcount'', ''getblockhash'',
      ''getblockheader'', ''getcfilter'', ''getcfilterheader'', ''getcurrentnet'',
      ''getdifficulty'', ''getheaders'', ''getinfo'', ''getnettotals'', ''getnetworkhashps'',
      ''getrawmempool'', ''getrawtransaction'', ''gettxout'', ''searchrawtransactions'',
      ''sendrawtransaction'', ''submitblock'', ''uptime'', ''validateaddress'',
      ''verifymessage'', ''version'']"

text \<open>What a command handler returns besides a result: an RPC error, any other error, or a panic.\<close>

datatype handler_err = RpcErr RPCError | OtherErr string | HandlerPanic string

type_synonym commandHandler = "cmd \<Rightarrow> handler_err + iface"

definition handleUnimplemented :: commandHandler where
  "handleUnimplemented c = Inl (RpcErr rpcErrUnimplemented)"

definition handleAskWallet :: commandHandler where
  "handleAskWallet c = Inl (RpcErr rpcErrNoWallet)"

text \<open>
  The error of \<^verbatim>\<open>NewHashFromStr\<close> is dropped; the method \<^verbatim>\<open>String\<close> has a value receiver, so calling it
  through the nil pointer panics.
\<close>

definition handleGetBlockHash :: commandHandler where
  "handleGetBlockHash c =
     (case c of
        (t, VPtr (Some (VStruct [VInt index]))) \<Rightarrow>
          (case NewHashFromStr (fmt_d index) of
             Inl _ \<Rightarrow> Inl (HandlerPanic ''invalid memory address or nil pointer dereference'')
           | Inr h \<Rightarrow> Inr (Some (TString, VString (hash_String h))))
      | _ \<Rightarrow> Inl (HandlerPanic ''interface conversion''))"

definition rpcHandlers :: "string \<rightharpoonup> commandHandler" where
  "rpcHandlers = [''getblockhash'' \<mapsto> handleGetBlockHash]"

definition internalRPCError :: "string \<Rightarrow> string \<Rightarrow> RPCError" where
  "internalRPCError errStr context1 = NewRPCError (Code ErrRPCInternal) errStr"

section \<open>The server\<close>

text \<open>
  A listener is what closing it will return. \<^verbatim>\<open>quit\<close> and the notification manager's \<^verbatim>\<open>quit\<close> are
  channels of which only being closed matters here.
\<close>

record rpcServer =
  rpc_started :: int32
  rpc_shutdown :: int32
  authsha :: bytes
  limitauthsha :: bytes
  numClients :: int32
  statusLines :: "int \<rightharpoonup> string"
  rpc_listeners :: "string option list"
  ntfnMgr_running :: bool
  ntfnMgr_quit_closed :: bool
  rpc_quit_closed :: bool

definition basic_auth :: "string \<Rightarrow> string \<Rightarrow> string" where
  "basic_auth user pass =
     (let login = user @ '':'' @ pass in ''Basic '' @ base64_EncodeToString (string_bytes login))"

definition newRPCServer :: "rpc_config \<Rightarrow> string option list \<Rightarrow> rpcServer" where
  "newRPCServer cfg lns =
     \<lparr>rpc_started = 0, rpc_shutdown = 0,
      authsha = (if RPCUser cfg \<noteq> [] \<and> RPCPass cfg \<noteq> []
                 then Sum256 (string_bytes (basic_auth (RPCUser cfg) (RPCPass cfg))) else replicate 32 0),
      limitauthsha = (if RPCLimitUser cfg \<noteq> [] \<and> RPCLimitPass cfg \<noteq> []
                 then Sum256 (string_bytes (basic_auth (RPCLimitUser cfg) (RPCLimitPass cfg))) else replicate 32 0),
      numClients = 0, statusLines = Map.empty, rpc_listeners = lns,
      ntfnMgr_running = False, ntfnMgr_quit_closed = False, rpc_quit_closed = False\<rparr>"

definition limitConnections :: "rpc_config \<Rightarrow> rpcServer \<Rightarrow> bool" where
  "limitConnections cfg s = (if sint (numClients s + 1) > RPCMaxClients cfg then True else False)"

definition incrementClients :: "rpcServer \<Rightarrow> rpcServer" where
  "incrementClients s = s\<lparr>numClients := numClients s + 1\<rparr>"

definition decrementClients :: "rpcServer \<Rightarrow> rpcServer" where
  "decrementClients s = s\<lparr>numClients := numClients s + - 1\<rparr>"

text \<open>\<^verbatim>\<open>subtle.ConstantTimeCompare\<close>: or together the differences of all bytes.\<close>

definition ConstantTimeCompare :: "bytes \<Rightarrow> bytes \<Rightarrow> nat" where
  "ConstantTimeCompare x y =
     (if length x \<noteq> length y then 0
      else if fold (\<lambda>(a, b) v. v OR (a XOR b)) (zip x y) (0 :: byte) = 0 then 1 else 0)"

text \<open>The first argument of the result is success, the second whether the user is an administrator.\<close>

definition checkAuth :: "rpcServer \<Rightarrow> string list \<Rightarrow> bool \<Rightarrow> bool \<times> bool \<times> string option" where
  "checkAuth s authhdr require =
     (case authhdr of
        [] \<Rightarrow> if require then (False, False, Some ''auth failure'') else (False, False, None)
      | hdr # _ \<Rightarrow>
          let sha = Sum256 (string_bytes hdr) in
          if ConstantTimeCompare sha (limitauthsha s) = 1 then (True, False, None)
          else if ConstantTimeCompare sha (authsha s) = 1 then (True, True, None)
          else (False, False, Some ''auth failure''))"

definition createMarshalledReply ::
  "RPCVersion \<Rightarrow> iface \<Rightarrow> iface \<Rightarrow> handler_err option \<Rightarrow> json jresult" where
  "createMarshalledReply rpcVersion id1 result replyErr =
     (let jsonErr = (case replyErr of
            None \<Rightarrow> None
          | Some (RpcErr jErr) \<Rightarrow> Some jErr
          | Some (OtherErr e) \<Rightarrow> Some (internalRPCError e [])
          | Some (HandlerPanic e) \<Rightarrow> Some (internalRPCError e []))
      in MarshalResponse rpcVersion id1 result jsonErr)"

record parsedRPCCmd =
  p_jsonrpc :: RPCVersion
  p_id :: iface
  p_method :: string
  p_cmd :: "cmd option"
  p_err :: "RPCError option"

definition cmderr_Error :: "cmderr \<Rightarrow> string" where
  "cmderr_Error e = (case e of Error c d \<Rightarrow> Error_Error c d | JsonErr je \<Rightarrow> jerror_Error je)"

definition parseCmd :: "registry \<Rightarrow> Request \<Rightarrow> parsedRPCCmd" where
  "parseCmd reg request =
     (let parsedCmd = \<lparr>p_jsonrpc = req_Jsonrpc request, p_id = req_ID request, p_method = req_Method request,
                       p_cmd = None, p_err = None\<rparr> in
      case UnmarshalCmd reg request of
        Inl err \<Rightarrow>
          (case err of
             Error c d \<Rightarrow>
               if c = ErrUnregisteredMethod then parsedCmd\<lparr>p_err := Some ErrRPCMethodNotFound\<rparr>
               else parsedCmd\<lparr>p_err := Some (NewRPCError (Code ErrRPCInvalidParams) (cmderr_Error err))\<rparr>
           | _ \<Rightarrow> parsedCmd\<lparr>p_err := Some (NewRPCError (Code ErrRPCInvalidParams) (cmderr_Error err))\<rparr>)
      | Inr c \<Rightarrow> parsedCmd\<lparr>p_cmd := Some c\<rparr>)"

definition standardCmdResult :: "parsedRPCCmd \<Rightarrow> handler_err + iface" where
  "standardCmdResult c =
     (case (case rpcHandlers (p_method c) of
              Some h \<Rightarrow> Some h
            | None \<Rightarrow>
                if p_method c \<in> set rpcAskWallet then Some handleAskWallet
                else if p_method c \<in> set rpcUnimplemented then Some handleUnimplemented
                else None) of
        None \<Rightarrow> Inl (RpcErr ErrRPCMethodNotFound)
      | Some handler \<Rightarrow>
          (case p_cmd c of
             Some cmd1 \<Rightarrow> handler cmd1
           | None \<Rightarrow> Inl (HandlerPanic ''interface conversion'')))"

text \<open>\<open>Inl\<close> is a panic; \<open>Inr None\<close> is the nil reply.\<close>

definition malformed :: RPCError where
  "malformed = \<lparr>Code = Code ErrRPCInvalidRequest, Message = ''Invalid request: malformed''\<rparr>"

definition nil_on_error :: "json jresult \<Rightarrow> json option" where
  "nil_on_error m = (case m of Inl err \<Rightarrow> None | Inr msg \<Rightarrow> Some msg)"

definition processRequest :: "registry \<Rightarrow> Request \<Rightarrow> bool \<Rightarrow> string + json option" where
  "processRequest reg request isAdmin =
     (let reply = (\<lambda>result err. Inr (nil_on_error
            (createMarshalledReply (req_Jsonrpc request) (req_ID request) result err)));
          jsonErr = (if \<not> isAdmin \<and> req_Method request \<notin> set rpcLimited
            then Some (internalRPCError ''limited user not authorized for this method'' []) else None)
      in case jsonErr of
           Some e \<Rightarrow> reply None (Some (RpcErr e))
         | None \<Rightarrow>
             if req_Method request = [] \<or> req_Params request = None then reply None (Some (RpcErr malformed))
             else if req_ID request = None then Inr None
             else
               let parsedCmd = parseCmd reg request in
               case p_err parsedCmd of
                 Some e \<Rightarrow> reply None (Some (RpcErr e))
               | None \<Rightarrow>
                   (case standardCmdResult parsedCmd of
                      Inr result \<Rightarrow> reply result None
                    | Inl (RpcErr e) \<Rightarrow> reply None (Some (RpcErr e))
                    | Inl (OtherErr e) \<Rightarrow> reply None (Some (RpcErr malformed))
                    | Inl (HandlerPanic m) \<Rightarrow> Inl m))"

section \<open>Reading requests\<close>

definition zero_Request :: Request where
  "zero_Request = \<lparr>req_Jsonrpc = [], req_Method = [], req_Params = None, req_ID = None\<rparr>"

text \<open>
  \<^verbatim>\<open>json.Unmarshal\<close> into a \<^verbatim>\<open>Request\<close>. A document that is no JSON (\<open>Inl\<close> with the text of the syntax
  error) leaves the request alone. A member of the wrong type is skipped and its error returned at
  the end, so the other fields are filled all the same. Null is no error.
\<close>

definition request_field_error :: "json \<Rightarrow> string \<Rightarrow> string \<Rightarrow> string" where
  "request_field_error j field t =
     ''json: cannot unmarshal '' @ json_kind j @ '' into Go struct field Request.'' @ field @ '' of type '' @ t"

definition first_error :: "string option \<Rightarrow> string \<Rightarrow> string option" where
  "first_error e new = (case e of None \<Rightarrow> Some new | Some x \<Rightarrow> Some x)"

fun unmarshal_request_member :: "string \<times> json \<Rightarrow> Request \<times> string option \<Rightarrow> Request \<times> string option" where
  "unmarshal_request_member (k, j) (r, e) =
     (if to_lower k = ''jsonrpc'' then
        (case j of JString s \<Rightarrow> (r\<lparr>req_Jsonrpc := s\<rparr>, e) | JNull \<Rightarrow> (r, e)
         | _ \<Rightarrow> (r, first_error e (request_field_error j ''jsonrpc'' ''acbcjson.RPCVersion'')))
      else if to_lower k = ''method'' then
        (case j of JString s \<Rightarrow> (r\<lparr>req_Method := s\<rparr>, e) | JNull \<Rightarrow> (r, e)
         | _ \<Rightarrow> (r, first_error e (request_field_error j ''method'' ''string'')))
      else if to_lower k = ''params'' then
        (case j of JArray js \<Rightarrow> (r\<lparr>req_Params := Some js\<rparr>, e) | JNull \<Rightarrow> (r\<lparr>req_Params := None\<rparr>, e)
         | _ \<Rightarrow> (r, first_error e (request_field_error j ''params'' ''[]json.RawMessage'')))
      else if to_lower k = ''id'' then (r\<lparr>req_ID := iface_of j\<rparr>, e)
      else (r, e))"

definition Unmarshal_Request :: "string + json \<Rightarrow> Request \<times> string option" where
  "Unmarshal_Request doc =
     (case doc of
        Inl err \<Rightarrow> (zero_Request, Some err)
      | Inr (JObject kvs) \<Rightarrow> fold unmarshal_request_member kvs (zero_Request, None)
      | Inr JNull \<Rightarrow> (zero_Request, None)
      | Inr j \<Rightarrow> (zero_Request,
          Some (''json: cannot unmarshal '' @ json_kind j @ '' into Go value of type acbcjson.Request'')))"

text \<open>
  The body of an HTTP request: whether its first byte is \<^verbatim>\<open>[\<close>, and the document in it. The results of
  the single case are \<open>None\<close> when the handler returns without writing anything.
\<close>

record http_body =
  starts_with_bracket :: bool
  document :: "string + json"

definition jsonRPCRead_single ::
  "rpc_config \<Rightarrow> registry \<Rightarrow> bool \<Rightarrow> string + json \<Rightarrow> string + json list option" where
  "jsonRPCRead_single cfg reg isAdmin doc =
     (let (req, err) = Unmarshal_Request doc;
          (resp, err) =
            (case err of
               None \<Rightarrow> (None, None)
             | Some e \<Rightarrow>
                 let jsonErr = \<lparr>Code = Code ErrRPCParse, Message = ''Failed to parse request: '' @ e\<rparr> in
                 (case MarshalResponse RpcVersion1 None None (Some jsonErr) of
                    Inr msg \<Rightarrow> (Some msg, None)
                  | Inl e \<Rightarrow> (None, Some e)))
      in
        if err = None then
          if req_ID req = None \<and> \<not> (RPCQuirks cfg \<and> req_Jsonrpc req = []) then Inr None
          else
            (case processRequest reg req isAdmin of
               Inl m \<Rightarrow> Inl m
             | Inr resp \<Rightarrow> Inr (Some (case resp of None \<Rightarrow> [] | Some r \<Rightarrow> [r])))
        else Inr (Some (case resp of None \<Rightarrow> [] | Some r \<Rightarrow> [r])))"

text \<open>
  \<^verbatim>\<open>json.Marshal\<close> of an entry that was decoded into an empty interface: object members are sorted by
  key, and of members with the same key the last remains.
\<close>

definition canon_members :: "(string \<times> json) list \<Rightarrow> (string \<times> json) list" where
  "canon_members kvs = map (\<lambda>k. (k, the (map_of (rev kvs) k))) (sort (remdups (map fst kvs)))"

fun remarshal :: "json \<Rightarrow> json" where
  "remarshal (JArray js) = JArray (map remarshal js)"
| "remarshal (JObject kvs) = JObject (canon_members (map (\<lambda>(k, j). (k, remarshal j)) kvs))"
| "remarshal j = j"

primrec jsonRPCRead_entries :: "registry \<Rightarrow> bool \<Rightarrow> json list \<Rightarrow> string + json list" where
  "jsonRPCRead_entries reg isAdmin [] = Inr []"
| "jsonRPCRead_entries reg isAdmin (entry # es) =
     (let (req, err) = Unmarshal_Request (Inr (remarshal entry)) in
      case (case err of
              Some e \<Rightarrow>
                let jsonErr = \<lparr>Code = Code ErrRPCInvalidRequest, Message = ''Invalid request: '' @ e\<rparr>
                in Inr (nil_on_error (MarshalResponse [] None None (Some jsonErr)))
            | None \<Rightarrow> processRequest reg req isAdmin) of
        Inl m \<Rightarrow> Inl m
      | Inr resp \<Rightarrow>
          bindR (jsonRPCRead_entries reg isAdmin es) (\<lambda>results.
            Inr (case resp of None \<Rightarrow> results | Some r \<Rightarrow> r # results)))"

definition Unmarshal_batch :: "string + json \<Rightarrow> json list \<times> string option" where
  "Unmarshal_batch doc =
     (case doc of
        Inl err \<Rightarrow> ([], Some err)
      | Inr (JArray js) \<Rightarrow> (js, None)
      | Inr JNull \<Rightarrow> ([], None)
      | Inr j \<Rightarrow> ([], Some (''json: cannot unmarshal '' @ json_kind j @ '' into Go value of type []interface {}'')))"

text \<open>The results of a batch with the batch size. The error of the parse reply replaces the parse error.\<close>

definition jsonRPCRead_batch :: "registry \<Rightarrow> bool \<Rightarrow> string + json \<Rightarrow> string + (json list \<times> nat)" where
  "jsonRPCRead_batch reg isAdmin doc =
     (let (batchedRequests, err) = Unmarshal_batch doc;
          parse_reply = (case err of
              None \<Rightarrow> Inr []
            | Some e \<Rightarrow>
                map_sum id (\<lambda>msg. [msg]) (MarshalResponse RpcVersion2 None None
                  (Some \<lparr>Code = Code ErrRPCParse, Message = ''Failed to parse request: '' @ e\<rparr>)))
      in case parse_reply of
           Inl _ \<Rightarrow> Inr ([], 0)
         | Inr results \<Rightarrow>
             if length batchedRequests = 0 then
               Inr (results @ (case nil_on_error (MarshalResponse RpcVersion2 None None
                        (Some \<lparr>Code = Code ErrRPCInvalidRequest, Message = ''Invalid request: empty batch''\<rparr>)) of
                      None \<Rightarrow> [] | Some r \<Rightarrow> [r]), 0)
             else
               bindR (jsonRPCRead_entries reg isAdmin batchedRequests) (\<lambda>rs.
                 Inr (results @ rs, length batchedRequests)))"

fun batch_text :: "string list \<Rightarrow> string" where
  "batch_text [] = []"
| "batch_text [reply] = reply @ '']''"
| "batch_text (reply # rs) = reply @ '','' @ batch_text rs"

text \<open>The message: the array of the replies to a batch, the first reply otherwise.\<close>

definition jsonRPCRead_msg :: "bool \<Rightarrow> nat \<Rightarrow> json list \<Rightarrow> string" where
  "jsonRPCRead_msg batchedRequest batchSize results =
     (if batchedRequest \<and> batchSize > 0
      then if length results > 0 then ''['' @ batch_text (map json_String results) else []
      else if length results > 0 then json_String (results ! 0) else [])"

section \<open>Writing responses\<close>

text \<open>\<^verbatim>\<open>http.StatusText\<close> of the codes the server uses; other codes it knows are not used here.\<close>

definition StatusText :: "int \<Rightarrow> string" where
  "StatusText code =
     (if code = 200 then ''OK'' else if code = 400 then ''Bad Request'' else if code = 401 then ''Unauthorized''
      else if code = 500 then ''Internal Server Error'' else if code = 503 then ''Service Unavailable'' else [])"

definition crlf :: string where "crlf = [CHR 0x0D, CHR 0x0A]"

definition httpStatusLine :: "rpcServer \<Rightarrow> bool \<Rightarrow> int \<Rightarrow> string \<times> rpcServer" where
  "httpStatusLine s proto11 code =
     (let key = (if \<not> proto11 then - code else code) in
      case statusLines s key of
        Some line \<Rightarrow> (line, s)
      | None \<Rightarrow>
          let proto = (if proto11 then ''HTTP/1.1'' else ''HTTP/1.0'');
              codeStr = fmt_d code;
              text1 = StatusText code
          in if text1 \<noteq> []
             then let line = proto @ '' '' @ codeStr @ '' '' @ text1 @ crlf
                  in (line, s\<lparr>statusLines := (statusLines s)(key \<mapsto> line)\<rparr>)
             else let text1 = ''status code '' @ codeStr
                  in (proto @ '' '' @ codeStr @ '' '' @ text1 @ crlf, s))"

definition writeHTTPResponseHeaders ::
  "rpcServer \<Rightarrow> bool \<Rightarrow> string \<Rightarrow> int \<Rightarrow> writer \<Rightarrow> (goerr option \<times> writer) \<times> rpcServer" where
  "writeHTTPResponseHeaders s proto11 headers code w =
     (let (line, s) = httpStatusLine s proto11 code in
      (seqW (Write (string_bytes line)) (seqW (Write (string_bytes headers)) (Write (string_bytes crlf))) w, s))"

text \<open>
  What a handler does to the connection: nothing, an error through \<^verbatim>\<open>http.Error\<close>, the bytes written to
  the hijacked connection, or a panic.
\<close>

datatype http_result = NoResponse | HttpError int string | Hijacked writer | Panicked string

datatype hijack = HijackUnsupported | HijackFailed string | HijackOk writer

record http_request =
  rq_auth :: "string list"
  rq_body :: "string + http_body"
  rq_hijack :: hijack
  rq_proto11 :: bool
  rq_headers :: string

definition jsonRPCRead_write :: "rpcServer \<Rightarrow> http_request \<Rightarrow> string \<Rightarrow> writer \<Rightarrow> writer \<times> rpcServer" where
  "jsonRPCRead_write s r msg buf =
     (case writeHTTPResponseHeaders s (rq_proto11 r) (rq_headers r) 200 buf of
        ((Some err, buf), s) \<Rightarrow> (buf, s)
      | ((None, buf), s) \<Rightarrow>
          let (_, buf) = Write (string_bytes msg) buf; (_, buf) = Write (string_bytes [CHR 0x0A]) buf
          in (buf, s))"

definition jsonRPCRead ::
  "rpc_config \<Rightarrow> registry \<Rightarrow> rpcServer \<Rightarrow> http_request \<Rightarrow> bool \<Rightarrow> http_result \<times> rpcServer" where
  "jsonRPCRead cfg reg s r isAdmin =
     (if rpc_shutdown s \<noteq> 0 then (NoResponse, s)
      else case rq_body r of
        Inl err \<Rightarrow> (HttpError 400 (fmt_d 400 @ '' error reading JSON message: '' @ err), s)
      | Inr body \<Rightarrow>
          (case rq_hijack r of
             HijackUnsupported \<Rightarrow> (HttpError 500 (fmt_d 500 @ '' webserver doesn'' @ [CHR 0x27] @ ''t support hijacking''), s)
           | HijackFailed err \<Rightarrow> (HttpError 500 (fmt_d 500 @ '' '' @ err), s)
           | HijackOk buf \<Rightarrow>
               let batchedRequest = starts_with_bracket body in
               case (if batchedRequest
                     then map_sum id Some (jsonRPCRead_batch reg isAdmin (document body))
                     else map_sum id (map_option (\<lambda>rs. (rs, 0))) (jsonRPCRead_single cfg reg isAdmin (document body))) of
                 Inl m \<Rightarrow> (Panicked m, s)
               | Inr None \<Rightarrow> (Hijacked buf, s)
               | Inr (Some (results, batchSize)) \<Rightarrow>
                   let (buf, s) = jsonRPCRead_write s r (jsonRPCRead_msg batchedRequest batchSize results) buf
                   in (Hijacked buf, s)))"

section \<open>The HTTP handler, start and stop\<close>

text \<open>The handler for \<^verbatim>\<open>/\<close>; \<^verbatim>\<open>decrementClients\<close> is deferred, so it runs on every path, a panic included.\<close>

definition Start_root_handler ::
  "rpc_config \<Rightarrow> registry \<Rightarrow> rpcServer \<Rightarrow> http_request \<Rightarrow> http_result \<times> rpcServer" where
  "Start_root_handler cfg reg s r =
     (if limitConnections cfg s then (HttpError 503 ''503 Too busy.  Try again later.'', s)
      else
        let s = incrementClients s;
            (_, isAdmin, err) = checkAuth s (rq_auth r) True;
            (res, s) = (case err of
               Some _ \<Rightarrow> (HttpError 401 ''401 Unauthorized.'', s)
             | None \<Rightarrow> jsonRPCRead cfg reg s r isAdmin)
        in (res, decrementClients s))"

text \<open>The handler for \<^verbatim>\<open>/ws\<close>: whether the connection is upgraded, and with which rights.\<close>

definition Start_ws_handler :: "rpcServer \<Rightarrow> string list \<Rightarrow> bool \<Rightarrow> http_result + (bool \<times> bool)" where
  "Start_ws_handler s authhdr upgrade_ok =
     (let (authenticated, isAdmin, err) = checkAuth s authhdr False in
      case err of
        Some _ \<Rightarrow> Inl (HttpError 401 ''401 Unauthorized.'')
      | None \<Rightarrow> if \<not> upgrade_ok then Inl (HttpError 400 ''400 Bad Request.'')
                else Inr (authenticated, isAdmin))"

definition Start :: "rpcServer \<Rightarrow> rpcServer" where
  "Start s =
     (let s = s\<lparr>rpc_started := rpc_started s + 1\<rparr> in
      if rpc_started s \<noteq> 1 then s else s\<lparr>ntfnMgr_running := True\<rparr>)"

fun first_close_error :: "string option list \<Rightarrow> string option" where
  "first_close_error [] = None"
| "first_close_error (l # ls) = (case l of Some err \<Rightarrow> Some err | None \<Rightarrow> first_close_error ls)"

text \<open>Closing a closed channel panics: \<open>Inl\<close>. The error \<^verbatim>\<open>Stop\<close> returns is in the pair.\<close>

definition close_ntfnMgr :: "rpcServer \<Rightarrow> string + rpcServer" where
  "close_ntfnMgr s =
     (if ntfnMgr_quit_closed s then Inl ''close of closed channel''
      else Inr (s\<lparr>ntfnMgr_quit_closed := True, ntfnMgr_running := False\<rparr>))"

definition close_quit :: "rpcServer \<Rightarrow> string + rpcServer" where
  "close_quit s =
     (if rpc_quit_closed s then Inl ''close of closed channel'' else Inr (s\<lparr>rpc_quit_closed := True\<rparr>))"

definition Stop :: "rpcServer \<Rightarrow> string + (string option \<times> rpcServer)" where
  "Stop s =
     (let s = s\<lparr>rpc_shutdown := rpc_shutdown s + 1\<rparr> in
      if rpc_shutdown s \<noteq> 1 then Inr (None, s)
      else case first_close_error (rpc_listeners s) of
        Some err \<Rightarrow> Inr (Some err, s)
      | None \<Rightarrow> bindR (close_ntfnMgr s) (\<lambda>s. bindR (close_quit s) (\<lambda>s. Inr (None, s))))"

section \<open>Lemmas\<close>

lemma xor_0_iff: "a XOR b = 0 \<longleftrightarrow> a = (b :: byte)"
  by (metis xor.assoc xor.left_neutral xor.right_neutral xor_self_eq)

lemma or_fold_0:
  "fold (\<lambda>(a, b) v. v OR (a XOR b)) ps v = (0 :: byte) \<longleftrightarrow> v = 0 \<and> (\<forall>(a, b) \<in> set ps. a = b)"
  by (induction ps arbitrary: v) (auto simp: or_eq_0_iff xor_0_iff)

lemma ConstantTimeCompare_eq: "ConstantTimeCompare x y = 1 \<longleftrightarrow> x = y"
proof (cases "length x = length y")
  case True
  then have "(\<forall>(a, b) \<in> set (zip x y). a = b) \<longleftrightarrow> x = y"
    by (induction x y rule: list_induct2) auto
  with True show ?thesis by (simp add: ConstantTimeCompare_def or_fold_0)
qed (auto simp: ConstantTimeCompare_def)

lemma ConstantTimeCompare_Suc [simp]: "ConstantTimeCompare x y = Suc 0 \<longleftrightarrow> x = y"
  using ConstantTimeCompare_eq by simp

lemma Response_json_Inr:
  "Response_json r = Inr j \<longleftrightarrow> (\<exists>i. (case resp_ID r of None \<Rightarrow> Inr JNull | Some a \<Rightarrow> json_Marshal_iface a) = Inr i \<and>
     j = JObject [(''jsonrpc'', JString (resp_Jsonrpc r)), (''result'', resp_Result r),
                  (''error'', RPCError_json (resp_Error r)), (''id'', i)])"
  by (auto simp: Response_json_def bindR_Inr_conv)

text \<open>A marshalled response has the version and the id it was given.\<close>

definition reply_json :: "RPCVersion \<Rightarrow> json \<Rightarrow> RPCError option \<Rightarrow> json \<Rightarrow> json" where
  "reply_json ver result err i =
     JObject [(''jsonrpc'', JString ver), (''result'', result), (''error'', RPCError_json err), (''id'', i)]"

lemma MarshalResponse_Inr:
  "MarshalResponse ver id1 result err = Inr j \<longleftrightarrow>
     RPCVersion_IsValid ver \<and> IsValidIDType id1 \<and>
     (\<exists>res i. json_Marshal_iface result = Inr res \<and> json_Marshal_iface id1 = Inr i \<and> j = reply_json ver res err i)"
  by (auto simp: MarshalResponse_def NewResponse_def bindR_Inr_conv Response_json_Inr reply_json_def)

lemma MarshalResponse_no_version: "\<not> RPCVersion_IsValid ver \<Longrightarrow> \<exists>e. MarshalResponse ver id1 result err = Inl e"
  by (simp add: MarshalResponse_def)

lemma RPCVersion_IsValid_iff: "RPCVersion_IsValid ver \<longleftrightarrow> ver = ''1.0'' \<or> ver = ''2.0''"
  by (auto simp: RPCVersion_IsValid_def validRpcVersions_def RpcVersion1_def RpcVersion2_def)

lemma createMarshalledReply_Inr:
  "createMarshalledReply ver id1 result err = Inr j \<Longrightarrow>
     \<exists>res e i. RPCVersion_IsValid ver \<and> IsValidIDType id1 \<and> json_Marshal_iface result = Inr res \<and>
       json_Marshal_iface id1 = Inr i \<and> j = reply_json ver res e i \<and> (e = None \<longleftrightarrow> err = None)"
  by (auto simp: createMarshalledReply_def MarshalResponse_Inr Let_def split: option.splits handler_err.splits)

lemma createMarshalledReply_no_version:
  "nil_on_error (createMarshalledReply [] id1 result err) = None"
  using MarshalResponse_no_version [of "[]"]
  by (auto simp: createMarshalledReply_def nil_on_error_def RPCVersion_IsValid_iff Let_def split: sum.split)
    (metis Inl_Inr_False)

lemma RPCError_json_JNull: "RPCError_json e = JNull \<longleftrightarrow> e = None"
  by (simp add: RPCError_json_def split: option.split)

subsection \<open>Decimal numbers as hash text\<close>

lemma decimal_digits: "c \<in> hex_digit ` {..<10} \<Longrightarrow> is_hex c \<and> lower c = c"
proof -
  have "\<forall>n \<in> set [0..<10]. is_hex (hex_digit n) \<and> lower (hex_digit n) = hex_digit n" by code_simp
  then show "c \<in> hex_digit ` {..<10} \<Longrightarrow> is_hex c \<and> lower c = c" by auto
qed

lemma fmt_d_length:
  assumes "0 \<le> i" and "i < 2 ^ 63"
  shows "length (fmt_d i) \<le> 64"
proof -
  have "nat i < 10 ^ 19" using assms by simp
  then have "length (fmt_nat 10 (nat i)) \<le> 19" by (intro fmt_nat_length) simp_all
  then show ?thesis using assms(1) by (simp add: fmt_d_def)
qed

lemma NewHashFromStr_decimal:
  assumes "0 \<le> i" and "i < 2 ^ 63"
  shows "\<exists>h. NewHashFromStr (fmt_d i) = Inr h \<and>
    hash_String h = replicate (64 - length (fmt_d i)) (CHR ''0'') @ fmt_d i"
proof -
  have d: "fmt_d i = fmt_nat 10 (nat i)" using assms by (simp add: fmt_d_def)
  have set: "\<forall>c \<in> set (fmt_d i). is_hex c \<and> lower c = c"
  proof
    fix c
    assume "c \<in> set (fmt_d i)"
    then have "c \<in> hex_digit ` {..<10}" using fmt_nat_set [of 10 "nat i"] unfolding d by (simp add: subset_iff)
    then show "is_hex c \<and> lower c = c" by (rule decimal_digits)
  qed
  then have "map lower (fmt_d i) = fmt_d i" by (simp add: map_idI)
  moreover have "list_all is_hex (fmt_d i)" using set by (simp add: list_all_iff)
  ultimately show ?thesis
    using NewHashFromStr_text [of "fmt_d i"] fmt_d_length [OF assms] by (auto simp del: append_eq_append_conv)
qed

lemma NewHashFromStr_negative:
  assumes "i < 0"
  shows "\<exists>e. NewHashFromStr (fmt_d i) = Inl e"
proof -
  have "\<not> is_hex (CHR ''-'')" by code_simp
  then have "\<not> list_all is_hex (fmt_d i)" using assms by (simp add: fmt_d_def)
  then show ?thesis using NewHashFromStr_text [of "fmt_d i"] by simp
qed

text \<open>The command \<^verbatim>\<open>getblockhash\<close> as the registry of the package has it.\<close>

lemma getblockhash_registered:
  assumes "registered = Some reg"
  shows "methodToConcreteType reg ''getblockhash'' = Some (TPtr T_GetBlockHashCmd) \<and>
    (\<exists>info. methodToInfo reg ''getblockhash'' = Some info \<and> maxParams info = 1 \<and> numReqParams info = 1)"
proof -
  have "(case registered of None \<Rightarrow> False
     | Some reg \<Rightarrow> methodToConcreteType reg ''getblockhash'' = Some (TPtr T_GetBlockHashCmd) \<and>
         (case methodToInfo reg ''getblockhash'' of None \<Rightarrow> False
          | Some info \<Rightarrow> maxParams info = 1 \<and> numReqParams info = 1))"
    by code_simp
  then show ?thesis unfolding assms by (simp split: option.splits)
qed

lemma UnmarshalCmd_getblockhash:
  assumes "registered = Some reg" and "- (2 ^ 63) \<le> i" and "i < 2 ^ 63"
  shows "UnmarshalCmd reg \<lparr>req_Jsonrpc = ver, req_Method = ''getblockhash'', req_Params = Some [JInt i], req_ID = id1\<rparr>
    = Inr (NewGetBlockHashCmd i)"
proof -
  obtain info where "methodToInfo reg ''getblockhash'' = Some info" "maxParams info = 1" "numReqParams info = 1"
    and "methodToConcreteType reg ''getblockhash'' = Some (TPtr T_GetBlockHashCmd)"
    using getblockhash_registered [OF assms(1)] by blast
  then show ?thesis
    using assms(2,3)
    by (simp add: UnmarshalCmd_def T_GetBlockHashCmd_def fld_def checkNumParams_def params_of_def
        unmarshal_scalar in_int_def int_bits_def NewGetBlockHashCmd_def)
qed

lemma getblockhash_tables: "''getblockhash'' \<in> set rpcLimited" "[] \<notin> set rpcLimited"
  by (code_simp, code_simp)

section \<open>Authentication\<close>

text \<open>A header is accepted exactly when the digest of its first value is the digest of the limited
  or of the administrator's credentials, and gives the rights of an administrator exactly when it is the
  latter and not the former. Without a header nobody is authenticated, and it is an error where
  authentication is required.\<close>

theorem checkAuth_spec:
  "checkAuth s authhdr require =
     (\<exists>h t. authhdr = h # t \<and> Sum256 (string_bytes h) \<in> {limitauthsha s, authsha s},
      \<exists>h t. authhdr = h # t \<and> Sum256 (string_bytes h) = authsha s \<and> Sum256 (string_bytes h) \<noteq> limitauthsha s,
      if (authhdr = [] \<and> \<not> require) \<or> (\<exists>h t. authhdr = h # t \<and> Sum256 (string_bytes h) \<in> {limitauthsha s, authsha s})
      then None else Some ''auth failure'')"
  by (cases authhdr) (auto simp: checkAuth_def ConstantTimeCompare_eq Let_def)

lemma basic_auth_digest:
  "RPCUser cfg \<noteq> [] \<Longrightarrow> RPCPass cfg \<noteq> [] \<Longrightarrow>
     authsha (newRPCServer cfg lns) = Sum256 (string_bytes (basic_auth (RPCUser cfg) (RPCPass cfg)))"
  "RPCLimitUser cfg \<noteq> [] \<Longrightarrow> RPCLimitPass cfg \<noteq> [] \<Longrightarrow>
     limitauthsha (newRPCServer cfg lns) = Sum256 (string_bytes (basic_auth (RPCLimitUser cfg) (RPCLimitPass cfg)))"
  by (simp_all add: newRPCServer_def)

text \<open>A server with both credentials configured lets the administrator's credentials in with full
  rights, unless their digest is also that of the limited ones, and the limited ones without.\<close>

theorem configured_credentials:
  assumes "RPCUser cfg \<noteq> []" "RPCPass cfg \<noteq> []" "RPCLimitUser cfg \<noteq> []" "RPCLimitPass cfg \<noteq> []"
  shows "checkAuth (newRPCServer cfg lns) (basic_auth (RPCUser cfg) (RPCPass cfg) # hdrs) require =
      (True, authsha (newRPCServer cfg lns) \<noteq> limitauthsha (newRPCServer cfg lns), None) \<and>
    checkAuth (newRPCServer cfg lns) (basic_auth (RPCLimitUser cfg) (RPCLimitPass cfg) # hdrs) require =
      (True, False, None)"
  using assms basic_auth_digest [of cfg lns] by (auto simp: checkAuth_def Let_def)

definition sample_cfg :: rpc_config where
  "sample_cfg = \<lparr>RPCUser = ''u'', RPCPass = ''p'', RPCLimitUser = ''l'', RPCLimitPass = ''q'',
     RPCMaxClients = 2, RPCMaxWebsockets = 25, RPCMaxConcurrentReqs = 20, RPCQuirks = True\<rparr>"

theorem configured_credentials_witness:
  "checkAuth (newRPCServer sample_cfg []) [basic_auth ''l'' ''q''] True = (True, False, None)"
proof -
  have c: "RPCUser sample_cfg = ''u''" "RPCPass sample_cfg = ''p''" "RPCLimitUser sample_cfg = ''l''"
    "RPCLimitPass sample_cfg = ''q''" by (simp_all add: sample_cfg_def)
  from configured_credentials [of sample_cfg "[]" "[]" True] show ?thesis
    unfolding c by (simp only: list.distinct not_False_eq_True simp_thms)
qed

section \<open>Requests\<close>

lemma json_Marshal_iface_None: "json_Marshal_iface None = Inr JNull"
  by (simp add: json_Marshal_iface_def)

lemma nil_on_error_Some: "nil_on_error m = Some j \<longleftrightarrow> m = Inr j" "Some j = nil_on_error m \<longleftrightarrow> m = Inr j"
  by (cases m; auto simp: nil_on_error_def)+

text \<open>The four outcomes of a request: an error reply, nothing, a result, or a panic of the handler.\<close>

abbreviation error_reply :: "Request \<Rightarrow> handler_err \<Rightarrow> json option" where
  "error_reply req e \<equiv> nil_on_error (createMarshalledReply (req_Jsonrpc req) (req_ID req) None (Some e))"

definition may_call :: "Request \<Rightarrow> bool \<Rightarrow> bool" where
  "may_call req isAdmin \<longleftrightarrow> isAdmin \<or> req_Method req \<in> set rpcLimited"

lemma parseCmd_ok:
  assumes "p_err (parseCmd reg req) = None"
  shows "UnmarshalCmd reg req = Inr (the (p_cmd (parseCmd reg req)))" "p_cmd (parseCmd reg req) \<noteq> None"
    "p_method (parseCmd reg req) = req_Method req"
  using assms by (auto simp: parseCmd_def Let_def split: sum.splits cmderr.splits if_splits)

lemma standardCmdResult_ok:
  assumes "standardCmdResult c = Inr r"
  shows "\<exists>h c'. rpcHandlers (p_method c) = Some h \<and> p_cmd c = Some c' \<and> h c' = Inr r"
  using assms by (auto simp: standardCmdResult_def handleAskWallet_def handleUnimplemented_def
      split: option.splits if_splits)

lemma processRequest_dispatch:
  assumes "may_call req isAdmin" "req_Method req \<noteq> []" "req_Params req \<noteq> None" "req_ID req \<noteq> None"
  shows "processRequest reg req isAdmin =
    (case p_err (parseCmd reg req) of
       Some e \<Rightarrow> Inr (error_reply req (RpcErr e))
     | None \<Rightarrow>
         (case standardCmdResult (parseCmd reg req) of
            Inr result \<Rightarrow> Inr (nil_on_error (createMarshalledReply (req_Jsonrpc req) (req_ID req) result None))
          | Inl (RpcErr e) \<Rightarrow> Inr (error_reply req (RpcErr e))
          | Inl (OtherErr e) \<Rightarrow> Inr (error_reply req (RpcErr malformed))
          | Inl (HandlerPanic m) \<Rightarrow> Inl m))"
  using assms by (auto simp: processRequest_def may_call_def Let_def)

lemma processRequest_refused:
  "\<not> may_call req isAdmin \<Longrightarrow> processRequest reg req isAdmin =
     Inr (error_reply req (RpcErr (internalRPCError ''limited user not authorized for this method'' [])))"
  "may_call req isAdmin \<Longrightarrow> req_Method req = [] \<or> req_Params req = None \<Longrightarrow>
     processRequest reg req isAdmin = Inr (error_reply req (RpcErr malformed))"
  "may_call req isAdmin \<Longrightarrow> req_Method req \<noteq> [] \<Longrightarrow> req_Params req \<noteq> None \<Longrightarrow> req_ID req = None \<Longrightarrow>
     processRequest reg req isAdmin = Inr None"
  by (auto simp: processRequest_def may_call_def)

lemma processRequest_cases:
  obtains (error) e where "processRequest reg req isAdmin = Inr (error_reply req e)"
  | (nothing) "processRequest reg req isAdmin = Inr None"
  | (result) h c r where "may_call req isAdmin" "req_ID req \<noteq> None" "rpcHandlers (req_Method req) = Some h"
      "UnmarshalCmd reg req = Inr c" "h c = Inr r"
      "processRequest reg req isAdmin = Inr (nil_on_error (createMarshalledReply (req_Jsonrpc req) (req_ID req) r None))"
  | (panic) m where "may_call req isAdmin" "req_ID req \<noteq> None" "processRequest reg req isAdmin = Inl m"
proof (cases "may_call req isAdmin \<and> req_Method req \<noteq> [] \<and> req_Params req \<noteq> None \<and> req_ID req \<noteq> None")
  case True
  note d = processRequest_dispatch [of req isAdmin reg]
  show thesis
  proof (cases "p_err (parseCmd reg req)")
    case None
    show thesis
    proof (cases "standardCmdResult (parseCmd reg req)")
      case (Inl e)
      then show thesis using True None d that(1,4) by (cases e) auto
    next
      case (Inr r)
      from standardCmdResult_ok [OF Inr] parseCmd_ok [OF None]
      obtain h c where "rpcHandlers (req_Method req) = Some h" "UnmarshalCmd reg req = Inr c" "h c = Inr r" by auto
      with True None Inr d show thesis using that(3) by simp
    qed
  qed (use True d that(1) in auto)
qed (use processRequest_refused [of req isAdmin reg] that(1,2) in blast)

lemma processRequest_shape:
  assumes "processRequest reg req isAdmin = Inr (Some j)"
  shows "\<exists>res e i. j = reply_json (req_Jsonrpc req) res e i \<and> RPCVersion_IsValid (req_Jsonrpc req) \<and>
    IsValidIDType (req_ID req) \<and> json_Marshal_iface (req_ID req) = Inr i \<and>
    (case e of Some _ \<Rightarrow> res = JNull
     | None \<Rightarrow> (isAdmin \<or> req_Method req \<in> set rpcLimited) \<and> req_ID req \<noteq> None \<and>
         (\<exists>h c r. rpcHandlers (req_Method req) = Some h \<and> UnmarshalCmd reg req = Inr c \<and> h c = Inr r \<and>
           json_Marshal_iface r = Inr res))"
proof (cases rule: processRequest_cases [of reg req isAdmin])
  case (error e)
  then have "createMarshalledReply (req_Jsonrpc req) (req_ID req) None (Some e) = Inr j"
    using assms by (simp add: nil_on_error_Some)
  from createMarshalledReply_Inr [OF this] obtain e' i where
    "j = reply_json (req_Jsonrpc req) JNull (Some e') i" "RPCVersion_IsValid (req_Jsonrpc req)"
    "IsValidIDType (req_ID req)" "json_Marshal_iface (req_ID req) = Inr i"
    by (auto simp: json_Marshal_iface_None)
  then show ?thesis by (intro exI [of _ JNull] exI [of _ "Some e'"] exI [of _ i]) simp
next
  case (result h c r)
  then have "createMarshalledReply (req_Jsonrpc req) (req_ID req) r None = Inr j"
    using assms by (simp add: nil_on_error_Some)
  from createMarshalledReply_Inr [OF this] result show ?thesis by (fastforce simp: may_call_def)
qed (use assms in auto)

text \<open>C12: Every reply to a request carries the version and the id of the request, which are valid. A
  reply without an error is the marshalled result of the handler of a registered command whose
  parameters were accepted, for a user who may call it; a reply with an error carries no result.\<close>

theorem processRequest_reply:
  assumes "processRequest reg req isAdmin = Inr (Some j)"
  shows "\<exists>res e i. j = reply_json (req_Jsonrpc req) res e i \<and> RPCVersion_IsValid (req_Jsonrpc req) \<and>
    IsValidIDType (req_ID req) \<and> json_Marshal_iface (req_ID req) = Inr i \<and>
    (case e of Some _ \<Rightarrow> res = JNull
     | None \<Rightarrow> (isAdmin \<or> req_Method req \<in> set rpcLimited) \<and> req_ID req \<noteq> None \<and>
         (\<exists>h c r. rpcHandlers (req_Method req) = Some h \<and> UnmarshalCmd reg req = Inr c \<and> h c = Inr r \<and>
           json_Marshal_iface r = Inr res))"
  by (rule processRequest_shape [OF assms])

lemma createMarshalledReply_result:
  assumes "RPCVersion_IsValid ver" "IsValidIDType id1" "json_Marshal_iface id1 = Inr i"
    and "json_Marshal_iface result = Inr res"
  shows "createMarshalledReply ver id1 result None = Inr (reply_json ver res None i)"
  using assms by (simp add: createMarshalledReply_def MarshalResponse_Inr)

definition getblockhash_request :: "RPCVersion \<Rightarrow> int \<Rightarrow> iface \<Rightarrow> Request" where
  "getblockhash_request ver index id1 =
     \<lparr>req_Jsonrpc = ver, req_Method = ''getblockhash'', req_Params = Some [JInt index], req_ID = id1\<rparr>"

lemma getblockhash_request_simps [simp]:
  "req_Jsonrpc (getblockhash_request ver index id1) = ver" "req_ID (getblockhash_request ver index id1) = id1"
  "req_Method (getblockhash_request ver index id1) = ''getblockhash''"
  "req_Params (getblockhash_request ver index id1) = Some [JInt index]"
  by (simp_all add: getblockhash_request_def)

lemma getblockhash_processed:
  assumes "registered = Some reg" and "- (2 ^ 63) \<le> index" and "index < 2 ^ 63"
    and "RPCVersion_IsValid ver" and "IsValidIDType id1" and "id1 \<noteq> None" and "json_Marshal_iface id1 = Inr i"
  shows "processRequest reg (getblockhash_request ver index id1) isAdmin =
    (if index < 0 then Inl ''invalid memory address or nil pointer dereference''
     else Inr (Some (reply_json ver
       (JString (replicate (64 - length (fmt_d index)) (CHR ''0'') @ fmt_d index)) None i)))"
proof -
  let ?req = "getblockhash_request ver index id1"
  have u: "UnmarshalCmd reg ?req = Inr (NewGetBlockHashCmd index)"
    unfolding getblockhash_request_def by (rule UnmarshalCmd_getblockhash [OF assms(1-3)])
  have p: "parseCmd reg ?req =
    \<lparr>p_jsonrpc = ver, p_id = id1, p_method = ''getblockhash'', p_cmd = Some (NewGetBlockHashCmd index), p_err = None\<rparr>"
    by (simp add: parseCmd_def u)
  have h: "standardCmdResult (parseCmd reg ?req) = handleGetBlockHash (NewGetBlockHashCmd index)"
    by (simp add: p standardCmdResult_def rpcHandlers_def)
  have d: "processRequest reg ?req isAdmin =
    (case handleGetBlockHash (NewGetBlockHashCmd index) of
       Inr result \<Rightarrow> Inr (nil_on_error (createMarshalledReply ver id1 result None))
     | Inl (RpcErr e) \<Rightarrow> Inr (nil_on_error (createMarshalledReply ver id1 None (Some (RpcErr e))))
     | Inl (OtherErr e) \<Rightarrow> Inr (nil_on_error (createMarshalledReply ver id1 None (Some (RpcErr malformed))))
     | Inl (HandlerPanic m) \<Rightarrow> Inl m)"
  proof -
    have "may_call ?req isAdmin" using getblockhash_tables by (simp add: may_call_def)
    from processRequest_dispatch [OF this, of reg] assms(6) show ?thesis
      unfolding h by (auto simp: p split: sum.splits handler_err.splits)
  qed
  show ?thesis
  proof (cases "index < 0")
    case True
    with NewHashFromStr_negative [OF True] d show ?thesis
      by (auto simp: handleGetBlockHash_def NewGetBlockHashCmd_def)
  next
    case False
    then obtain hs where "NewHashFromStr (fmt_d index) = Inr hs"
      "hash_String hs = replicate (64 - length (fmt_d index)) (CHR ''0'') @ fmt_d index"
      using NewHashFromStr_decimal [of index] assms(3) by auto
    with False d show ?thesis
      by (simp add: handleGetBlockHash_def NewGetBlockHashCmd_def createMarshalledReply_result assms
          json_Marshal_iface_def [of "Some (TString, _)"] nil_on_error_def)
  qed
qed

text \<open>\<^verbatim>\<open>getblockhash\<close>, through the whole path from the registry of commands to the reply: for every
  index that fits 64 bits and every valid version and id, an index from 0 on is answered with its decimal
  digits padded to the length of a hash, whoever asks; a negative index makes the handler panic, since
  the error of \<^verbatim>\<open>NewHashFromStr\<close> is ignored.\<close>

theorem getblockhash_reply:
  assumes "registered = Some reg" and "- (2 ^ 63) \<le> index" and "index < 2 ^ 63"
    and "ver \<in> set validRpcVersions" and "IsValidIDType id1" and "id1 \<noteq> None" and "json_Marshal_iface id1 = Inr i"
  shows "processRequest reg
      \<lparr>req_Jsonrpc = ver, req_Method = ''getblockhash'', req_Params = Some [JInt index], req_ID = id1\<rparr> isAdmin =
    (if index < 0 then Inl ''invalid memory address or nil pointer dereference''
     else Inr (Some (JObject [(''jsonrpc'', JString ver),
       (''result'', JString (replicate (64 - length (fmt_d index)) (CHR ''0'') @ fmt_d index)),
       (''error'', JNull), (''id'', i)])))"
proof -
  have "RPCVersion_IsValid ver"
    using assms(4) by (auto simp: RPCVersion_IsValid_iff validRpcVersions_def RpcVersion1_def RpcVersion2_def)
  from getblockhash_processed [OF assms(1-3) this assms(5-7)]
  show ?thesis by (simp add: getblockhash_request_def reply_json_def RPCError_json_def)
qed

theorem getblockhash_reply_witness:
  "\<exists>reg. registered = Some reg \<and>
     processRequest reg \<lparr>req_Jsonrpc = ''1.0'', req_Method = ''getblockhash'', req_Params = Some [JInt 7],
       req_ID = Some (TInt 64, VInt 3)\<rparr> False =
       Inr (Some (JObject [(''jsonrpc'', JString ''1.0''),
         (''result'', JString (replicate 63 (CHR ''0'') @ ''7'')), (''error'', JNull), (''id'', JInt 3)])) \<and>
     processRequest reg \<lparr>req_Jsonrpc = ''1.0'', req_Method = ''getblockhash'', req_Params = Some [JInt (- 1)],
       req_ID = Some (TInt 64, VInt 3)\<rparr> True = Inl ''invalid memory address or nil pointer dereference''"
proof -
  obtain reg where r: "registered = Some reg" using registered_Some by blast
  have v: "''1.0'' \<in> set validRpcVersions" by code_simp
  have i: "json_Marshal_iface (Some (TInt 64, VInt 3)) = Inr (JInt 3)" by code_simp
  have t: "IsValidIDType (Some (TInt 64, VInt 3))" by simp
  have f: "fmt_d 7 = ''7''" by code_simp
  from getblockhash_reply [OF r _ _ v t _ i, of 7 False] getblockhash_reply [OF r _ _ v t _ i, of "- 1" True] r f
  show ?thesis by auto
qed

theorem processRequest_reply_witness:
  "\<exists>reg h c r. registered = Some reg \<and> rpcHandlers ''getblockhash'' = Some h \<and>
     UnmarshalCmd reg (getblockhash_request ''2.0'' 7 (Some (TString, VString ''a''))) = Inr c \<and> h c = Inr r \<and>
     json_Marshal_iface r = Inr (JString (replicate 63 (CHR ''0'') @ ''7''))"
proof -
  let ?id = "Some (TString, VString ''a'')"
  obtain reg where r: "registered = Some reg" using registered_Some by blast
  have v: "RPCVersion_IsValid ''2.0''" by (simp add: RPCVersion_IsValid_iff)
  have i: "json_Marshal_iface ?id = Inr (JString ''a'')" by code_simp
  have f: "fmt_d 7 = ''7''" by code_simp
  have t: "IsValidIDType ?id" by simp
  from getblockhash_processed [OF r _ _ v t _ i, of 7 False] f
  have "processRequest reg (getblockhash_request ''2.0'' 7 ?id) False =
    Inr (Some (reply_json ''2.0'' (JString (replicate 63 (CHR ''0'') @ ''7'')) None (JString ''a'')))" by simp
  from processRequest_reply [OF this] show ?thesis
    using r by (auto simp: reply_json_def RPCError_json_JNull eq_commute [of JNull] split: option.splits)
qed

text \<open>C18: A user without the rights of an administrator gets the same answer to a request for a method
  that is not in \<^verbatim>\<open>rpcLimited\<close> whatever commands are registered and whatever the parameters are: nothing is
  parsed, no handler runs, and the reply, if the version and the id are valid, is the internal error.\<close>

theorem limited_isolation:
  assumes "req_Method req \<notin> set rpcLimited"
  shows "processRequest reg req False = processRequest reg' (req\<lparr>req_Params := params\<rparr>) False \<and>
    (processRequest reg req False = Inr None \<or>
     (\<exists>i. processRequest reg req False = Inr (Some (JObject [(''jsonrpc'', JString (req_Jsonrpc req)),
       (''result'', JNull),
       (''error'', RPCError_json (Some (internalRPCError ''limited user not authorized for this method'' []))),
       (''id'', i)]))))"
proof -
  let ?e = "RpcErr (internalRPCError ''limited user not authorized for this method'' [])"
  have m: "\<not> may_call req False" "\<not> may_call (req\<lparr>req_Params := params\<rparr>) False"
    using assms by (simp_all add: may_call_def)
  have r: "processRequest reg req False = Inr (error_reply req ?e)" by (rule processRequest_refused(1) [OF m(1)])
  moreover have "processRequest reg' (req\<lparr>req_Params := params\<rparr>) False = Inr (error_reply req ?e)"
    using processRequest_refused(1) [OF m(2), of reg'] by simp
  moreover have "error_reply req ?e = None \<or>
    (\<exists>i. error_reply req ?e = Some (JObject [(''jsonrpc'', JString (req_Jsonrpc req)), (''result'', JNull),
       (''error'', RPCError_json (Some (internalRPCError ''limited user not authorized for this method'' []))),
       (''id'', i)]))"
    by (cases "error_reply req ?e")
      (auto simp: nil_on_error_Some createMarshalledReply_def MarshalResponse_Inr reply_json_def json_Marshal_iface_None)
  ultimately show ?thesis by simp
qed

theorem limited_isolation_witness:
  "\<exists>reg. registered = Some reg \<and> (processRequest reg (zero_Request\<lparr>req_Jsonrpc := ''2.0'', req_Method := ''stop''\<rparr>) False = Inr None \<or>
     (\<exists>i. processRequest reg (zero_Request\<lparr>req_Jsonrpc := ''2.0'', req_Method := ''stop''\<rparr>) False = Inr (Some (JObject [(''jsonrpc'', JString ''2.0''),
       (''result'', JNull),
       (''error'', RPCError_json (Some (internalRPCError ''limited user not authorized for this method'' []))),
       (''id'', i)]))))"
proof -
  obtain reg where r: "registered = Some reg" using registered_Some by blast
  have "''stop'' \<notin> set rpcLimited" by code_simp
  then have "req_Method (zero_Request\<lparr>req_Jsonrpc := ''2.0'', req_Method := ''stop''\<rparr>) \<notin> set rpcLimited" by simp
  from limited_isolation [OF this, of reg] r show ?thesis by (auto simp: zero_Request_def)
qed

section \<open>Single requests and batches\<close>

lemma single_parse_reply:
  "\<exists>msg. MarshalResponse RpcVersion1 None None (Some e) = Inr msg"
  by (auto simp: MarshalResponse_Inr RPCVersion_IsValid_iff RpcVersion1_def json_Marshal_iface_None)

lemma jsonRPCRead_single_eq:
  "jsonRPCRead_single cfg reg isAdmin doc =
    (let req = fst (Unmarshal_Request doc) in
     if req_ID req = None \<and> \<not> (RPCQuirks cfg \<and> req_Jsonrpc req = []) then Inr None
     else case processRequest reg req isAdmin of
       Inl m \<Rightarrow> Inl m | Inr resp \<Rightarrow> Inr (Some (case resp of None \<Rightarrow> [] | Some r \<Rightarrow> [r])))"
proof (cases "snd (Unmarshal_Request doc)")
  case (Some e)
  obtain msg where "MarshalResponse RpcVersion1 None None
    (Some \<lparr>Code = Code ErrRPCParse, Message = ''Failed to parse request: '' @ e\<rparr>) = Inr msg"
    using single_parse_reply by blast
  with Some show ?thesis by (cases "Unmarshal_Request doc") (simp add: jsonRPCRead_single_def)
qed (cases "Unmarshal_Request doc"; simp add: jsonRPCRead_single_def)

lemma processRequest_no_version:
  "processRequest reg req isAdmin = Inr (Some j) \<Longrightarrow> req_Jsonrpc req \<noteq> []"
  by (drule processRequest_shape) (auto simp: RPCVersion_IsValid_iff)


text \<open>A request without a method, which is answered whatever the registry holds.\<close>

definition sample_doc :: json where
  "sample_doc = JObject [(''jsonrpc'', JString ''2.0''), (''id'', JInt 1), (''params'', JArray [])]"

lemma sample_single:
  "\<exists>j. jsonRPCRead_single sample_cfg empty_registry True (Inr sample_doc) = Inr (Some [j])"
proof -
  have "(case jsonRPCRead_single sample_cfg empty_registry True (Inr sample_doc) of
     Inr (Some [j]) \<Rightarrow> True | _ \<Rightarrow> False)" by code_simp
  then show ?thesis by (auto split: sum.splits option.splits list.splits)
qed


lemma jsonRPCRead_entries_append:
  "jsonRPCRead_entries reg isAdmin (xs @ ys) =
    bindR (jsonRPCRead_entries reg isAdmin xs) (\<lambda>rs.
      bindR (jsonRPCRead_entries reg isAdmin ys) (\<lambda>ss. Inr (rs @ ss)))"
  by (induction xs)
    (auto simp: bindR_def Let_def split: sum.splits option.splits prod.splits)

lemma jsonRPCRead_entries_parts:
  "jsonRPCRead_entries reg isAdmin es = Inr rs \<Longrightarrow>
    \<exists>rss. list_all2 (\<lambda>e r. jsonRPCRead_entries reg isAdmin [e] = Inr r \<and> length r \<le> 1) es rss \<and> rs = concat rss"
proof (induction es arbitrary: rs)
  case (Cons e es)
  from Cons.prems jsonRPCRead_entries_append [of reg isAdmin "[e]" es]
  obtain r ss where r: "jsonRPCRead_entries reg isAdmin [e] = Inr r" "jsonRPCRead_entries reg isAdmin es = Inr ss"
    and rs: "rs = r @ ss"
    unfolding append.simps by (auto simp: bindR_Inr_conv simp del: jsonRPCRead_entries.simps)
  have "length r \<le> 1"
    using r(1) by (auto simp: bindR_def Let_def split: sum.splits option.splits prod.splits)
  moreover from Cons.IH [OF r(2)] obtain rss where
    "list_all2 (\<lambda>e r. jsonRPCRead_entries reg isAdmin [e] = Inr r \<and> length r \<le> 1) es rss" "ss = concat rss" by blast
  ultimately show ?case using r rs
    by (intro exI [of _ "r # rss"]) (auto simp del: jsonRPCRead_entries.simps)
qed simp

lemma batch_text_eq: "rs \<noteq> [] \<Longrightarrow> ''['' @ batch_text (map json_String rs) = json_String (JArray rs)"
proof (induction rs)
  case (Cons r rs)
  then show ?case by (cases rs) auto
qed simp


lemma sample_batch: "\<exists>rs. jsonRPCRead_batch empty_registry True (Inr (JArray [sample_doc, JInt 5])) = Inr (rs, 2) \<and> length rs = 1"
proof -
  have "(case jsonRPCRead_batch empty_registry True (Inr (JArray [sample_doc, JInt 5])) of
     Inr (rs, n) \<Rightarrow> n = 2 \<and> length rs = 1 | _ \<Rightarrow> False)" by code_simp
  then show ?thesis by (auto split: sum.splits prod.splits)
qed


end
