(* ===== verification/Rpcserver_Conn.thy ===== *)
theory Rpcserver_Conn
  imports Rpcserver
begin

text \<open>
  The connections of the RPC server (\<^verbatim>\<open>rpcserver.go\<close>): one HTTP request from the limit on clients to the
  reply, any number of handlers interleaved at the points where they touch the shared counter, the
  status line cache over a sequence of responses, and repeated calls of \<^verbatim>\<open>Stop\<close>.
\<close>

section \<open>One request\<close>

lemma same_lines: "\<exists>m. s = s\<lparr>statusLines := m\<rparr>"
  by (rule exI [of _ "statusLines s"]) simp

lemma some_lines: "\<exists>m. s\<lparr>statusLines := f\<rparr> = s\<lparr>statusLines := m\<rparr>"
  by blast

lemma httpStatusLine_frame: "\<exists>m. snd (httpStatusLine s p c) = s\<lparr>statusLines := m\<rparr>"
  by (cases "statusLines s (if p then c else - c)")
    (auto simp: httpStatusLine_def Let_def same_lines some_lines)

lemma jsonRPCRead_write_frame: "\<exists>m. snd (jsonRPCRead_write s r msg buf) = s\<lparr>statusLines := m\<rparr>"
proof -
  obtain m where "snd (httpStatusLine s (rq_proto11 r) 200) = s\<lparr>statusLines := m\<rparr>"
    using httpStatusLine_frame by blast
  then show ?thesis
    by (auto simp: jsonRPCRead_write_def writeHTTPResponseHeaders_def Let_def split: prod.splits option.splits)
qed

lemma jsonRPCRead_frame: "\<exists>m. snd (jsonRPCRead cfg reg s r isAdmin) = s\<lparr>statusLines := m\<rparr>"
proof -
  have w: "\<And>msg buf. \<exists>m. snd (jsonRPCRead_write s r msg buf) = s\<lparr>statusLines := m\<rparr>"
    by (rule jsonRPCRead_write_frame)
  show ?thesis
    using same_lines w
    by (auto simp: jsonRPCRead_def Let_def split: sum.splits option.splits hijack.splits prod.splits)
      (metis snd_conv)+
qed

lemma jsonRPCRead_result:
  "fst (jsonRPCRead cfg reg s r isAdmin) \<noteq> HttpError 503 m"
  "rpc_shutdown s \<noteq> 0 \<Longrightarrow> fst (jsonRPCRead cfg reg s r isAdmin) = NoResponse"
  by (auto simp: jsonRPCRead_def Let_def split: sum.splits option.splits hijack.splits prod.splits)

lemma root_handler:
  shows "\<exists>m. snd (Start_root_handler cfg reg s r) = s\<lparr>statusLines := m\<rparr>"
    and "fst (Start_root_handler cfg reg s r) = HttpError 503 ''503 Too busy.  Try again later.''
      \<longleftrightarrow> sint (numClients s + 1) > RPCMaxClients cfg"
    and "(\<exists>w. fst (Start_root_handler cfg reg s r) = Hijacked w) \<or> (\<exists>m. fst (Start_root_handler cfg reg s r) = Panicked m)
      \<Longrightarrow> rpc_shutdown s = 0 \<and> (\<exists>h t. rq_auth r = h # t \<and> Sum256 (string_bytes h) \<in> {limitauthsha s, authsha s})"
proof -
  let ?s = "incrementClients s"
  obtain ok adm err where a: "checkAuth ?s (rq_auth r) True = (ok, adm, err)" by (cases "checkAuth ?s (rq_auth r) True")
  have restore: "decrementClients (?s\<lparr>statusLines := m\<rparr>) = s\<lparr>statusLines := m\<rparr>" for m
    by (simp add: decrementClients_def incrementClients_def)
  obtain m where m: "snd (jsonRPCRead cfg reg ?s r adm) = ?s\<lparr>statusLines := m\<rparr>" using jsonRPCRead_frame by blast
  show "\<exists>m. snd (Start_root_handler cfg reg s r) = s\<lparr>statusLines := m\<rparr>"
  proof (cases "limitConnections cfg s")
    case True
    then show ?thesis by (simp add: Start_root_handler_def same_lines)
  next
    case False
    then show ?thesis
      using a m restore [of m] restore [of "statusLines s"]
      by (cases err) (auto simp: Start_root_handler_def Let_def incrementClients_def same_lines split: prod.splits)
  qed
  show "fst (Start_root_handler cfg reg s r) = HttpError 503 ''503 Too busy.  Try again later.''
      \<longleftrightarrow> sint (numClients s + 1) > RPCMaxClients cfg"
    using jsonRPCRead_result(1) [of cfg reg ?s r adm "''503 Too busy.  Try again later.''"] a
    by (cases err) (auto simp: Start_root_handler_def Let_def limitConnections_def split: prod.splits)
  show "rpc_shutdown s = 0 \<and> (\<exists>h t. rq_auth r = h # t \<and> Sum256 (string_bytes h) \<in> {limitauthsha s, authsha s})"
    if "(\<exists>w. fst (Start_root_handler cfg reg s r) = Hijacked w) \<or> (\<exists>m. fst (Start_root_handler cfg reg s r) = Panicked m)"
  proof -
    have e: "err = None" and sd: "rpc_shutdown s = 0"
      using that a jsonRPCRead_result(2) [of ?s cfg reg r adm]
      by (cases err; auto simp: Start_root_handler_def Let_def incrementClients_def split: prod.splits if_splits)+
    moreover have "\<exists>h t. rq_auth r = h # t \<and> Sum256 (string_bytes h) \<in> {limitauthsha s, authsha s}"
      using a e by (cases "rq_auth r") (auto simp: checkAuth_def Let_def incrementClients_def split: if_splits)
    ultimately show ?thesis by blast
  qed
qed

text \<open>C23: A request to \<^verbatim>\<open>/\<close> leaves the server as it was but for cached status lines, whatever it
  contains and even if its handler panics; in particular the client it was counted as is given back. It
  is turned away with 503 exactly when one more client would exceed the limit. The connection is taken
  over, or a command's handler reached, only for a client whose credentials were accepted while the server
  is not shutting down.\<close>

theorem root_handler_spec:
  "(\<exists>m. snd (Start_root_handler cfg reg s r) = s\<lparr>statusLines := m\<rparr>) \<and>
   (fst (Start_root_handler cfg reg s r) = HttpError 503 ''503 Too busy.  Try again later.''
      \<longleftrightarrow> sint (numClients s + 1) > RPCMaxClients cfg) \<and>
   ((\<exists>w. fst (Start_root_handler cfg reg s r) = Hijacked w) \<or> (\<exists>m. fst (Start_root_handler cfg reg s r) = Panicked m)
      \<longrightarrow> rpc_shutdown s = 0 \<and> (\<exists>h t. rq_auth r = h # t \<and> Sum256 (string_bytes h) \<in> {limitauthsha s, authsha s}))"
  by (intro conjI impI root_handler)

definition sample_server :: rpcServer where
  "sample_server = (newRPCServer sample_cfg [])\<lparr>authsha := Sum256 (string_bytes ''Basic dTpw'')\<rparr>"

definition sample_http :: http_request where
  "sample_http = \<lparr>rq_auth = [''Basic dTpw''],
     rq_body = Inr \<lparr>starts_with_bracket = False, document = Inl ''unexpected end of JSON input''\<rparr>,
     rq_hijack = HijackOk emptyBuffer, rq_proto11 = True, rq_headers = []\<rparr>"

lemma sample_hijacked: "\<exists>w. fst (Start_root_handler (sample_cfg\<lparr>RPCQuirks := False\<rparr>) empty_registry sample_server sample_http) = Hijacked w"
proof -
  have "jsonRPCRead_single (sample_cfg\<lparr>RPCQuirks := False\<rparr>) empty_registry b (Inl ''unexpected end of JSON input'') = Inr None" for b
    by (simp add: jsonRPCRead_single_eq Unmarshal_Request_def zero_Request_def)
  then show ?thesis
    by (auto simp: Start_root_handler_def Let_def limitConnections_def sample_server_def sample_http_def
        newRPCServer_def sample_cfg_def checkAuth_def jsonRPCRead_def incrementClients_def split: prod.splits if_splits)
qed

theorem root_handler_spec_witness:
  "(\<exists>w. fst (Start_root_handler (sample_cfg\<lparr>RPCQuirks := False\<rparr>) empty_registry sample_server sample_http) = Hijacked w) \<and>
   rpc_shutdown sample_server = 0 \<and> (\<exists>h t. rq_auth sample_http = h # t \<and>
     Sum256 (string_bytes h) \<in> {limitauthsha sample_server, authsha sample_server})"
  using sample_hijacked root_handler_spec [of "sample_cfg\<lparr>RPCQuirks := False\<rparr>" empty_registry sample_server sample_http] by blast

section \<open>Handlers in parallel\<close>

text \<open>
  Every request runs in a goroutine of its own. The handlers share \<^verbatim>\<open>numClients\<close>: one of them checks the
  limit, then increments the counter, and decrements it when it returns. Each of these is atomic, but
  other handlers run in between.
\<close>

datatype hpc = Arrived | Passed | Inside | Done

record conns =
  server :: rpcServer
  handlers :: "hpc list"

inductive conn_step :: "rpc_config \<Rightarrow> conns \<Rightarrow> conns \<Rightarrow> bool" for cfg where
  arrive: "conn_step cfg c (c\<lparr>handlers := handlers c @ [Arrived]\<rparr>)"
| refuse: "i < length (handlers c) \<Longrightarrow> handlers c ! i = Arrived \<Longrightarrow> limitConnections cfg (server c) \<Longrightarrow>
    conn_step cfg c (c\<lparr>handlers := (handlers c)[i := Done]\<rparr>)"
| pass: "i < length (handlers c) \<Longrightarrow> handlers c ! i = Arrived \<Longrightarrow> \<not> limitConnections cfg (server c) \<Longrightarrow>
    conn_step cfg c (c\<lparr>handlers := (handlers c)[i := Passed]\<rparr>)"
| enter: "i < length (handlers c) \<Longrightarrow> handlers c ! i = Passed \<Longrightarrow>
    conn_step cfg c (c\<lparr>server := incrementClients (server c), handlers := (handlers c)[i := Inside]\<rparr>)"
| leave: "i < length (handlers c) \<Longrightarrow> handlers c ! i = Inside \<Longrightarrow>
    conn_step cfg c (c\<lparr>server := decrementClients (server c), handlers := (handlers c)[i := Done]\<rparr>)"

definition conn_init :: "conns \<Rightarrow> bool" where
  "conn_init c \<longleftrightarrow> numClients (server c) = 0 \<and> handlers c = []"

definition inside :: "conns \<Rightarrow> nat" where
  "inside c = length (filter (\<lambda>h. h = Inside) (handlers c))"

definition counted :: "conns \<Rightarrow> bool" where
  "counted c \<longleftrightarrow> numClients (server c) = word_of_nat (inside c)"

lemma filter_update:
  "i < length hs \<Longrightarrow> hs ! i \<noteq> x \<Longrightarrow> length (filter (\<lambda>h. h = x) (hs[i := x])) = Suc (length (filter (\<lambda>h. h = x) hs))"
  "i < length hs \<Longrightarrow> hs ! i = x \<Longrightarrow> y \<noteq> x \<Longrightarrow> Suc (length (filter (\<lambda>h. h = x) (hs[i := y]))) = length (filter (\<lambda>h. h = x) hs)"
  "i < length hs \<Longrightarrow> hs ! i \<noteq> x \<Longrightarrow> y \<noteq> x \<Longrightarrow> length (filter (\<lambda>h. h = x) (hs[i := y])) = length (filter (\<lambda>h. h = x) hs)"
  by (induction hs arbitrary: i; force split: nat.splits simp: nth_Cons')+

lemma conn_step_counted: "conn_step cfg c d \<Longrightarrow> counted c \<Longrightarrow> counted d"
proof (induction rule: conn_step.induct)
  case (enter i c)
  then show ?case
    by (simp add: counted_def inside_def incrementClients_def filter_update(1))
next
  case (leave i c)
  then have "inside c = Suc (length (filter (\<lambda>h. h = Inside) ((handlers c)[i := Done])))"
    by (simp add: inside_def filter_update(2))
  with leave show ?case by (simp add: counted_def inside_def decrementClients_def)
qed (simp_all add: counted_def inside_def filter_update(3))

interpretation conns: invariant_system conn_init "conn_step cfg" counted
  by unfold_locales (simp add: conn_init_def counted_def inside_def, rule conn_step_counted)

text \<open>However the handlers interleave, the counter of clients is, at 32 bits, the number of handlers
  between their increment and their decrement.\<close>

theorem numClients_counts:
  assumes "conn_init c" and "rtranclp (conn_step cfg) c d"
  shows "numClients (server d) = word_of_nat (length (filter (\<lambda>h. h = Inside) (handlers d)))"
  using conns.reach_inv [OF assms] by (simp add: counted_def inside_def)

text \<open>The run that passes the limit: all handlers check it before the first is counted.\<close>

lemma arrivals:
  assumes "handlers c = replicate k Passed" and "\<not> limitConnections cfg (server c)"
  shows "rtranclp (conn_step cfg) c (c\<lparr>handlers := replicate (k + n) Passed\<rparr>)"
proof (induction n)
  case 0
  from assms(1) have "c = c\<lparr>handlers := replicate (k + 0) Passed\<rparr>" by (cases c) simp
  then show ?case by (metis rtranclp.rtrancl_refl)
next
  case (Suc n)
  let ?d = "c\<lparr>handlers := replicate (k + n) Passed\<rparr>"
  let ?e = "?d\<lparr>handlers := handlers ?d @ [Arrived]\<rparr>"
  have "conn_step cfg ?d ?e" by (rule conn_step.arrive)
  moreover have "conn_step cfg ?e (?e\<lparr>handlers := (handlers ?e)[k + n := Passed]\<rparr>)"
    using assms(2) by (intro conn_step.pass) (simp_all add: nth_append)
  moreover have "?e\<lparr>handlers := (handlers ?e)[k + n := Passed]\<rparr> = c\<lparr>handlers := replicate (k + Suc n) Passed\<rparr>"
    by (simp add: list_update_append replicate_append_same)
  ultimately show ?case using Suc by (metis rtranclp.rtrancl_into_rtrancl)
qed

lemma entries:
  assumes "handlers c = replicate k Inside @ replicate n Passed"
  shows "\<exists>d. rtranclp (conn_step cfg) c d \<and> handlers d = replicate (k + n) Inside"
  using assms
proof (induction n arbitrary: c k)
  case (Suc n)
  let ?d = "c\<lparr>server := incrementClients (server c), handlers := (handlers c)[k := Inside]\<rparr>"
  have "conn_step cfg c ?d" using Suc.prems by (intro conn_step.enter) (simp_all add: nth_append)
  moreover have "handlers ?d = replicate (Suc k) Inside @ replicate n Passed"
    by (simp add: Suc.prems list_update_append replicate_app_Cons_same)
  ultimately show ?case using Suc.IH [of ?d "Suc k"] by (auto intro: converse_rtranclp_into_rtranclp)
qed auto

text \<open>C24: The check of the limit and the increment are two steps, so the limit does not bound the clients
  served at the same time: with a limit of one or more every number of handlers below \<open>2 ^ 31\<close> can be
  inside, and the counter then shows that number.\<close>

theorem client_limit_exceeded:
  assumes "conn_init c" and "1 \<le> RPCMaxClients cfg" and "n < 2 ^ 31"
  shows "\<exists>d. rtranclp (conn_step cfg) c d \<and> handlers d = replicate n Inside \<and> sint (numClients (server d)) = int n"
proof -
  have "\<not> limitConnections cfg (server c)" using assms(1,2) by (simp add: limitConnections_def conn_init_def)
  from arrivals [OF _ this, of 0 n] assms(1)
  have "rtranclp (conn_step cfg) c (c\<lparr>handlers := replicate n Passed\<rparr>)" by (simp add: conn_init_def)
  moreover obtain d where d: "rtranclp (conn_step cfg) (c\<lparr>handlers := replicate n Passed\<rparr>) d"
    "handlers d = replicate n Inside"
    using entries [of "c\<lparr>handlers := replicate n Passed\<rparr>" 0 n] by auto
  ultimately have r: "rtranclp (conn_step cfg) c d" by simp
  from conns.reach_inv [OF assms(1) r] d(2) have "numClients (server d) = word_of_nat n"
    by (simp add: counted_def inside_def)
  then have "sint (numClients (server d)) = int n"
    using assms(3) by (simp add: signed_of_nat signed_take_bit_int_eq_self)
  with r d(2) show ?thesis by blast
qed

definition sample_conns :: conns where
  "sample_conns = \<lparr>server = newRPCServer sample_cfg [], handlers = []\<rparr>"

lemma sample_conns_init: "conn_init sample_conns"
  by (simp add: conn_init_def sample_conns_def newRPCServer_def)

theorem numClients_counts_witness:
  "numClients (server (sample_conns\<lparr>handlers := [Arrived]\<rparr>)) = 0"
proof -
  have "conn_step sample_cfg sample_conns (sample_conns\<lparr>handlers := [Arrived]\<rparr>)"
    using conn_step.arrive [of sample_cfg sample_conns] by (simp add: sample_conns_def)
  from numClients_counts [OF sample_conns_init r_into_rtranclp [of "conn_step sample_cfg", OF this]]
  show ?thesis by simp
qed

theorem client_limit_exceeded_witness:
  "RPCMaxClients sample_cfg = 2 \<and>
   (\<exists>d. rtranclp (conn_step sample_cfg) sample_conns d \<and> handlers d = replicate 5 Inside \<and> sint (numClients (server d)) = 5)"
  using client_limit_exceeded [OF sample_conns_init, of sample_cfg 5] by (simp add: sample_cfg_def)

section \<open>Stop\<close>

text \<open>The server after so many calls of \<^verbatim>\<open>Stop\<close>.\<close>

primrec stop_times :: "nat \<Rightarrow> rpcServer \<Rightarrow> string + rpcServer" where
  "stop_times 0 s = Inr s"
| "stop_times (Suc n) s = bindR (stop_times n s) (\<lambda>s. map_sum id snd (Stop s))"

definition closes_all :: "rpcServer \<Rightarrow> bool" where
  "closes_all s \<longleftrightarrow> list_all (\<lambda>l. l = None) (rpc_listeners s)"

lemma first_close_error_None: "first_close_error ls = None \<longleftrightarrow> list_all (\<lambda>l. l = None) ls"
  by (induction ls) (auto split: option.splits)

lemma Stop_first:
  assumes "rpc_shutdown s = 0" "\<not> ntfnMgr_quit_closed s" "\<not> rpc_quit_closed s"
  shows "Stop s = Inr (if closes_all s
    then (None, s\<lparr>rpc_shutdown := 1, ntfnMgr_quit_closed := True, ntfnMgr_running := False, rpc_quit_closed := True\<rparr>)
    else (first_close_error (rpc_listeners s), s\<lparr>rpc_shutdown := 1\<rparr>))"
  using assms first_close_error_None [of "rpc_listeners s"]
  by (cases "first_close_error (rpc_listeners s)")
    (auto simp: Stop_def Let_def closes_all_def close_ntfnMgr_def close_quit_def)

lemma Stop_again:
  "rpc_shutdown s \<noteq> 0 \<Longrightarrow> Stop s = Inr (None, s\<lparr>rpc_shutdown := rpc_shutdown s + 1\<rparr>)"
  by (simp add: Stop_def Let_def)

text \<open>\<^verbatim>\<open>Stop\<close> can be called any number of times below \<open>2 ^ 32\<close> and never closes a channel twice. The
  channels are closed by the first call, and only if all listeners could be closed: when one of them
  fails, no later call closes them either.\<close>

theorem Stop_repeated:
  assumes "n < 2 ^ 32"
  shows "\<exists>t. stop_times n (newRPCServer cfg lns) = Inr t \<and> rpc_shutdown t = word_of_nat n \<and>
    (rpc_quit_closed t \<longleftrightarrow> 0 < n \<and> list_all (\<lambda>l. l = None) lns) \<and>
    (ntfnMgr_quit_closed t \<longleftrightarrow> 0 < n \<and> list_all (\<lambda>l. l = None) lns)"
  using assms
proof (induction n)
  case 0
  show ?case by (simp add: newRPCServer_def)
next
  case (Suc n)
  then obtain t where t: "stop_times n (newRPCServer cfg lns) = Inr t" "rpc_shutdown t = word_of_nat n"
    "rpc_quit_closed t \<longleftrightarrow> 0 < n \<and> list_all (\<lambda>l. l = None) lns"
    "ntfnMgr_quit_closed t \<longleftrightarrow> 0 < n \<and> list_all (\<lambda>l. l = None) lns" by auto
  show ?case
  proof (cases n)
    case 0
    with t(1) have "t = newRPCServer cfg lns" by simp
    with Stop_first [of t] t 0 show ?thesis by (simp add: closes_all_def newRPCServer_def)
  next
    case (Suc m)
    have "(word_of_nat n :: int32) \<noteq> 0"
      using Suc Suc.prems by (simp add: word_of_nat_eq_0_iff nat_dvd_not_less del: of_nat_Suc)
    with Stop_again [of t] t Suc show ?thesis by (simp add: add.commute)
  qed
qed

theorem Stop_repeated_witness:
  "\<exists>t. stop_times 3 (newRPCServer sample_cfg [None, None]) = Inr t \<and> rpc_shutdown t = 3 \<and> rpc_quit_closed t"
  using Stop_repeated [of 3 sample_cfg "[None, None]"] by auto

section \<open>The status line cache\<close>

text \<open>The line without a cache, and a sequence of responses on one server.\<close>

definition status_line :: "bool \<Rightarrow> int \<Rightarrow> string" where
  "status_line proto11 code =
     (if proto11 then ''HTTP/1.1'' else ''HTTP/1.0'') @ '' '' @ fmt_d code @ '' '' @
     (if StatusText code \<noteq> [] then StatusText code else ''status code '' @ fmt_d code) @ crlf"

fun serve_lines :: "rpcServer \<Rightarrow> (bool \<times> int) list \<Rightarrow> string list" where
  "serve_lines s [] = []"
| "serve_lines s ((p, c) # rs) = (let (line, s) = httpStatusLine s p c in line # serve_lines s rs)"

definition lines_ok :: "rpcServer \<Rightarrow> bool" where
  "lines_ok s \<longleftrightarrow> (\<forall>k line. statusLines s k = Some line \<longrightarrow> k \<noteq> 0 \<and> line = status_line (0 < k) \<bar>k\<bar>)"

lemma httpStatusLine_miss:
  assumes "statusLines s (if p then c else - c) = None"
  shows "httpStatusLine s p c = (status_line p c,
    if StatusText c \<noteq> [] then s\<lparr>statusLines := (statusLines s)((if p then c else - c) \<mapsto> status_line p c)\<rparr> else s)"
proof -
  have p: "(if \<not> p then - c else c) = (if p then c else - c)" by simp
  show ?thesis
    unfolding httpStatusLine_def Let_def p assms option.case
    by (cases p; cases "StatusText c \<noteq> []"; simp only: status_line_def if_True if_False append_assoc not_True_eq_False not_False_eq_True)
qed

lemma httpStatusLine_ok:
  assumes "lines_ok s" and "0 \<le> c"
  shows "fst (httpStatusLine s p c) = status_line p c \<and> lines_ok (snd (httpStatusLine s p c))"
proof (cases "statusLines s (if p then c else - c)")
  case None
  have "StatusText 0 = []" by (simp add: StatusText_def)
  then have "StatusText c \<noteq> [] \<Longrightarrow> 0 < c" using assms(2) by (cases "c = 0") simp_all
  then have "lines_ok (s\<lparr>statusLines := (statusLines s)((if p then c else - c) \<mapsto> status_line p c)\<rparr>)"
    if "StatusText c \<noteq> []" using assms that by (cases p) (simp_all add: lines_ok_def)
  then show ?thesis using assms(1) by (simp add: httpStatusLine_miss [OF None])
next
  case (Some line)
  then have "httpStatusLine s p c = (line, s)" by (cases p) (simp_all add: httpStatusLine_def)
  moreover have "line = status_line p c"
    using assms Some unfolding lines_ok_def by (cases p) force+
  ultimately show ?thesis using assms(1) by simp
qed

text \<open>The cache of status lines is transparent: over any sequence of responses with either protocol
  version, a new server writes for each of them the line of its own version and code.\<close>

theorem httpStatusLine_cache:
  assumes "list_all (\<lambda>(p, c). 0 \<le> c) rs"
  shows "serve_lines (newRPCServer cfg lns) rs = map (\<lambda>(p, c). status_line p c) rs"
proof -
  have "lines_ok s \<Longrightarrow> list_all (\<lambda>(p, c). 0 \<le> c) rs \<Longrightarrow> serve_lines s rs = map (\<lambda>(p, c). status_line p c) rs" for s
  proof (induction rs arbitrary: s)
    case (Cons r rs)
    obtain p c where r: "r = (p, c)" by (cases r)
    with Cons httpStatusLine_ok [of s c p] show ?case
      by (cases "httpStatusLine s p c") simp
  qed simp
  moreover have "lines_ok (newRPCServer cfg lns)" by (simp add: lines_ok_def newRPCServer_def)
  ultimately show ?thesis using assms by blast
qed

theorem httpStatusLine_cache_witness:
  "serve_lines (newRPCServer sample_cfg []) [(True, 200), (False, 200), (True, 200), (True, 999)] =
     [''HTTP/1.1 200 OK'' @ crlf, ''HTTP/1.0 200 OK'' @ crlf, ''HTTP/1.1 200 OK'' @ crlf,
      ''HTTP/1.1 999 status code 999'' @ crlf]"
proof -
  have f: "fmt_d 200 = ''200''" "fmt_d 999 = ''999''" by (code_simp, code_simp)
  show ?thesis
    using httpStatusLine_cache [of "[(True, 200), (False, 200), (True, 200), (True, 999)]" sample_cfg "[]"] f
    by (simp add: status_line_def StatusText_def)
qed

end
