(* ===== verification/Ws_Queue.thy ===== *)
theory Ws_Queue
  imports Prelude
begin

text \<open>
  The queues of the websocket code (\<^verbatim>\<open>rpcwebsocket.go\<close>): \<^verbatim>\<open>queueHandler\<close>, through which all notifications
  reach the notification manager, and \<^verbatim>\<open>notificationQueueHandler\<close>, which holds back the notifications of
  one client while another is being written. Both keep the promise of a first-in first-out queue, stated
  as a locale that both are interpretations of.
\<close>

section \<open>The contract of a queue\<close>

text \<open>
  A handler takes an item (the flag says whether the other side happens to be ready) or is told that
  the other side is ready, and passes some items on. Nothing is lost, reordered or duplicated, and a
  waiting item is passed on as soon as the other side is ready.
\<close>

locale fifo =
  fixes put :: "bool \<Rightarrow> 'a \<Rightarrow> 's \<Rightarrow> 'a list \<times> 's"
    and get :: "'s \<Rightarrow> 'a list \<times> 's"
    and queued :: "'s \<Rightarrow> 'a list"
    and inv :: "'s \<Rightarrow> bool"
  assumes put_inv: "inv s \<Longrightarrow> inv (snd (put b x s))"
    and get_inv: "inv s \<Longrightarrow> inv (snd (get s))"
    and put_queued: "inv s \<Longrightarrow> fst (put b x s) @ queued (snd (put b x s)) = queued s @ [x]"
    and get_queued: "inv s \<Longrightarrow> fst (get s) @ queued (snd (get s)) = queued s"
    and get_one: "inv s \<Longrightarrow> length (fst (get s)) = min 1 (length (queued s))"
begin

text \<open>A run: \<open>Some (b, x)\<close> is an item that arrives, \<open>None\<close> the other side becoming ready.\<close>

primrec run :: "(bool \<times> 'a) option list \<Rightarrow> 's \<Rightarrow> 'a list \<times> 's" where
  "run [] s = ([], s)"
| "run (e # es) s =
     (let (out, s) = (case e of Some (b, x) \<Rightarrow> put b x s | None \<Rightarrow> get s); (outs, s) = run es s
      in (out @ outs, s))"

definition arrived :: "(bool \<times> 'a) option list \<Rightarrow> 'a list" where
  "arrived es = concat (map (\<lambda>e. case e of Some (b, x) \<Rightarrow> [x] | None \<Rightarrow> []) es)"

lemma run_inv: "inv s \<Longrightarrow> inv (snd (run es s))"
proof (induction es arbitrary: s)
  case (Cons e es)
  then have "inv (snd (case e of Some (b, x) \<Rightarrow> put b x s | None \<Rightarrow> get s))"
    by (auto split: option.split intro: put_inv get_inv)
  with Cons.IH show ?case by (simp add: Let_def split: prod.splits) (metis snd_conv)
qed simp

lemma run_fifo: "inv s \<Longrightarrow> fst (run es s) @ queued (snd (run es s)) = queued s @ arrived es"
proof (induction es arbitrary: s)
  case (Cons e es)
  define r where "r = (case e of Some (b, x) \<Rightarrow> put b x s | None \<Rightarrow> get s)"
  have i: "inv (snd r)" using Cons.prems by (auto simp: r_def split: option.split intro: put_inv get_inv)
  have "fst r @ queued (snd r) = queued s @ (case e of Some (b, x) \<Rightarrow> [x] | None \<Rightarrow> [])"
    using put_queued [OF Cons.prems] get_queued [OF Cons.prems] by (auto simp: r_def split: option.split)
  moreover have "fst (run (e # es) s) = fst r @ fst (run es (snd r))" "snd (run (e # es) s) = snd (run es (snd r))"
    by (simp_all add: r_def Let_def split: prod.splits)
  moreover have "arrived (e # es) = (case e of Some (b, x) \<Rightarrow> [x] | None \<Rightarrow> []) @ arrived es"
    by (simp add: arrived_def)
  ultimately show ?case using Cons.IH [OF i] by (metis append.assoc)
qed (simp add: arrived_def)

lemma get_length: "inv s \<Longrightarrow> length (queued (snd (get s))) = length (queued s) - 1"
  using get_queued [of s] get_one [of s] by (metis One_nat_def add_diff_cancel_left' diff_0_eq_0
      length_0_conv length_append list.size(3) min_def not_less_eq_eq zero_le gr0I less_one linorder_not_less)

lemma run_get: "snd (run (None # es) s) = snd (run es (snd (get s)))"
  by (simp add: Let_def split: prod.splits)

lemma run_drains: "inv s \<Longrightarrow> length (queued s) \<le> n \<Longrightarrow> queued (snd (run (replicate n None) s)) = []"
proof (induction n arbitrary: s)
  case (Suc n)
  then have "length (queued (snd (get s))) \<le> n" using get_length by simp
  with Suc.IH [OF get_inv [OF Suc.prems(1)]] show ?case unfolding replicate_Suc run_get .
qed simp

text \<open>Whatever the order of events, once no more items arrive the queue empties and everything has
  been passed on in order.\<close>

lemma run_delivers:
  assumes "inv s" and "queued s = []" and "length (queued (snd (run es s))) \<le> n"
  shows "fst (run es s) @ fst (run (replicate n None) (snd (run es s))) = arrived es"
proof -
  let ?t = "snd (run es s)"
  have i: "inv ?t" using assms(1) by (rule run_inv)
  have "arrived (replicate n None) = []" by (simp add: arrived_def)
  with run_fifo [OF i, of "replicate n None"] run_drains [OF i assms(3)] run_fifo [OF assms(1), of es] assms(2)
  show ?thesis by simp
qed

end


section \<open>The queue of the notification manager\<close>

text \<open>
  The variables of \<^verbatim>\<open>queueHandler\<close>. A nil channel is one whose case of the select is disabled:
  \<open>dequeue\<close> and \<open>skipQueue\<close> say whether they are not nil. \<open>next\<close> is the item the enabled
  \<^verbatim>\<open>dequeue\<close> case would send; it keeps an old value while the case is disabled.
\<close>

record 'a queue_handler =
  q :: "'a list"
  dequeue :: bool
  skipQueue :: bool
  next_item :: "'a option"

definition queueHandler_init :: "'a queue_handler" where
  "queueHandler_init = \<lparr>q = [], dequeue = False, skipQueue = True, next_item = None\<rparr>"

text \<open>The case \<^verbatim>\<open>n, ok := <-in\<close>; the flag says whether the reader of \<^verbatim>\<open>out\<close> is ready.\<close>

definition queueHandler_in :: "bool \<Rightarrow> 'a \<Rightarrow> 'a queue_handler \<Rightarrow> 'a list \<times> 'a queue_handler" where
  "queueHandler_in ready n h =
     (if skipQueue h \<and> ready then ([n], h)
      else
        let q' = q h @ [n]
        in ([], h\<lparr>q := q', dequeue := True, skipQueue := False, next_item := Some (hd q')\<rparr>))"

text \<open>The case \<^verbatim>\<open>dequeue <- next\<close>, when the reader is ready.\<close>

definition queueHandler_dequeue :: "'a queue_handler \<Rightarrow> 'a list \<times> 'a queue_handler" where
  "queueHandler_dequeue h =
     (if \<not> dequeue h then ([], h)
      else
        let out = (case next_item h of None \<Rightarrow> [] | Some n \<Rightarrow> [n]); q' = tl (q h)
        in (out,
            if length q' = 0 then h\<lparr>q := q', dequeue := False, skipQueue := True\<rparr>
            else h\<lparr>q := q', next_item := Some (hd q')\<rparr>))"

definition queueHandler_ok :: "'a queue_handler \<Rightarrow> bool" where
  "queueHandler_ok h \<longleftrightarrow>
     (dequeue h \<longleftrightarrow> q h \<noteq> []) \<and> (skipQueue h \<longleftrightarrow> q h = []) \<and> (q h \<noteq> [] \<longrightarrow> next_item h = Some (hd (q h)))"

interpretation manager_queue: fifo queueHandler_in queueHandler_dequeue q queueHandler_ok
  by unfold_locales
    (auto simp: queueHandler_in_def queueHandler_dequeue_def queueHandler_ok_def Let_def neq_Nil_conv hd_append)

section \<open>The queue of a client\<close>

record ntfn_queue =
  pendingNtfns :: "string list"
  waiting :: bool

definition ntfn_queue_init :: ntfn_queue where
  "ntfn_queue_init = \<lparr>pendingNtfns = [], waiting = False\<rparr>"

text \<open>The case \<^verbatim>\<open>msg := <-c.ntfnChan\<close>: the first component is what is given to \<^verbatim>\<open>SendMessage\<close>.\<close>

definition ntfn_in :: "string \<Rightarrow> ntfn_queue \<Rightarrow> string list \<times> ntfn_queue" where
  "ntfn_in msg s =
     (let (out, s) = (if \<not> waiting s then ([msg], s) else ([], s\<lparr>pendingNtfns := pendingNtfns s @ [msg]\<rparr>))
      in (out, s\<lparr>waiting := True\<rparr>))"

text \<open>The case \<^verbatim>\<open><-ntfnSentChan\<close>.\<close>

definition ntfn_sent :: "ntfn_queue \<Rightarrow> string list \<times> ntfn_queue" where
  "ntfn_sent s =
     (case pendingNtfns s of
        [] \<Rightarrow> ([], s\<lparr>waiting := False\<rparr>)
      | next # rest \<Rightarrow> ([next], s\<lparr>pendingNtfns := rest\<rparr>))"

definition ntfn_ok :: "ntfn_queue \<Rightarrow> bool" where
  "ntfn_ok s \<longleftrightarrow> (\<not> waiting s \<longrightarrow> pendingNtfns s = [])"

interpretation client_queue: fifo "\<lambda>_. ntfn_in" ntfn_sent pendingNtfns ntfn_ok
  by unfold_locales
    (auto simp: ntfn_in_def ntfn_sent_def ntfn_ok_def Let_def split: list.split)

section \<open>Order of delivery\<close>

text \<open>Runs of the two handlers as functions of the events.\<close>

primrec queueHandler_run :: "(bool \<times> 'a) option list \<Rightarrow> 'a queue_handler \<Rightarrow> 'a list \<times> 'a queue_handler" where
  "queueHandler_run [] h = ([], h)"
| "queueHandler_run (e # es) h =
     (let (out, h) = (case e of Some (ready, n) \<Rightarrow> queueHandler_in ready n h | None \<Rightarrow> queueHandler_dequeue h);
          (outs, h) = queueHandler_run es h
      in (out @ outs, h))"

lemma queueHandler_run_eq: "queueHandler_run es h = manager_queue.run es h"
  by (induction es arbitrary: h) simp_all

definition queueHandler_inputs :: "(bool \<times> 'a) option list \<Rightarrow> 'a list" where
  "queueHandler_inputs es = concat (map (\<lambda>e. case e of Some (ready, n) \<Rightarrow> [n] | None \<Rightarrow> []) es)"

text \<open>C15: Whatever the order in which items arrive and the reader becomes ready, \<^verbatim>\<open>queueHandler\<close> has
  passed on a prefix of what arrived, in order, and holds exactly the rest; once nothing arrives, a reader
  that is ready as many times as items are left has received everything.\<close>

theorem queueHandler_fifo:
  "fst (queueHandler_run es queueHandler_init) @ q (snd (queueHandler_run es queueHandler_init)) = queueHandler_inputs es \<and>
   fst (queueHandler_run (es @ replicate (length (q (snd (queueHandler_run es queueHandler_init)))) None) queueHandler_init)
     = queueHandler_inputs es"
proof -
  have i: "queueHandler_ok queueHandler_init" "q (queueHandler_init :: 'a queue_handler) = []"
    by (simp_all add: queueHandler_ok_def queueHandler_init_def)
  have a: "queueHandler_inputs es = manager_queue.arrived es"
    by (simp add: queueHandler_inputs_def manager_queue.arrived_def)
  have app: "fst (queueHandler_run (xs @ ys) h) = fst (queueHandler_run xs h) @ fst (queueHandler_run ys (snd (queueHandler_run xs h)))"
    for xs ys and h :: "'a queue_handler"
    by (induction xs arbitrary: h) (simp_all add: Let_def split: prod.splits, metis fst_conv snd_conv)
  show ?thesis
    using manager_queue.run_fifo [OF i(1), of es] manager_queue.run_delivers [OF i le_refl, of es] i(2)
    unfolding app a by (simp add: queueHandler_run_eq)
qed

end
