(* ===== verification/Ws_Client.thy ===== *)
theory Ws_Client
  imports Ws_Queue Wire_Tx
begin

text \<open>
  A websocket client (\<^verbatim>\<open>wsClient\<close> in \<^verbatim>\<open>rpcwebsocket.go\<close>) and its outgoing side: \<^verbatim>\<open>SendMessage\<close>,
  \<^verbatim>\<open>QueueNotification\<close> and \<^verbatim>\<open>Disconnect\<close>, and the goroutines \<^verbatim>\<open>notificationQueueHandler\<close> and
  \<^verbatim>\<open>outHandler\<close> as a step relation whose steps interleave freely.
\<close>

section \<open>The client\<close>

definition websocketSendBufferSize :: nat where "websocketSendBufferSize = 50"

text \<open>\<open>doneChan\<close> says whether there is a channel to report on; only \<^verbatim>\<open>ntfnSentChan\<close> is ever used.\<close>

record wsResponse =
  msg :: string
  doneChan :: bool

text \<open>
  A semaphore is a channel of empty structs: the number of its elements and its capacity. The
  channels of the client are the lists of what is in them; \<open>quit_closed\<close> is whether \<^verbatim>\<open>quit\<close> is closed.
\<close>

record semaphore =
  held :: nat
  capacity :: nat

definition makeSemaphore :: "nat \<Rightarrow> semaphore" where
  "makeSemaphore n = \<lparr>held = 0, capacity = n\<rparr>"

text \<open>\<open>None\<close>: the operation blocks.\<close>

definition acquire :: "semaphore \<Rightarrow> semaphore option" where
  "acquire s = (if held s < capacity s then Some (s\<lparr>held := held s + 1\<rparr>) else None)"

definition release :: "semaphore \<Rightarrow> semaphore option" where
  "release s = (if 0 < held s then Some (s\<lparr>held := held s - 1\<rparr>) else None)"

record wsClient =
  disconnected :: bool
  addr :: string
  authenticated :: bool
  isAdmin :: bool
  sessionID :: uint64
  verboseTxUpdates :: bool
  addrRequests :: "string list"
  spentRequests :: "OutPoint list"
  serviceRequestSem :: semaphore
  ntfnChan :: "string list"
  sendChan :: "wsResponse list"
  quit_closed :: bool

text \<open>The session id is what \<^verbatim>\<open>wire.RandomUint64\<close> returns, or its error.\<close>

definition newWebsocketClient :: "nat \<Rightarrow> goerr + uint64 \<Rightarrow> string \<Rightarrow> bool \<Rightarrow> bool \<Rightarrow> goerr + wsClient" where
  "newWebsocketClient maxReqs random remoteAddr auth admin =
     bindR random (\<lambda>sid. Inr
       \<lparr>disconnected = False, addr = remoteAddr, authenticated = auth, isAdmin = admin, sessionID = sid,
        verboseTxUpdates = False, addrRequests = [], spentRequests = [],
        serviceRequestSem = makeSemaphore maxReqs, ntfnChan = [], sendChan = [], quit_closed = False\<rparr>)"

definition Disconnected :: "wsClient \<Rightarrow> bool" where
  "Disconnected c = disconnected c"

text \<open>The second component is whether false was sent on the channel for the outcome.\<close>

definition SendMessage :: "string \<Rightarrow> bool \<Rightarrow> wsClient \<Rightarrow> wsClient \<times> bool" where
  "SendMessage marshalledJSON done c =
     (if Disconnected c then (c, done)
      else (c\<lparr>sendChan := sendChan c @ [\<lparr>msg = marshalledJSON, doneChan = done\<rparr>]\<rparr>, False))"

text \<open>\<open>Inl\<close> is the error \<^verbatim>\<open>ErrClientQuit\<close>.\<close>

definition ErrClientQuit :: string where "ErrClientQuit = ''client quit''"

definition QueueNotification :: "string \<Rightarrow> wsClient \<Rightarrow> string + wsClient" where
  "QueueNotification marshalledJSON c =
     (if Disconnected c then Inl ErrClientQuit else Inr (c\<lparr>ntfnChan := ntfnChan c @ [marshalledJSON]\<rparr>))"

text \<open>Closing \<^verbatim>\<open>quit\<close> a second time would panic: \<open>None\<close>.\<close>

definition Disconnect :: "wsClient \<Rightarrow> wsClient option" where
  "Disconnect c =
     (if disconnected c then Some c
      else if quit_closed c then None
      else Some (c\<lparr>quit_closed := True, disconnected := True\<rparr>))"

section \<open>The outgoing goroutines\<close>

text \<open>
  The channel \<^verbatim>\<open>ntfnSentChan\<close> has a buffer of one. \<open>written\<close> is what reached the connection,
  \<open>queued\<close> all notifications given to \<^verbatim>\<open>QueueNotification\<close>. The two flags say whether the loop of
  each goroutine is still running; behind the loop a goroutine drains its channels.
\<close>

record outgoing =
  client :: wsClient
  ntfns :: ntfn_queue
  ntfnSentChan :: "bool list"
  written :: "wsResponse list"
  queued :: "string list"
  queue_running :: bool
  out_running :: bool

definition send_ntfns :: "string list \<Rightarrow> outgoing \<Rightarrow> outgoing" where
  "send_ntfns ms g =
     fold (\<lambda>m g. let (c, reported) = SendMessage m True (client g)
                 in g\<lparr>client := c, ntfnSentChan := ntfnSentChan g @ (if reported then [False] else [])\<rparr>) ms g"

definition send_ready :: "outgoing \<Rightarrow> bool" where
  "send_ready g \<longleftrightarrow> Disconnected (client g) \<or> length (sendChan (client g)) < websocketSendBufferSize"

inductive out_step :: "outgoing \<Rightarrow> outgoing \<Rightarrow> bool" where
  respond: "send_ready g \<Longrightarrow> out_step g (g\<lparr>client := fst (SendMessage m False (client g))\<rparr>)"
| queue: "length (ntfnChan (client g)) < 1 \<Longrightarrow> QueueNotification m (client g) = Inr c \<Longrightarrow>
    out_step g (g\<lparr>client := c, queued := queued g @ [m]\<rparr>)"
| take: "queue_running g \<Longrightarrow> ntfnChan (client g) = m # ms \<Longrightarrow> send_ready g \<Longrightarrow> ntfn_in m (ntfns g) = (out, nq) \<Longrightarrow>
    out_step g (send_ntfns out (g\<lparr>client := (client g)\<lparr>ntfnChan := ms\<rparr>, ntfns := nq\<rparr>))"
| sent: "queue_running g \<Longrightarrow> ntfnSentChan g = b # bs \<Longrightarrow> send_ready g \<Longrightarrow> ntfn_sent (ntfns g) = (out, nq) \<Longrightarrow>
    out_step g (send_ntfns out (g\<lparr>ntfnSentChan := bs, ntfns := nq\<rparr>))"
| queue_quit: "queue_running g \<Longrightarrow> quit_closed (client g) \<Longrightarrow> out_step g (g\<lparr>queue_running := False\<rparr>)"
| queue_drain: "\<not> queue_running g \<Longrightarrow>
    out_step g (g\<lparr>client := (client g)\<lparr>ntfnChan := []\<rparr>, ntfnSentChan := []\<rparr>)"
| out_write: "out_running g \<Longrightarrow> \<not> disconnected (client g) \<Longrightarrow> sendChan (client g) = r # rs \<Longrightarrow>
    out_step g (g\<lparr>client := (client g)\<lparr>sendChan := rs\<rparr>, written := written g @ [r],
      ntfnSentChan := ntfnSentChan g @ (if doneChan r then [True] else [])\<rparr>)"
| out_fail: "out_running g \<Longrightarrow> sendChan (client g) = r # rs \<Longrightarrow> Disconnect ((client g)\<lparr>sendChan := rs\<rparr>) = Some c \<Longrightarrow>
    out_step g (g\<lparr>client := c, out_running := False\<rparr>)"
| out_quit: "out_running g \<Longrightarrow> quit_closed (client g) \<Longrightarrow> out_step g (g\<lparr>out_running := False\<rparr>)"
| out_drain: "\<not> out_running g \<Longrightarrow> sendChan (client g) = r # rs \<Longrightarrow>
    out_step g (g\<lparr>client := (client g)\<lparr>sendChan := rs\<rparr>,
      ntfnSentChan := ntfnSentChan g @ (if doneChan r then [False] else [])\<rparr>)"
| disconnect: "Disconnect (client g) = Some c \<Longrightarrow> out_step g (g\<lparr>client := c\<rparr>)"

definition out_init :: "outgoing \<Rightarrow> bool" where
  "out_init g \<longleftrightarrow> \<not> disconnected (client g) \<and> \<not> quit_closed (client g) \<and> ntfnChan (client g) = [] \<and>
     sendChan (client g) = [] \<and> ntfns g = ntfn_queue_init \<and> ntfnSentChan g = [] \<and> written g = [] \<and> queued g = [] \<and>
     queue_running g \<and> out_running g"

section \<open>The invariant\<close>

text \<open>
  At most one notification is between \<^verbatim>\<open>SendMessage\<close> and the report on it, and only while the queue
  handler is waiting for that report. While the client is connected every notification is written, being
  written, pending or in the channel, in the order of \<^verbatim>\<open>QueueNotification\<close>; later what was written is
  still a prefix.
\<close>

definition in_flight :: "outgoing \<Rightarrow> nat" where
  "in_flight g = length (filter doneChan (sendChan (client g))) + length (ntfnSentChan g)"

definition ntfns_of :: "wsResponse list \<Rightarrow> string list" where
  "ntfns_of rs = map msg (filter doneChan rs)"

definition out_inv :: "outgoing \<Rightarrow> bool" where
  "out_inv g \<longleftrightarrow>
     (disconnected (client g) \<longleftrightarrow> quit_closed (client g)) \<and> ntfn_ok (ntfns g) \<and>
     in_flight g \<le> (if waiting (ntfns g) then 1 else 0) \<and>
     (\<not> disconnected (client g) \<longrightarrow> queue_running g \<and> out_running g \<and>
        in_flight g = (if waiting (ntfns g) then 1 else 0) \<and>
        ntfns_of (written g) @ ntfns_of (sendChan (client g)) @ pendingNtfns (ntfns g) @ ntfnChan (client g) = queued g) \<and>
     (\<exists>rest. queued g = ntfns_of (written g) @ rest)"


lemma filter_done [simp]: "ntfns_of [] = []" "ntfns_of (rs @ ss) = ntfns_of rs @ ntfns_of ss"
  "ntfns_of (r # rs) = (if doneChan r then msg r # ntfns_of rs else ntfns_of rs)"
  by (simp_all add: ntfns_of_def)

lemma ntfn_in_cases:
  assumes "ntfn_in m s = (out, t)" "ntfn_ok s"
  obtains "\<not> waiting s" "pendingNtfns s = []" "out = [m]" "t = s\<lparr>waiting := True\<rparr>"
  | "waiting s" "out = []" "t = s\<lparr>pendingNtfns := pendingNtfns s @ [m], waiting := True\<rparr>"
  using assms by (auto simp: ntfn_in_def Let_def ntfn_ok_def split: if_splits)

lemma ntfn_sent_cases:
  assumes "ntfn_sent s = (out, t)"
  obtains "pendingNtfns s = []" "out = []" "t = s\<lparr>waiting := False\<rparr>"
  | m ms where "pendingNtfns s = m # ms" "out = [m]" "t = s\<lparr>pendingNtfns := ms\<rparr>"
  using assms by (auto simp: ntfn_sent_def split: list.splits)

lemmas send_defs = send_ntfns_def SendMessage_def Disconnected_def Let_def

lemma out_step_inv: "out_step g h \<Longrightarrow> out_inv g \<Longrightarrow> out_inv h"
proof (induction rule: out_step.induct)
  case (respond g m)
  then show ?case by (auto simp: out_inv_def in_flight_def send_defs)
next
  case (queue g m c)
  then show ?case by (auto simp: out_inv_def in_flight_def QueueNotification_def Disconnected_def split: if_splits)
next
  case (take g m ms out nq)
  then have "ntfn_ok (ntfns g)" by (simp add: out_inv_def)
  with take(4) show ?case
    by (cases rule: ntfn_in_cases) (use take in \<open>auto simp: out_inv_def in_flight_def send_defs ntfn_ok_def split: if_splits\<close>)
next
  case (sent g b bs out nq)
  from sent(4) show ?case
    by (cases rule: ntfn_sent_cases) (use sent in \<open>auto simp: out_inv_def in_flight_def send_defs ntfn_ok_def split: if_splits\<close>)
next
  case (queue_quit g)
  then show ?case by (auto simp: out_inv_def in_flight_def)
next
  case (queue_drain g)
  then show ?case by (auto simp: out_inv_def in_flight_def)
next
  case (out_write g r rs)
  then show ?case by (auto simp: out_inv_def in_flight_def split: if_splits)
next
  case (out_fail g r rs c)
  then show ?case by (auto simp: out_inv_def in_flight_def Disconnect_def split: if_splits)
next
  case (out_quit g)
  then show ?case by (auto simp: out_inv_def in_flight_def)
next
  case (out_drain g r rs)
  then show ?case by (auto simp: out_inv_def in_flight_def split: if_splits)
next
  case (disconnect g c)
  then show ?case by (auto simp: out_inv_def in_flight_def Disconnect_def split: if_splits)
qed

interpretation outgoing: invariant_system out_init out_step out_inv
  by unfold_locales
    (simp add: out_init_def out_inv_def in_flight_def ntfn_queue_init_def ntfn_ok_def, rule out_step_inv)

text \<open>C8: Whatever the interleaving, failed writes and disconnects included: what a client has been sent
  of its notifications is a prefix of what was queued for it, in order and without repetition; while it is
  connected the rest is still on its way; at most one notification is between the queue and the
  connection, so the report on it always fits into the buffer of one of \<^verbatim>\<open>ntfnSentChan\<close> and neither
  goroutine can block on it; and \<^verbatim>\<open>quit\<close> is closed exactly when the client is disconnected.\<close>

theorem notifications_in_order:
  assumes "out_init g" and "rtranclp out_step g h"
  shows "(\<exists>rest. queued h = ntfns_of (written h) @ rest) \<and>
    (\<not> disconnected (client h) \<longrightarrow>
      queued h = ntfns_of (written h) @ ntfns_of (sendChan (client h)) @ pendingNtfns (ntfns h) @ ntfnChan (client h)) \<and>
    length (filter doneChan (sendChan (client h))) + length (ntfnSentChan h) \<le> 1 \<and>
    (quit_closed (client h) \<longleftrightarrow> disconnected (client h))"
  using outgoing.reach_inv [OF assms] by (auto simp: out_inv_def in_flight_def split: if_splits)

section \<open>Progress\<close>

definition backlog :: "outgoing \<Rightarrow> nat" where
  "backlog g = 3 * length (ntfnChan (client g)) + 3 * length (pendingNtfns (ntfns g)) +
     2 * length (sendChan (client g)) + length (ntfnSentChan g)"

lemma out_progress:
  assumes "out_inv g" and "\<not> disconnected (client g)" and "backlog g \<noteq> 0"
  shows "\<exists>h. out_step g h \<and> \<not> disconnected (client h) \<and> backlog h < backlog g \<and> queued h = queued g"
proof -
  have run: "queue_running g" "out_running g" "ntfn_ok (ntfns g)"
    and fl: "in_flight g = (if waiting (ntfns g) then 1 else 0)" using assms by (auto simp: out_inv_def)
  show ?thesis
  proof (cases "sendChan (client g)")
    case (Cons r rs)
    with out_step.out_write [OF run(2) assms(2) this] assms(2) show ?thesis
      by (fastforce simp: backlog_def)
  next
    case Nil
    then have ready: "send_ready g" by (simp add: send_ready_def websocketSendBufferSize_def)
    show ?thesis
    proof (cases "ntfnSentChan g")
      case (Cons b bs)
      obtain out nq where s: "ntfn_sent (ntfns g) = (out, nq)" by (cases "ntfn_sent (ntfns g)")
      note out_step.sent [OF run(1) Cons ready s]
      moreover from s have "\<not> disconnected (client (send_ntfns out (g\<lparr>ntfnSentChan := bs, ntfns := nq\<rparr>))) \<and>
        backlog (send_ntfns out (g\<lparr>ntfnSentChan := bs, ntfns := nq\<rparr>)) < backlog g \<and>
        queued (send_ntfns out (g\<lparr>ntfnSentChan := bs, ntfns := nq\<rparr>)) = queued g"
        by (cases rule: ntfn_sent_cases) (use assms(2) Nil Cons in \<open>auto simp: backlog_def send_defs\<close>)
      ultimately show ?thesis by blast
    next
      case none: Nil
      then have w: "\<not> waiting (ntfns g)" "pendingNtfns (ntfns g) = []"
        using Nil fl run(3) by (auto simp: in_flight_def ntfn_ok_def split: if_splits)
      then obtain m ms where c: "ntfnChan (client g) = m # ms"
        using assms(3) none Nil by (auto simp: backlog_def neq_Nil_conv)
      obtain out nq where s: "ntfn_in m (ntfns g) = (out, nq)" by (cases "ntfn_in m (ntfns g)")
      note out_step.take [OF run(1) c ready s]
      moreover have "\<not> disconnected (client (send_ntfns out (g\<lparr>client := (client g)\<lparr>ntfnChan := ms\<rparr>, ntfns := nq\<rparr>))) \<and>
        backlog (send_ntfns out (g\<lparr>client := (client g)\<lparr>ntfnChan := ms\<rparr>, ntfns := nq\<rparr>)) < backlog g \<and>
        queued (send_ntfns out (g\<lparr>client := (client g)\<lparr>ntfnChan := ms\<rparr>, ntfns := nq\<rparr>)) = queued g"
        using s w c assms(2) Nil none by (auto simp: backlog_def send_defs ntfn_in_def)
      ultimately show ?thesis by blast
    qed
  qed
qed

lemma out_drains:
  "out_inv g \<Longrightarrow> \<not> disconnected (client g) \<Longrightarrow>
    \<exists>h. rtranclp out_step g h \<and> \<not> disconnected (client h) \<and> backlog h = 0 \<and> queued h = queued g"
proof (induction "backlog g" arbitrary: g rule: less_induct)
  case less
  show ?case
  proof (cases "backlog g = 0")
    case False
    then obtain h where h: "out_step g h" "\<not> disconnected (client h)" "backlog h < backlog g" "queued h = queued g"
      using out_progress less.prems by blast
    from less.hyps [OF h(3) out_step_inv [OF h(1) less.prems(1)] h(2)] h show ?thesis
      by (metis converse_rtranclp_into_rtranclp)
  qed (use less.prems in auto)
qed

text \<open>C14: From every reachable state in which the client is connected the goroutines can go on until all
  notifications queued so far are written: the two loops and their channels never deadlock.\<close>

theorem notifications_delivered:
  assumes "out_init g" and "rtranclp out_step g h" and "\<not> disconnected (client h)"
  shows "\<exists>k. rtranclp out_step h k \<and> ntfns_of (written k) = queued h"
proof -
  have inv: "out_inv h" by (rule outgoing.reach_inv [OF assms(1,2)])
  from out_drains [OF inv assms(3)] obtain k where
    k: "rtranclp out_step h k" "\<not> disconnected (client k)" "backlog k = 0" "queued k = queued h" by blast
  from outgoing.steps_inv [OF k(1) inv] k(2,3) have "ntfns_of (written k) = queued k"
    by (simp add: out_inv_def backlog_def)
  with k show ?thesis by metis
qed

definition sample_outgoing :: outgoing where
  "sample_outgoing = \<lparr>client = \<lparr>disconnected = False, addr = ''127.0.0.1:1'', authenticated = True, isAdmin = False,
     sessionID = 7, verboseTxUpdates = False, addrRequests = [], spentRequests = [],
     serviceRequestSem = makeSemaphore 20, ntfnChan = [], sendChan = [], quit_closed = False\<rparr>,
     ntfns = ntfn_queue_init, ntfnSentChan = [], written = [], queued = [], queue_running = True, out_running = True\<rparr>"

lemma sample_out_init: "out_init sample_outgoing"
  by (simp add: out_init_def sample_outgoing_def)

definition sample_queued :: outgoing where
  "sample_queued = sample_outgoing\<lparr>client := (client sample_outgoing)\<lparr>ntfnChan := [''n'']\<rparr>, queued := [''n'']\<rparr>"

lemma sample_queue: "rtranclp out_step sample_outgoing sample_queued"
  using out_step.queue [of sample_outgoing "''n''" "client sample_queued"]
  by (auto simp: sample_outgoing_def sample_queued_def QueueNotification_def Disconnected_def intro!: r_into_rtranclp)

theorem notifications_in_order_witness:
  "length (filter doneChan (sendChan (client sample_queued))) + length (ntfnSentChan sample_queued) \<le> 1"
  using notifications_in_order [OF sample_out_init sample_queue] by blast

theorem notifications_delivered_witness:
  "\<exists>k. rtranclp out_step sample_queued k \<and> ntfns_of (written k) = [''n'']"
  using notifications_delivered [OF sample_out_init sample_queue]
  by (simp add: sample_queued_def sample_outgoing_def)

end
