(* ===== verification/Rpcwebsocket.thy ===== *)
theory Rpcwebsocket
  imports Rpcserver_Conn Ws_Client
begin

text \<open>
  The incoming side of a websocket client (\<^verbatim>\<open>rpcwebsocket.go\<close>): \<^verbatim>\<open>inHandler\<close> with the check of
  credentials over the connection, single and batched requests, and \<^verbatim>\<open>serviceRequest\<close>. The goroutines
  that service requests interleave with the reading of the next ones in a step relation.
\<close>

section \<open>Commands\<close>

type_synonym wsCommandHandler = "wsClient \<Rightarrow> cmd \<Rightarrow> handler_err + iface"

text \<open>All entries of the table are commented out in the source, and no \<^verbatim>\<open>init\<close> assigns it.\<close>

definition wsHandlers :: "string \<rightharpoonup> wsCommandHandler" where
  "wsHandlers = Map.empty"

text \<open>The result of the handler of a websocket or a standard command.\<close>

definition ws_command_result :: "parsedRPCCmd \<Rightarrow> wsClient \<Rightarrow> handler_err + iface" where
  "ws_command_result r c =
     (case wsHandlers (p_method r) of
        Some wsHandler \<Rightarrow>
          (case p_cmd r of
             Some cmd1 \<Rightarrow> wsHandler c cmd1
           | None \<Rightarrow> Inl (HandlerPanic ''interface conversion''))
      | None \<Rightarrow> standardCmdResult r)"

definition result_reply :: "parsedRPCCmd \<Rightarrow> handler_err + iface \<Rightarrow> json jresult" where
  "result_reply r res =
     (case res of
        Inr result \<Rightarrow> createMarshalledReply (p_jsonrpc r) (p_id r) result None
      | Inl err \<Rightarrow> createMarshalledReply (p_jsonrpc r) (p_id r) None (Some err))"

definition sendReply :: "json jresult \<Rightarrow> wsClient \<Rightarrow> wsClient" where
  "sendReply m c = (case m of Inl err \<Rightarrow> c | Inr reply \<Rightarrow> fst (SendMessage (json_String reply) False c))"

text \<open>A panic of a handler here ends the process, since nothing recovers from it: \<open>Inl\<close>.\<close>

definition serviceRequest :: "parsedRPCCmd \<Rightarrow> wsClient \<Rightarrow> string + wsClient" where
  "serviceRequest r c =
     (case ws_command_result r c of
        Inl (HandlerPanic m) \<Rightarrow> Inl m
      | res \<Rightarrow> Inr (sendReply (result_reply r res) c))"

section \<open>Credentials\<close>

datatype auth_check = AuthBreak | AuthReply wsClient | AuthPass

definition is_AuthenticateCmd :: "cmd option \<Rightarrow> bool" where
  "is_AuthenticateCmd c \<longleftrightarrow> (case c of Some (t, v) \<Rightarrow> t = TPtr T_AuthenticateCmd | None \<Rightarrow> False)"

definition authCmd_login :: "cmd option \<Rightarrow> string \<times> string" where
  "authCmd_login c =
     (case c of Some (t, VPtr (Some (VStruct [VString username, VString passphrase]))) \<Rightarrow> (username, passphrase)
      | _ \<Rightarrow> ([], []))"

definition inHandler_auth :: "rpcServer \<Rightarrow> parsedRPCCmd \<Rightarrow> wsClient \<Rightarrow> auth_check" where
  "inHandler_auth s cmd1 c =
     (let ok = is_AuthenticateCmd (p_cmd cmd1) in
      if authenticated c \<and> ok then AuthBreak
      else if \<not> authenticated c \<and> \<not> ok then AuthBreak
      else if \<not> authenticated c then
        let (username, passphrase) = authCmd_login (p_cmd cmd1);
            authSha = Sum256 (string_bytes (basic_auth username passphrase));
            cmp = ConstantTimeCompare authSha (authsha s);
            limitcmp = ConstantTimeCompare authSha (limitauthsha s)
        in if cmp \<noteq> 1 \<and> limitcmp \<noteq> 1 then AuthBreak
           else AuthReply (c\<lparr>authenticated := True, isAdmin := (cmp = 1)\<rparr>)
      else AuthPass)"

section \<open>Single requests\<close>

text \<open>
  How one turn of the loop ends: it goes on, it breaks out of the loop, it returns from the function,
  the process dies of a panic, or a goroutine is started to serve a command.
\<close>

datatype in_outcome = Continues | Breaks | Returns | Crashes string | Serves parsedRPCCmd

definition parse_failure :: "string \<Rightarrow> handler_err" where
  "parse_failure e = RpcErr \<lparr>Code = Code ErrRPCParse, Message = ''Failed to parse request: '' @ e\<rparr>"

definition not_authorized :: handler_err where
  "not_authorized = RpcErr \<lparr>Code = Code ErrRPCInvalidParams, Message = ''limited user not authorized for this method''\<rparr>"

definition inHandler_single :: "registry \<Rightarrow> rpcServer \<Rightarrow> string + json \<Rightarrow> wsClient \<Rightarrow> in_outcome \<times> wsClient" where
  "inHandler_single reg s doc c =
     (let (req, err) = Unmarshal_Request doc in
      case err of
        Some e \<Rightarrow>
          if \<not> authenticated c then (Breaks, c)
          else (Continues, sendReply (createMarshalledReply RpcVersion1 None None (Some (parse_failure e))) c)
      | None \<Rightarrow>
          if req_Method req = [] \<or> req_Params req = None
          then (Continues, sendReply (createMarshalledReply (req_Jsonrpc req) (req_ID req) None (Some (RpcErr malformed))) c)
          else if req_ID req = None then (if \<not> authenticated c then (Breaks, c) else (Continues, c))
          else
            let cmd1 = parseCmd reg req in
            case p_err cmd1 of
              Some e \<Rightarrow>
                if \<not> authenticated c then (Breaks, c)
                else (Continues, sendReply (createMarshalledReply (p_jsonrpc cmd1) (p_id cmd1) None (Some (RpcErr e))) c)
            | None \<Rightarrow>
                (case inHandler_auth s cmd1 c of
                   AuthBreak \<Rightarrow> (Breaks, c)
                 | AuthReply c \<Rightarrow> (Continues, sendReply (createMarshalledReply (p_jsonrpc cmd1) (p_id cmd1) None None) c)
                 | AuthPass \<Rightarrow>
                     if \<not> isAdmin c \<and> req_Method req \<notin> set rpcLimited
                     then (Continues, sendReply (createMarshalledReply [] (req_ID req) None (Some not_authorized)) c)
                     else (Serves cmd1, c)))"

section \<open>Batches\<close>

text \<open>One entry: the reply that is appended to the results, if any.\<close>

definition append_reply :: "json jresult \<Rightarrow> json list" where
  "append_reply m = (case m of Inl err \<Rightarrow> [] | Inr reply \<Rightarrow> [reply])"

definition inHandler_entry ::
  "registry \<Rightarrow> rpcServer \<Rightarrow> json \<Rightarrow> wsClient \<Rightarrow> in_outcome \<times> wsClient \<times> json list" where
  "inHandler_entry reg s entry c =
     (let (req, err) = Unmarshal_Request (Inr (remarshal entry)) in
      case err of
        Some e \<Rightarrow>
          if \<not> authenticated c then (Breaks, c, [])
          else (Continues, c, append_reply (MarshalResponse RpcVersion2 None None
                 (Some \<lparr>Code = Code ErrRPCInvalidRequest, Message = ''Invalid request: '' @ e\<rparr>)))
      | None \<Rightarrow>
          if req_Method req = [] \<or> req_Params req = None
          then (Continues, c, append_reply (createMarshalledReply (req_Jsonrpc req) (req_ID req) None (Some (RpcErr malformed))))
          else if req_ID req = None then (if \<not> authenticated c then Breaks else Continues, c, [])
          else
            let cmd1 = parseCmd reg req in
            case p_err cmd1 of
              Some e \<Rightarrow>
                if \<not> authenticated c then (Breaks, c, [])
                else (Continues, c, append_reply (createMarshalledReply (p_jsonrpc cmd1) (p_id cmd1) None (Some (RpcErr e))))
            | None \<Rightarrow>
                (case inHandler_auth s cmd1 c of
                   AuthBreak \<Rightarrow> (Breaks, c, [])
                 | AuthReply c \<Rightarrow> (Continues, c, append_reply (createMarshalledReply (p_jsonrpc cmd1) (p_id cmd1) None None))
                 | AuthPass \<Rightarrow>
                     if \<not> isAdmin c \<and> req_Method req \<notin> set rpcLimited
                     then (Continues, c, append_reply (createMarshalledReply (req_Jsonrpc req) (req_ID req) None (Some not_authorized)))
                     else
                       (case ws_command_result cmd1 c of
                          Inl (HandlerPanic m) \<Rightarrow> (Crashes m, c, [])
                        | res \<Rightarrow>
                            (case result_reply cmd1 res of
                               Inl err \<Rightarrow> (Returns, c, [])
                             | Inr reply \<Rightarrow> (Continues, c, [reply])))))"

primrec inHandler_entries ::
  "registry \<Rightarrow> rpcServer \<Rightarrow> json list \<Rightarrow> wsClient \<Rightarrow> json list \<Rightarrow> in_outcome \<times> wsClient \<times> json list" where
  "inHandler_entries reg s [] c results = (Continues, c, results)"
| "inHandler_entries reg s (entry # es) c results =
     (case inHandler_entry reg s entry c of
        (Continues, c, rs) \<Rightarrow> inHandler_entries reg s es c (results @ rs)
      | (outcome, c, rs) \<Rightarrow> (outcome, c, results @ rs))"

text \<open>
  A batch, behind the acquisition of the semaphore. The error of the parse reply replaces the parse
  error, and that reply always succeeds. Only a batch that is answered, possibly with an empty message,
  releases the semaphore.
\<close>

definition release_sem :: "wsClient \<Rightarrow> wsClient" where
  "release_sem c =
     (case release (serviceRequestSem c) of None \<Rightarrow> c | Some sem \<Rightarrow> c\<lparr>serviceRequestSem := sem\<rparr>)"

definition batch_answer :: "nat \<Rightarrow> json list \<Rightarrow> wsClient \<Rightarrow> wsClient" where
  [simp]: "batch_answer batchSize results c =
     release_sem (fst (SendMessage (jsonRPCRead_msg True batchSize results) False c))"

definition inHandler_batch :: "registry \<Rightarrow> rpcServer \<Rightarrow> string + json \<Rightarrow> wsClient \<Rightarrow> in_outcome \<times> wsClient" where
  "inHandler_batch reg s doc c =
     (let (batchedRequests, err) = Unmarshal_batch doc in
      if err \<noteq> None \<and> \<not> authenticated c then (Breaks, c)
      else
        let results = (case err of
              None \<Rightarrow> []
            | Some e \<Rightarrow> append_reply (MarshalResponse RpcVersion2 None None
                (Some \<lparr>Code = Code ErrRPCParse, Message = ''Failed to parse request: '' @ e\<rparr>)))
        in
          if length batchedRequests = 0 \<and> \<not> authenticated c then (Breaks, c)
          else
            let results = (if length batchedRequests = 0
              then results @ append_reply (MarshalResponse RpcVersion2 None None
                (Some \<lparr>Code = Code ErrRPCInvalidRequest, Message = ''Invalid request: empty batch''\<rparr>))
              else results)
            in
              case inHandler_entries reg s batchedRequests c results of
                (Continues, c, results) \<Rightarrow>
                  (Continues, batch_answer (length batchedRequests) results c)
              | (outcome, c, results) \<Rightarrow> (outcome, c))"

section \<open>The connection\<close>

text \<open>
  The goroutine of \<^verbatim>\<open>inHandler\<close> (\<open>reading\<close>) and those that service requests. Each step is one message
  read and handled, one request serviced, a message taken by \<^verbatim>\<open>outHandler\<close>, or a disconnect from elsewhere.
  Waiting for the semaphore is a step that is not enabled; \<open>crashed\<close> is a process that died of a panic.
\<close>

record ws_conn =
  wsc :: wsClient
  serving :: "parsedRPCCmd list"
  reading :: bool
  crashed :: bool

definition disconnect_wsc :: "wsClient \<Rightarrow> wsClient" where
  "disconnect_wsc c = (case Disconnect c of None \<Rightarrow> c | Some c \<Rightarrow> c)"

inductive ws_step :: "registry \<Rightarrow> rpcServer \<Rightarrow> ws_conn \<Rightarrow> ws_conn \<Rightarrow> bool" for reg s where
  single: "reading w \<Longrightarrow> \<not> crashed w \<Longrightarrow> inHandler_single reg s doc (wsc w) = (Continues, c) \<Longrightarrow>
    ws_step reg s w (w\<lparr>wsc := c\<rparr>)"
| single_break: "reading w \<Longrightarrow> \<not> crashed w \<Longrightarrow> inHandler_single reg s doc (wsc w) = (Breaks, c) \<Longrightarrow>
    ws_step reg s w (w\<lparr>wsc := disconnect_wsc c, reading := False\<rparr>)"
| single_serve: "reading w \<Longrightarrow> \<not> crashed w \<Longrightarrow> inHandler_single reg s doc (wsc w) = (Serves r, c) \<Longrightarrow>
    acquire (serviceRequestSem c) = Some sem \<Longrightarrow>
    ws_step reg s w (w\<lparr>wsc := c\<lparr>serviceRequestSem := sem\<rparr>, serving := serving w @ [r]\<rparr>)"
| batch: "reading w \<Longrightarrow> \<not> crashed w \<Longrightarrow> acquire (serviceRequestSem (wsc w)) = Some sem \<Longrightarrow>
    inHandler_batch reg s doc ((wsc w)\<lparr>serviceRequestSem := sem\<rparr>) = (Continues, c) \<Longrightarrow>
    ws_step reg s w (w\<lparr>wsc := c\<rparr>)"
| batch_break: "reading w \<Longrightarrow> \<not> crashed w \<Longrightarrow> acquire (serviceRequestSem (wsc w)) = Some sem \<Longrightarrow>
    inHandler_batch reg s doc ((wsc w)\<lparr>serviceRequestSem := sem\<rparr>) = (Breaks, c) \<Longrightarrow>
    ws_step reg s w (w\<lparr>wsc := disconnect_wsc c, reading := False\<rparr>)"
| batch_return: "reading w \<Longrightarrow> \<not> crashed w \<Longrightarrow> acquire (serviceRequestSem (wsc w)) = Some sem \<Longrightarrow>
    inHandler_batch reg s doc ((wsc w)\<lparr>serviceRequestSem := sem\<rparr>) = (Returns, c) \<Longrightarrow>
    ws_step reg s w (w\<lparr>wsc := c, reading := False\<rparr>)"
| batch_crash: "reading w \<Longrightarrow> \<not> crashed w \<Longrightarrow> acquire (serviceRequestSem (wsc w)) = Some sem \<Longrightarrow>
    inHandler_batch reg s doc ((wsc w)\<lparr>serviceRequestSem := sem\<rparr>) = (Crashes m, c) \<Longrightarrow>
    ws_step reg s w (w\<lparr>crashed := True\<rparr>)"
| serviced: "\<not> crashed w \<Longrightarrow> i < length (serving w) \<Longrightarrow> serviceRequest (serving w ! i) (wsc w) = Inr c \<Longrightarrow>
    release (serviceRequestSem c) = Some sem \<Longrightarrow>
    ws_step reg s w (w\<lparr>wsc := c\<lparr>serviceRequestSem := sem\<rparr>, serving := take i (serving w) @ drop (Suc i) (serving w)\<rparr>)"
| service_panic: "\<not> crashed w \<Longrightarrow> i < length (serving w) \<Longrightarrow> serviceRequest (serving w ! i) (wsc w) = Inl m \<Longrightarrow>
    ws_step reg s w (w\<lparr>crashed := True\<rparr>)"
| read_end: "reading w \<Longrightarrow> \<not> crashed w \<Longrightarrow> ws_step reg s w (w\<lparr>wsc := disconnect_wsc (wsc w), reading := False\<rparr>)"
| message_out: "\<not> crashed w \<Longrightarrow> sendChan (wsc w) = m # ms \<Longrightarrow>
    ws_step reg s w (w\<lparr>wsc := (wsc w)\<lparr>sendChan := ms\<rparr>\<rparr>)"
| disconnected: "\<not> crashed w \<Longrightarrow> ws_step reg s w (w\<lparr>wsc := disconnect_wsc (wsc w)\<rparr>)"

text \<open>What the handlers leave alone of a client: all but the rights, the channel of messages, the semaphore.\<close>

definition same_client :: "wsClient \<Rightarrow> wsClient \<Rightarrow> bool" where
  "same_client c d \<longleftrightarrow> serviceRequestSem d = serviceRequestSem c \<and> disconnected d = disconnected c \<and>
     quit_closed d = quit_closed c \<and> (authenticated c \<longrightarrow> authenticated d \<and> isAdmin d = isAdmin c)"

lemma same_client_refl [simp]: "same_client c c"
  by (simp add: same_client_def)

lemma same_client_trans: "same_client c d \<Longrightarrow> same_client d e \<Longrightarrow> same_client c e"
  by (auto simp: same_client_def)

lemma SendMessage_same [simp]: "same_client c (fst (SendMessage m d c))"
  by (simp add: same_client_def SendMessage_def)

lemma sendReply_same [simp]: "same_client c (sendReply m c)"
  by (simp add: sendReply_def split: sum.split)

lemma inHandler_auth_same: "inHandler_auth s r c = AuthReply d \<Longrightarrow> same_client c d \<and> \<not> authenticated c \<and> authenticated d"
  by (auto simp: inHandler_auth_def Let_def same_client_def split: if_splits prod.splits)

lemma inHandler_auth_pass: "inHandler_auth s r c = AuthPass \<Longrightarrow> authenticated c"
  by (auto simp: inHandler_auth_def Let_def split: if_splits prod.splits)

definition allowed :: "wsClient \<Rightarrow> parsedRPCCmd \<Rightarrow> bool" where
  "allowed c r \<longleftrightarrow> authenticated c \<and> p_err r = None \<and> (isAdmin c \<or> p_method r \<in> set rpcLimited)"

lemma allowed_same: "same_client c d \<Longrightarrow> allowed c r \<Longrightarrow> allowed d r"
  by (auto simp: allowed_def same_client_def)

lemma parseCmd_method: "p_method (parseCmd reg req) = req_Method req"
  by (simp add: parseCmd_def Let_def split: sum.split cmderr.split)

lemma inHandler_single_same:
  assumes "inHandler_single reg s doc c = (out, d)"
  shows "same_client c d \<and> (\<forall>r. out = Serves r \<longrightarrow> d = c \<and> allowed c r)"
proof (cases "Unmarshal_Request doc")
  case (Pair req err)
  note U = Pair
  show ?thesis
  proof (cases "inHandler_auth s (parseCmd reg req) c")
    case (AuthReply e)
    then have "same_client c e" using inHandler_auth_same by blast
    then have "same_client c (sendReply m e)" for m using same_client_trans sendReply_same by blast
    with AuthReply assms U show ?thesis
      by (auto simp: inHandler_single_def Let_def split: option.splits if_splits)
  next
    case AuthPass
    from inHandler_auth_pass [OF this] AuthPass assms U show ?thesis
      by (auto simp: inHandler_single_def Let_def allowed_def parseCmd_method split: option.splits if_splits)
  qed (use assms U in \<open>auto simp: inHandler_single_def Let_def split: option.splits if_splits\<close>)
qed

lemma inHandler_entry_same:
  assumes "inHandler_entry reg s entry c = (out, d, rs)"
  shows "same_client c d \<and> (\<forall>r. out \<noteq> Serves r) \<and> ((\<exists>m. out = Crashes m) \<or> out = Returns \<longrightarrow> authenticated c)"
proof (cases "Unmarshal_Request (Inr (remarshal entry))")
  case (Pair req err)
  note U = Pair
  show ?thesis
  proof (cases "inHandler_auth s (parseCmd reg req) c")
    case (AuthReply e)
    then have "same_client c e" using inHandler_auth_same by blast
    with AuthReply assms U show ?thesis
      by (auto simp: inHandler_entry_def Let_def split: option.splits if_splits)
  next
    case AuthPass
    from inHandler_auth_pass [OF this] AuthPass assms U show ?thesis
      by (auto simp: inHandler_entry_def Let_def split: option.splits if_splits sum.splits handler_err.splits)
  qed (use assms U in \<open>auto simp: inHandler_entry_def Let_def split: option.splits if_splits\<close>)
qed

lemma inHandler_entries_same:
  "inHandler_entries reg s es c results = (out, d, rs) \<Longrightarrow> same_client c d \<and> (\<forall>r. out \<noteq> Serves r)"
proof (induction es arbitrary: c results)
  case (Cons e es)
  obtain out1 d1 rs1 where e: "inHandler_entry reg s e c = (out1, d1, rs1)" by (cases "inHandler_entry reg s e c")
  note f = inHandler_entry_same [OF e]
  show ?case
  proof (cases "out1 = Continues")
    case True
    with Cons.prems e Cons.IH f show ?thesis by (auto intro: same_client_trans)
  next
    case False
    with Cons.prems e f show ?thesis by (cases out1) auto
  qed
qed simp

lemma inHandler_batch_cases:
  obtains "inHandler_batch reg s doc c = (Breaks, c)"
  | es results n where "inHandler_batch reg s doc c = (case inHandler_entries reg s es c results of
      (Continues, c, results) \<Rightarrow> (Continues, batch_answer n results c)
    | (outcome, c, results) \<Rightarrow> (outcome, c))"
proof -
  obtain reqs err where U: "Unmarshal_batch doc = (reqs, err)" by (cases "Unmarshal_batch doc")
  show thesis
  proof (cases "(err \<noteq> None \<and> \<not> authenticated c) \<or> (length reqs = 0 \<and> \<not> authenticated c)")
    case True
    then have "inHandler_batch reg s doc c = (Breaks, c)" using U by (auto simp: inHandler_batch_def Let_def)
    then show thesis by (rule that(1))
  next
    case False
    then have n: "(err \<noteq> None \<and> \<not> authenticated c) = False" "(length reqs = 0 \<and> \<not> authenticated c) = False" by auto
    show thesis
      by (rule that(2)) (unfold inHandler_batch_def Let_def U prod.case n if_False, rule refl)
  qed
qed

lemma inHandler_batch_same:
  assumes "inHandler_batch reg s doc c = (out, d)"
  shows "(\<exists>e. same_client c e \<and> d = (if out = Continues then release_sem e else e)) \<and> (\<forall>r. out \<noteq> Serves r)"
proof (cases rule: inHandler_batch_cases [of reg s doc c])
  case (2 es results n)
  obtain out1 d1 rs1 where e: "inHandler_entries reg s es c results = (out1, d1, rs1)"
    by (cases "inHandler_entries reg s es c results")
  from inHandler_entries_same [OF e] 2 e assms show ?thesis
    by (cases out1) (auto intro: same_client_trans SendMessage_same)
qed (use assms in auto)

lemma release_sem_simps [simp]:
  "authenticated (release_sem c) = authenticated c" "isAdmin (release_sem c) = isAdmin c"
  "disconnected (release_sem c) = disconnected c" "quit_closed (release_sem c) = quit_closed c"
  "0 < held (serviceRequestSem c) \<Longrightarrow> serviceRequestSem (release_sem c) =
     (serviceRequestSem c)\<lparr>held := held (serviceRequestSem c) - 1\<rparr>"
  by (simp_all add: release_sem_def release_def)

lemma disconnect_wsc_simps [simp]:
  "authenticated (disconnect_wsc c) = authenticated c" "isAdmin (disconnect_wsc c) = isAdmin c"
  "serviceRequestSem (disconnect_wsc c) = serviceRequestSem c"
  by (simp_all add: disconnect_wsc_def Disconnect_def)

text \<open>
  The semaphore has an element for every request in service, and one more that a batch left behind
  only when the handler has stopped reading.
\<close>

definition ws_inv :: "ws_conn \<Rightarrow> bool" where
  "ws_inv w \<longleftrightarrow>
     (let sem = serviceRequestSem (wsc w) in
      length (serving w) \<le> held sem \<and> held sem \<le> capacity sem \<and>
      held sem \<le> length (serving w) + (if reading w then 0 else 1)) \<and>
     list_all (allowed (wsc w)) (serving w)"

lemma ws_inv_same:
  assumes "ws_inv w" "same_client (wsc w) c"
  shows "ws_inv (w\<lparr>wsc := c\<rparr>)"
  using assms by (auto simp: ws_inv_def Let_def list_all_iff allowed_same) (auto simp: same_client_def)

lemma acquire_Some: "acquire sem = Some sem' \<longleftrightarrow> held sem < capacity sem \<and> sem' = sem\<lparr>held := held sem + 1\<rparr>"
  by (auto simp: acquire_def)

lemma allowed_cong:
  "authenticated c = authenticated d \<Longrightarrow> isAdmin c = isAdmin d \<Longrightarrow> allowed c r = allowed d r"
  by (simp add: allowed_def)

lemma allowed_updates [simp]:
  "allowed (c\<lparr>serviceRequestSem := sem\<rparr>) = allowed c" "allowed (disconnect_wsc c) = allowed c"
  "allowed (release_sem c) = allowed c" "allowed (c\<lparr>sendChan := ms\<rparr>) = allowed c"
  by (auto simp: allowed_def fun_eq_iff)

lemma ws_step_inv: "ws_step reg s w v \<Longrightarrow> ws_inv w \<Longrightarrow> ws_inv v"
proof (induction rule: ws_step.induct)
  case (single w doc c)
  then show ?case using inHandler_single_same ws_inv_same by blast
next
  case (single_break w doc c)
  with inHandler_single_same [OF single_break(3)] show ?case
    by (auto simp: ws_inv_def Let_def list_all_iff allowed_same) (auto simp: same_client_def)
next
  case (single_serve w doc r c sem)
  with inHandler_single_same [OF single_serve(3)] show ?case
    by (auto simp: ws_inv_def Let_def acquire_Some)
next
  case (batch w sem doc c)
  then obtain e where e: "same_client ((wsc w)\<lparr>serviceRequestSem := sem\<rparr>) e" "c = release_sem e"
    using inHandler_batch_same [OF batch(4)] by auto
  then have "serviceRequestSem e = sem" by (simp add: same_client_def)
  moreover have "list_all (allowed e) (serving w)"
    using batch.prems e(1) allowed_same [of "(wsc w)\<lparr>serviceRequestSem := sem\<rparr>" e] by (auto simp: ws_inv_def list_all_iff)
  ultimately show ?case using batch e(2) by (auto simp: ws_inv_def Let_def acquire_Some)
next
  case (batch_break w sem doc c)
  then have e: "same_client ((wsc w)\<lparr>serviceRequestSem := sem\<rparr>) c"
    using inHandler_batch_same [OF batch_break(4)] by auto
  then have "serviceRequestSem c = sem" by (simp add: same_client_def)
  moreover have "list_all (allowed c) (serving w)"
    using batch_break.prems allowed_same [OF e] by (auto simp: ws_inv_def list_all_iff)
  ultimately show ?case using batch_break by (auto simp: ws_inv_def Let_def acquire_Some)
next
  case (batch_return w sem doc c)
  then have e: "same_client ((wsc w)\<lparr>serviceRequestSem := sem\<rparr>) c"
    using inHandler_batch_same [OF batch_return(4)] by auto
  then have "serviceRequestSem c = sem" by (simp add: same_client_def)
  moreover have "list_all (allowed c) (serving w)"
    using batch_return.prems allowed_same [OF e] by (auto simp: ws_inv_def list_all_iff)
  ultimately show ?case using batch_return by (auto simp: ws_inv_def Let_def acquire_Some)
next
  case (serviced w i c sem)
  then have c: "same_client (wsc w) c" by (auto simp: serviceRequest_def split: sum.splits handler_err.splits)
  then have "serviceRequestSem c = serviceRequestSem (wsc w)" by (simp add: same_client_def)
  moreover have "list_all (allowed c) (take i (serving w) @ drop (Suc i) (serving w))"
    using serviced.prems allowed_same [OF c]
    by (auto simp: ws_inv_def list_all_iff dest!: in_set_takeD in_set_dropD)
  ultimately show ?case using serviced
    by (auto simp: ws_inv_def Let_def release_def split: if_splits)
qed (auto simp: ws_inv_def Let_def)

definition ws_init :: "nat \<Rightarrow> ws_conn \<Rightarrow> bool" where
  "ws_init maxReqs w \<longleftrightarrow> serviceRequestSem (wsc w) = makeSemaphore maxReqs \<and> serving w = [] \<and> reading w \<and> \<not> crashed w"

interpretation ws: invariant_system "ws_init maxReqs" "ws_step reg s" ws_inv
  by unfold_locales (simp add: ws_init_def ws_inv_def makeSemaphore_def, rule ws_step_inv)


section \<open>Clients without credentials\<close>

lemma UnmarshalCmd_type: "UnmarshalCmd reg r = Inr c \<Longrightarrow> methodToConcreteType reg (req_Method r) = Some (fst c)"
  by (auto simp: UnmarshalCmd_def bindR_Inr_conv Let_def split: option.splits gotype.splits)

lemma no_AuthenticateCmd:
  assumes "registered = Some reg" and "p_err (parseCmd reg req) = None"
  shows "\<not> is_AuthenticateCmd (p_cmd (parseCmd reg req))"
proof -
  obtain c where c: "UnmarshalCmd reg req = Inr c" "p_cmd (parseCmd reg req) = Some c"
    using parseCmd_ok [OF assms(2)] by auto
  have "TPtr T_AuthenticateCmd \<notin> set registered_types" by code_simp
  with registered_ran [OF assms(1) UnmarshalCmd_type [OF c(1)]] c(2) show ?thesis
    by (auto simp: is_AuthenticateCmd_def)
qed

lemma unauthenticated_single:
  assumes "registered = Some reg" "\<not> authenticated c" "inHandler_single reg s doc c = (out, d)"
  shows "\<not> authenticated d \<and> (\<forall>r. out \<noteq> Serves r)"
proof -
  obtain req err where U: "Unmarshal_Request doc = (req, err)" by (cases "Unmarshal_Request doc")
  have s: "authenticated (sendReply m c) = authenticated c" for m
    by (simp add: sendReply_def SendMessage_def split: sum.split)
  from assms(2) no_AuthenticateCmd [OF assms(1), of req]
  have "p_err (parseCmd reg req) = None \<Longrightarrow> inHandler_auth s (parseCmd reg req) c = AuthBreak"
    by (simp add: inHandler_auth_def Let_def)
  with assms(2,3) U s show ?thesis
    by (auto simp: inHandler_single_def Let_def split: option.splits if_splits)
qed

lemma unauthenticated_entry:
  assumes "registered = Some reg" "\<not> authenticated c" "inHandler_entry reg s e c = (out, d, rs)"
  shows "\<not> authenticated d \<and> (out = Continues \<or> out = Breaks)"
proof -
  obtain req err where U: "Unmarshal_Request (Inr (remarshal e)) = (req, err)"
    by (cases "Unmarshal_Request (Inr (remarshal e))")
  from assms(2) no_AuthenticateCmd [OF assms(1), of req]
  have "p_err (parseCmd reg req) = None \<Longrightarrow> inHandler_auth s (parseCmd reg req) c = AuthBreak"
    by (simp add: inHandler_auth_def Let_def)
  with assms(2,3) U show ?thesis
    by (auto simp: inHandler_entry_def Let_def split: option.splits if_splits)
qed

lemma unauthenticated_entries:
  assumes "registered = Some reg"
  shows "\<not> authenticated c \<Longrightarrow> inHandler_entries reg s es c results = (out, d, rs) \<Longrightarrow>
    \<not> authenticated d \<and> (out = Continues \<or> out = Breaks)"
proof (induction es arbitrary: c results)
  case (Cons e es)
  obtain out1 d1 rs1 where e: "inHandler_entry reg s e c = (out1, d1, rs1)" by (cases "inHandler_entry reg s e c")
  from unauthenticated_entry [OF assms Cons.prems(1) e] Cons.prems(2) Cons.IH [of d1 "results @ rs1"] e
  show ?case by (cases out1) auto
qed simp

lemma unauthenticated_batch:
  assumes "registered = Some reg" "\<not> authenticated c" "inHandler_batch reg s doc c = (out, d)"
  shows "\<not> authenticated d \<and> (out = Continues \<or> out = Breaks)"
proof (cases rule: inHandler_batch_cases [of reg s doc c])
  case (2 es results n)
  obtain out1 d1 rs1 where e: "inHandler_entries reg s es c results = (out1, d1, rs1)"
    by (cases "inHandler_entries reg s es c results")
  from unauthenticated_entries [OF assms(1,2) e] 2 e assms(3) show ?thesis
    by (auto simp: SendMessage_def split: if_splits)
qed (use assms in auto)

definition locked :: "ws_conn \<Rightarrow> bool" where
  "locked w \<longleftrightarrow> \<not> authenticated (wsc w) \<and> serving w = [] \<and> \<not> crashed w"

lemma ws_step_locked:
  assumes "registered = Some reg"
  shows "ws_step reg s w v \<Longrightarrow> locked w \<Longrightarrow> locked v"
proof (induction rule: ws_step.induct)
  case (batch w sem doc c)
  with unauthenticated_batch [OF assms _ batch(4)] show ?case by (simp add: locked_def)
next
  case (batch_break w sem doc c)
  with unauthenticated_batch [OF assms _ batch_break(4)] show ?case by (simp add: locked_def)
next
  case (batch_return w sem doc c)
  with unauthenticated_batch [OF assms _ batch_return(4)] show ?case by (simp add: locked_def)
next
  case (batch_crash w sem doc m c)
  with unauthenticated_batch [OF assms _ batch_crash(4)] show ?case by (simp add: locked_def)
qed (auto simp: locked_def dest: unauthenticated_single [OF assms])

lemma registered_the: "registered = Some (the registered)"
  using registered_Some by simp

interpretation lockout: invariant_system "\<lambda>w. ws_init maxReqs w \<and> \<not> authenticated (wsc w)" "ws_step (the registered) s" locked
  by unfold_locales (simp add: ws_init_def locked_def, rule ws_step_locked [OF registered_the])

text \<open>C16: With the commands the package registers, a websocket client that did not give credentials with
  the HTTP request can never authenticate: \<^verbatim>\<open>authenticate\<close> is not among them, so \<^verbatim>\<open>parseCmd\<close> fails and the
  client is cut off. It stays unauthenticated, none of its commands is served and it cannot crash the
  server.\<close>

theorem ws_unauthenticated_locked_out:
  assumes "registered = Some reg" "ws_init maxReqs w" "\<not> authenticated (wsc w)" "rtranclp (ws_step reg s) w v"
  shows "\<not> authenticated (wsc v) \<and> serving v = [] \<and> \<not> crashed v"
proof -
  have "the registered = reg" unfolding assms(1) by (rule option.sel)
  with lockout.reach_inv [of maxReqs w s v] assms(2-4) show ?thesis by (simp add: locked_def)
qed

section \<open>The same answers as over HTTP\<close>

lemma standardCmdResult_no_other: "standardCmdResult r \<noteq> Inl (OtherErr e)"
  by (auto simp: standardCmdResult_def rpcHandlers_def handleGetBlockHash_def handleAskWallet_def
      handleUnimplemented_def split: option.splits sum.splits if_splits prod.splits goval.splits list.splits)

lemma parseCmd_fields: "p_jsonrpc (parseCmd reg req) = req_Jsonrpc req" "p_id (parseCmd reg req) = req_ID req"
  by (simp_all add: parseCmd_def Let_def split: sum.split cmderr.split)

definition http_reply :: "string + json option \<Rightarrow> wsClient \<Rightarrow> string + wsClient" where
  "http_reply r c =
     (case r of Inl m \<Rightarrow> Inl m | Inr None \<Rightarrow> Inr c | Inr (Some j) \<Rightarrow> Inr (fst (SendMessage (json_String j) False c)))"

definition ws_answer :: "in_outcome \<times> wsClient \<Rightarrow> string + wsClient" where
  "ws_answer r = (case r of (Serves cmd1, c) \<Rightarrow> serviceRequest cmd1 c | (_, c) \<Rightarrow> Inr c)"

lemma http_reply_error:
  "http_reply (Inr (error_reply req e)) c = Inr (sendReply (createMarshalledReply (req_Jsonrpc req) (req_ID req) None (Some e)) c)"
  by (cases "createMarshalledReply (req_Jsonrpc req) (req_ID req) None (Some e)")
    (auto simp: http_reply_def sendReply_def nil_on_error_def)

lemma http_reply_result:
  "http_reply (Inr (nil_on_error m)) c = Inr (sendReply m c)"
  by (cases m) (auto simp: http_reply_def sendReply_def nil_on_error_def)


section \<open>Ways to lose the server\<close>

definition getblockhash_doc :: "(string \<times> json) list \<Rightarrow> int \<Rightarrow> json" where
  "getblockhash_doc version index = JObject (version @
     [(''method'', JString ''getblockhash''), (''params'', JArray [JInt index]), (''id'', JString ''a'')])"

lemma getblockhash_doc_request:
  "Unmarshal_Request (Inr (getblockhash_doc [(''jsonrpc'', JString v)] index)) =
    (getblockhash_request v index (Some (TString, VString ''a'')), None)"
  "Unmarshal_Request (Inr (getblockhash_doc [] index)) =
    (getblockhash_request [] index (Some (TString, VString ''a'')), None)"
  by (simp_all add: getblockhash_doc_def Unmarshal_Request_def zero_Request_def getblockhash_request_def
      to_lower_def lower_def)

lemma getblockhash_parsed:
  assumes "registered = Some reg" and "- (2 ^ 63) \<le> index" and "index < 2 ^ 63"
  shows "parseCmd reg (getblockhash_request v index id1) =
    \<lparr>p_jsonrpc = v, p_id = id1, p_method = ''getblockhash'', p_cmd = Some (NewGetBlockHashCmd index), p_err = None\<rparr>"
  using UnmarshalCmd_getblockhash [OF assms, of v id1]
  by (simp add: parseCmd_def getblockhash_request_def)

lemma getblockhash_auth:
  "authenticated c \<Longrightarrow> p_cmd r = Some (NewGetBlockHashCmd index) \<Longrightarrow> inHandler_auth s r c = AuthPass"
  by (simp add: inHandler_auth_def Let_def is_AuthenticateCmd_def NewGetBlockHashCmd_def
      T_AuthenticateCmd_def T_GetBlockHashCmd_def)

lemma getblockhash_negative:
  assumes "p_method r = ''getblockhash''" "p_cmd r = Some (NewGetBlockHashCmd index)" "index < 0"
  shows "\<exists>m. serviceRequest r c = Inl m"
  using assms NewHashFromStr_negative [OF assms(3)]
  by (auto simp: serviceRequest_def ws_command_result_def wsHandlers_def standardCmdResult_def rpcHandlers_def
      handleGetBlockHash_def NewGetBlockHashCmd_def)

text \<open>C34: Any authenticated websocket client, limited ones included, can end the whole process with one
  request: the handler of \<^verbatim>\<open>getblockhash\<close> panics on a negative index, and it runs in a goroutine of
  its own, where nothing recovers from the panic.\<close>

theorem ws_negative_index_crash:
  assumes "registered = Some reg" and "authenticated (wsc w)" and "reading w" and "\<not> crashed w"
    and "held (serviceRequestSem (wsc w)) < capacity (serviceRequestSem (wsc w))"
    and "- (2 ^ 63) \<le> index" and "index < (0 :: int)"
  shows "\<exists>v. rtranclp (ws_step reg s) w v \<and> crashed v"
proof -
  let ?r = "parseCmd reg (getblockhash_request ''2.0'' index (Some (TString, VString ''a'')))"
  have r: "?r = \<lparr>p_jsonrpc = ''2.0'', p_id = Some (TString, VString ''a''), p_method = ''getblockhash'',
      p_cmd = Some (NewGetBlockHashCmd index), p_err = None\<rparr>"
    using assms(6,7) by (intro getblockhash_parsed [OF assms(1)]) simp_all
  have "inHandler_single reg s (Inr (getblockhash_doc [(''jsonrpc'', JString ''2.0'')] index)) (wsc w) = (Serves ?r, wsc w)"
    using getblockhash_auth [OF assms(2), of ?r index s] r getblockhash_tables
    by (simp add: inHandler_single_def getblockhash_doc_request Let_def)
  note one = ws_step.single_serve [OF assms(3,4) this, of "(serviceRequestSem (wsc w))\<lparr>held := held (serviceRequestSem (wsc w)) + 1\<rparr>"]
  let ?v = "w\<lparr>wsc := (wsc w)\<lparr>serviceRequestSem := (serviceRequestSem (wsc w))\<lparr>held := held (serviceRequestSem (wsc w)) + 1\<rparr>\<rparr>,
    serving := serving w @ [?r]\<rparr>"
  have s1: "ws_step reg s w ?v" using one assms(5) by (simp add: acquire_Some)
  obtain m where "serviceRequest ?r (wsc ?v) = Inl m"
    using getblockhash_negative [of ?r index "wsc ?v"] r assms(7) by auto
  then have "ws_step reg s ?v (?v\<lparr>crashed := True\<rparr>)"
    using assms(4) by (intro ws_step.service_panic [of ?v "length (serving w)"]) simp_all
  with s1 show ?thesis
    by (intro exI [of _ "?v\<lparr>crashed := True\<rparr>"]) (auto intro: rtranclp.rtrancl_into_rtrancl)
qed

text \<open>A batch from an authenticated client with a request for a standard command but without a version
  makes \<^verbatim>\<open>inHandler\<close> return, since the reply cannot be marshalled: the connection stays open though
  nothing reads from it any more, and the element the batch took from the semaphore is never released.\<close>

theorem ws_batch_without_version:
  assumes "registered = Some reg" and "authenticated (wsc w)" and "reading w" and "\<not> crashed w"
    and "\<not> disconnected (wsc w)"
    and "held (serviceRequestSem (wsc w)) < capacity (serviceRequestSem (wsc w))"
    and "0 \<le> index" and "index < 2 ^ 63"
  shows "inHandler_batch reg s (Inr (JArray [getblockhash_doc [] index])) (wsc w) = (Returns, wsc w) \<and>
    (\<exists>v. ws_step reg s w v \<and> \<not> reading v \<and> \<not> disconnected (wsc v) \<and> serving v = serving w \<and>
      held (serviceRequestSem (wsc v)) = held (serviceRequestSem (wsc w)) + 1)"
proof -
  let ?r = "parseCmd reg (getblockhash_request [] index (Some (TString, VString ''a'')))"
  have r: "?r = \<lparr>p_jsonrpc = [], p_id = Some (TString, VString ''a''), p_method = ''getblockhash'',
      p_cmd = Some (NewGetBlockHashCmd index), p_err = None\<rparr>"
    using assms(7,8) by (intro getblockhash_parsed [OF assms(1)]) simp_all
  obtain h where h: "NewHashFromStr (fmt_d index) = Inr h" using NewHashFromStr_decimal [OF assms(7,8)] by blast
  have e: "inHandler_entry reg s (getblockhash_doc [] index) c = (Returns, c, [])" if "authenticated c" for c
  proof -
    have "remarshal (getblockhash_doc [] index) =
        JObject [(''id'', JString ''a''), (''method'', JString ''getblockhash''), (''params'', JArray [JInt index])]"
      by (simp add: getblockhash_doc_def canon_members_def less_list_code less_eq_list_code less_char_def less_eq_char_def)
    then have u: "Unmarshal_Request (Inr (remarshal (getblockhash_doc [] index))) =
        (getblockhash_request [] index (Some (TString, VString ''a'')), None)"
      by (simp add: Unmarshal_Request_def zero_Request_def getblockhash_request_def to_lower_def)
    obtain err where n: "createMarshalledReply [] (Some (TString, VString ''a'')) result None = Inl err" for result
      using MarshalResponse_no_version [of "[]"] by (force simp: createMarshalledReply_def RPCVersion_IsValid_iff MarshalResponse_def)
    show ?thesis
      using getblockhash_auth [OF that, of ?r index s] r getblockhash_tables u h n
      by (simp add: inHandler_entry_def Let_def ws_command_result_def wsHandlers_def standardCmdResult_def
          rpcHandlers_def handleGetBlockHash_def NewGetBlockHashCmd_def result_reply_def)
  qed
  have b: "inHandler_batch reg s (Inr (JArray [getblockhash_doc [] index])) c = (Returns, c)" if "authenticated c" for c
    using e [OF that] by (simp add: inHandler_batch_def Unmarshal_batch_def)
  let ?sem = "(serviceRequestSem (wsc w))\<lparr>held := held (serviceRequestSem (wsc w)) + 1\<rparr>"
  have "ws_step reg s w (w\<lparr>wsc := (wsc w)\<lparr>serviceRequestSem := ?sem\<rparr>, reading := False\<rparr>)"
    using assms(2-4,6) b [of "(wsc w)\<lparr>serviceRequestSem := ?sem\<rparr>"]
    by (intro ws_step.batch_return [where sem = ?sem]) (simp_all add: acquire_Some)
  with b [OF assms(2)] assms(5) show ?thesis
    by (intro conjI exI [of _ "w\<lparr>wsc := (wsc w)\<lparr>serviceRequestSem := ?sem\<rparr>, reading := False\<rparr>"]) simp_all
qed

section \<open>A connection as an example\<close>

definition sample_ws :: "bool \<Rightarrow> ws_conn" where
  "sample_ws auth = \<lparr>wsc = (client sample_outgoing)\<lparr>authenticated := auth\<rparr>, serving = [], reading = True, crashed = False\<rparr>"

lemma sample_ws_simps [simp]:
  "authenticated (wsc (sample_ws auth)) = auth" "isAdmin (wsc (sample_ws auth)) = False"
  "reading (sample_ws auth)" "\<not> crashed (sample_ws auth)" "\<not> disconnected (wsc (sample_ws auth))"
  "serving (sample_ws auth) = []"
  "held (serviceRequestSem (wsc (sample_ws auth))) = 0" "capacity (serviceRequestSem (wsc (sample_ws auth))) = 20"
  "ws_init 20 (sample_ws auth)"
  by (simp_all add: sample_ws_def sample_outgoing_def makeSemaphore_def ws_init_def)


theorem ws_unauthenticated_locked_out_witness:
  "\<not> authenticated (wsc ((sample_ws False)\<lparr>wsc := disconnect_wsc (wsc (sample_ws False)), reading := False\<rparr>))"
proof -
  have "ws_step (the registered) s (sample_ws False) ((sample_ws False)\<lparr>wsc := disconnect_wsc (wsc (sample_ws False)), reading := False\<rparr>)"
    for s by (rule ws_step.read_end) simp_all
  from ws_unauthenticated_locked_out [OF registered_the, of 20 "sample_ws False", OF _ _ r_into_rtranclp [of "ws_step (the registered) _", OF this]]
  show ?thesis by simp
qed

theorem ws_negative_index_crash_witness:
  "\<exists>v. rtranclp (ws_step (the registered) sample_server) (sample_ws True) v \<and> crashed v"
  by (rule ws_negative_index_crash [OF registered_the, of _ "- 1"]) simp_all

theorem ws_batch_without_version_witness:
  "\<exists>v. ws_step (the registered) sample_server (sample_ws True) v \<and> \<not> reading v \<and> \<not> disconnected (wsc v) \<and>
     held (serviceRequestSem (wsc v)) = 1"
  using ws_batch_without_version [OF registered_the, of "sample_ws True" 7 sample_server] by auto


end
