(* ===== verification/Ws_Notify.thy ===== *)
theory Ws_Notify
  imports Rpcwebsocket "HOL-Library.AList"
begin

text \<open>
  The notification manager of the websocket clients (\<^verbatim>\<open>wsNotificationManager\<close> in
  \<^verbatim>\<open>rpcwebsocket.go\<close>): the messages \<^verbatim>\<open>notificationHandler\<close> handles, the life of a connection in
  \<^verbatim>\<open>WebsocketHandler\<close>, and the notifications for transactions that spend a watched output. A client is
  identified by its \<^verbatim>\<open>quit\<close> channel, here a number.
\<close>

type_synonym client_id = nat

section \<open>The notification handler\<close>

text \<open>The messages in the order of their types in the source. Of the last ones only the type matters.\<close>

datatype ntfn_msg =
    BlockConnected
  | BlockDisconnected
  | TxAcceptedByMempool
  | RegisterClient client_id
  | UnregisterClient client_id
  | RegisterBlocks client_id
  | UnregisterBlocks client_id
  | RegisterNewMempoolTxs client_id
  | UnregisterNewMempoolTxs client_id
  | RegisterSpent client_id
  | UnregisterSpent client_id
  | RegisterAddr client_id
  | UnregisterAddr client_id

text \<open>The maps of the handler, of which only the keys matter, as lists without repetition.\<close>

record wsNotificationManager =
  clients :: "client_id list"
  blockNotifications :: "client_id list"
  txNotifications :: "client_id list"
  handler_running :: bool

definition newWsNotificationManager :: wsNotificationManager where
  "newWsNotificationManager =
     \<lparr>clients = [], blockNotifications = [], txNotifications = [], handler_running = False\<rparr>"

definition manager_Start :: "wsNotificationManager \<Rightarrow> wsNotificationManager" where
  "manager_Start m = m\<lparr>handler_running := True\<rparr>"

text \<open>The cases for the other types are commented out: they fall into the default, which only logs.\<close>

fun notificationHandler_msg :: "ntfn_msg \<Rightarrow> wsNotificationManager \<Rightarrow> wsNotificationManager" where
  "notificationHandler_msg (RegisterBlocks c) m = m\<lparr>blockNotifications := List.insert c (blockNotifications m)\<rparr>"
| "notificationHandler_msg (UnregisterBlocks c) m = m\<lparr>blockNotifications := remove1 c (blockNotifications m)\<rparr>"
| "notificationHandler_msg (RegisterClient c) m = m\<lparr>clients := List.insert c (clients m)\<rparr>"
| "notificationHandler_msg (RegisterNewMempoolTxs c) m = m\<lparr>txNotifications := List.insert c (txNotifications m)\<rparr>"
| "notificationHandler_msg (UnregisterNewMempoolTxs c) m = m\<lparr>txNotifications := remove1 c (txNotifications m)\<rparr>"
| "notificationHandler_msg _ m = m"

text \<open>When \<^verbatim>\<open>quit\<close> is closed the handler ends and disconnects every client it knows.\<close>

definition notificationHandler_quit ::
  "wsNotificationManager \<Rightarrow> (client_id \<Rightarrow> wsClient) \<Rightarrow> (client_id \<Rightarrow> wsClient) \<times> wsNotificationManager" where
  "notificationHandler_quit m cs =
     (fold (\<lambda>c cs. cs(c := disconnect_wsc (cs c))) (clients m) cs, m\<lparr>handler_running := False\<rparr>)"

definition NumClients :: "wsNotificationManager \<Rightarrow> int" where
  "NumClients m = (if handler_running m then int (length (clients m)) else 0)"

definition AddClient :: "client_id \<Rightarrow> wsNotificationManager \<Rightarrow> wsNotificationManager" where
  "AddClient c m = notificationHandler_msg (RegisterClient c) m"

definition RemoveClient :: "client_id \<Rightarrow> wsNotificationManager \<Rightarrow> wsNotificationManager" where
  "RemoveClient c m = (if handler_running m then notificationHandler_msg (UnregisterClient c) m else m)"

section \<open>The life of a connection\<close>

text \<open>
  \<^verbatim>\<open>WebsocketHandler\<close> up to the point where the client is started: \<open>None\<close> when the connection is
  closed because there are too many clients or there is no session id.
\<close>

definition WebsocketHandler_open ::
  "rpc_config \<Rightarrow> client_id \<Rightarrow> goerr + uint64 \<Rightarrow> string \<Rightarrow> bool \<Rightarrow> bool \<Rightarrow> wsNotificationManager \<Rightarrow>
     wsClient option \<times> wsNotificationManager" where
  "WebsocketHandler_open cfg c random remoteAddr auth admin m =
     (if NumClients m + 1 > RPCMaxWebsockets cfg then (None, m)
      else
        case newWebsocketClient (nat (RPCMaxConcurrentReqs cfg)) random remoteAddr auth admin of
          Inl err \<Rightarrow> (None, m)
        | Inr client1 \<Rightarrow> (Some client1, AddClient c m))"

text \<open>The whole life: whether the connection was served, and the manager when it is gone.\<close>

definition WebsocketHandler ::
  "rpc_config \<Rightarrow> goerr + uint64 \<Rightarrow> client_id \<Rightarrow> wsNotificationManager \<Rightarrow> bool \<times> wsNotificationManager" where
  "WebsocketHandler cfg random c m =
     (case WebsocketHandler_open cfg c random [] True False m of
        (None, m) \<Rightarrow> (False, m)
      | (Some client1, m) \<Rightarrow> (True, RemoveClient c m))"

primrec websocket_sessions ::
  "rpc_config \<Rightarrow> (goerr + uint64) \<Rightarrow> client_id list \<Rightarrow> wsNotificationManager \<Rightarrow> bool list" where
  "websocket_sessions cfg random [] m = []"
| "websocket_sessions cfg random (c # cs) m =
     (let (served, m) = WebsocketHandler cfg random c m in served # websocket_sessions cfg random cs m)"

lemma websocket_sessions_from:
  "handler_running m \<Longrightarrow> distinct (cs @ clients m) \<Longrightarrow>
    websocket_sessions cfg (Inr sid) cs m =
      map (\<lambda>i. int (length (clients m) + i) < RPCMaxWebsockets cfg) [0..<length cs]"
proof (induction cs arbitrary: m)
  case (Cons c cs)
  show ?case
  proof (cases "int (length (clients m)) < RPCMaxWebsockets cfg")
    case True
    then have w: "WebsocketHandler cfg (Inr sid) c m = (True, m\<lparr>clients := c # clients m\<rparr>)"
      using Cons.prems by (auto simp: WebsocketHandler_def WebsocketHandler_open_def NumClients_def
          newWebsocketClient_def AddClient_def RemoveClient_def)
    have l: "[0..<Suc (length cs)] = 0 # map Suc [0..<length cs]"
      by (simp only: map_Suc_upt upt_conv_Cons zero_less_Suc)
    show ?thesis
      using Cons.IH [of "m\<lparr>clients := c # clients m\<rparr>"] Cons.prems w True
      by (simp add: l o_def algebra_simps del: upt_Suc)
  next
    case False
    then have w: "WebsocketHandler cfg (Inr sid) c m = (False, m)"
      using Cons.prems(1) by (simp add: WebsocketHandler_def WebsocketHandler_open_def NumClients_def)
    from False have n: "(\<lambda>i. int (length (clients m) + i) < RPCMaxWebsockets cfg) = (\<lambda>i. False)"
      by (auto simp: fun_eq_iff)
    show ?thesis using Cons.IH [of m] Cons.prems w unfolding n by (simp add: map_replicate_const)
  qed
qed simp



section \<open>Spent outputs\<close>

text \<open>
  \<open>ops\<close> maps an outpoint to the clients to notify when it is spent, each client has the set of the
  outpoints it watches in \<^verbatim>\<open>spentRequests\<close>. Go leaves the order of an iteration over a map open; the
  clients of an outpoint are visited in the order of the list here, and no theorem depends on it.
\<close>

record spent_watch =
  ops :: "(OutPoint \<times> client_id list) list"
  spent :: "client_id \<Rightarrow> OutPoint list"

definition watchers :: "spent_watch \<Rightarrow> OutPoint \<Rightarrow> client_id list" where
  "watchers w op = (case map_of (ops w) op of None \<Rightarrow> [] | Some cs \<Rightarrow> cs)"

definition removeSpentRequest :: "client_id \<Rightarrow> OutPoint \<Rightarrow> spent_watch \<Rightarrow> spent_watch" where
  "removeSpentRequest c op w =
     (let w = w\<lparr>spent := (spent w)(c := removeAll op (spent w c))\<rparr> in
      case map_of (ops w) op of
        None \<Rightarrow> w
      | Some notifyMap \<Rightarrow>
          let notifyMap = removeAll c notifyMap in
          if length notifyMap = 0 then w\<lparr>ops := AList.delete op (ops w)\<rparr>
          else w\<lparr>ops := AList.update op notifyMap (ops w)\<rparr>)"

definition txHexString :: "MsgTx \<Rightarrow> string" where
  "txHexString tx = (let (_, buf) = Serialize tx emptyBuffer in hex_EncodeToString (wbuf buf))"

definition blockDetails :: "Block option \<Rightarrow> int \<Rightarrow> goval option" where
  "blockDetails block txIdx =
     (case block of
        None \<Rightarrow> None
      | Some b \<Rightarrow> Some (VStruct [VInt (sint (Height b)), VString (hash_String (fst (Block_Hash b))),
          VInt txIdx, VInt (Unix (Timestamp (Header (Block_MsgBlock b))))]))"

definition newRedeemingTxNotification :: "registry \<Rightarrow> string \<Rightarrow> int \<Rightarrow> Block option \<Rightarrow> json jresult" where
  "newRedeemingTxNotification reg txHex index block =
     (let ntfn = NewRedeemingTxNtfn txHex (blockDetails block index) in MarshalCmd reg RpcVersion1 None ntfn)"

text \<open>One client watching the outpoint: its request goes if the transaction is in a block, and it is
  notified unless it was already.\<close>

definition notify_client ::
  "Block option \<Rightarrow> OutPoint \<Rightarrow> json \<Rightarrow> client_id \<Rightarrow> spent_watch \<times> (client_id \<times> json) list \<Rightarrow>
     spent_watch \<times> (client_id \<times> json) list" where
  "notify_client block prevOut marshalledJSON c = (\<lambda>(w, sent).
     let w = (if block \<noteq> None then removeSpentRequest c prevOut w else w)
     in (w, if c \<notin> set (map fst sent) then sent @ [(c, marshalledJSON)] else sent))"

text \<open>The notifications given to \<^verbatim>\<open>QueueNotification\<close>, in order; \<^verbatim>\<open>wscNotified\<close> has the clients in them.\<close>

primrec notifyForTxIns_loop ::
  "registry \<Rightarrow> Tx \<Rightarrow> Block option \<Rightarrow> TxIn list \<Rightarrow> spent_watch \<times> (client_id \<times> json) list \<Rightarrow>
     spent_watch \<times> (client_id \<times> json) list" where
  "notifyForTxIns_loop reg tx block [] ws = ws"
| "notifyForTxIns_loop reg tx block (txIn # ins) ws =
     (let prevOut = PreviousOutPoint txIn in
      notifyForTxIns_loop reg tx block ins
        (case map_of (ops (fst ws)) prevOut of
           None \<Rightarrow> ws
         | Some cmap \<Rightarrow>
             (case newRedeemingTxNotification reg (txHexString (Tx_MsgTx tx)) (Tx_Index tx) block of
                Inl err \<Rightarrow> ws
              | Inr marshalledJSON \<Rightarrow> fold (notify_client block prevOut marshalledJSON) cmap ws)))"

definition notifyForTxIns ::
  "registry \<Rightarrow> spent_watch \<Rightarrow> Tx \<Rightarrow> Block option \<Rightarrow> spent_watch \<times> (client_id \<times> json) list" where
  "notifyForTxIns reg w tx block =
     (if length (ops w) = 0 then (w, [])
      else notifyForTxIns_loop reg tx block (msg_TxIn (Tx_MsgTx tx)) (w, []))"

text \<open>The body of \<^verbatim>\<open>notifyForTxOuts\<close> is commented out.\<close>

definition notifyForTxOuts :: "spent_watch \<Rightarrow> Tx \<Rightarrow> Block option \<Rightarrow> spent_watch" where
  "notifyForTxOuts w tx block = w"

definition notifyForTx ::
  "registry \<Rightarrow> spent_watch \<Rightarrow> bool \<Rightarrow> Tx \<Rightarrow> Block option \<Rightarrow> spent_watch \<times> (client_id \<times> json) list" where
  "notifyForTx reg w addrs_watched tx block =
     (let (w, sent) = (if length (ops w) \<noteq> 0 then notifyForTxIns reg w tx block else (w, []))
      in (if addrs_watched then notifyForTxOuts w tx block else w, sent))"

section \<open>The invariant of the two sets of requests\<close>

definition watch_inv :: "spent_watch \<Rightarrow> bool" where
  "watch_inv w \<longleftrightarrow> distinct (map fst (ops w)) \<and> list_all (\<lambda>(op, cs). cs \<noteq> []) (ops w) \<and>
     (\<forall>op c. c \<in> set (watchers w op) \<longleftrightarrow> op \<in> set (spent w c))"

lemma watchers_remove:
  assumes "distinct (map fst (ops w))"
  shows "watchers (removeSpentRequest c op w) op' = (if op' = op then removeAll c (watchers w op) else watchers w op')"
  using assms
  by (auto simp: watchers_def removeSpentRequest_def Let_def AList.update_conv' AList.delete_conv'
      simp del: map_of_eq_Some_iff split: option.splits if_splits)

lemma removeSpentRequest_inv:
  assumes "watch_inv w"
  shows "watch_inv (removeSpentRequest c op w)"
proof -
  have d: "distinct (map fst (ops w))" and ne: "\<And>op cs. (op, cs) \<in> set (ops w) \<Longrightarrow> cs \<noteq> []"
    and wt: "\<And>op c. c \<in> set (watchers w op) \<longleftrightarrow> op \<in> set (spent w c)"
    using assms by (auto simp: watch_inv_def list_all_iff)
  let ?w = "removeSpentRequest c op w"
  have "spent ?w = (spent w)(c := removeAll op (spent w c))"
    by (auto simp: removeSpentRequest_def Let_def split: option.splits)
  then have "\<forall>op' c'. c' \<in> set (watchers ?w op') \<longleftrightarrow> op' \<in> set (spent ?w c')"
    using wt by (auto simp: watchers_remove [OF d])
  moreover have "distinct (map fst (ops ?w))"
    using d by (auto simp: removeSpentRequest_def Let_def distinct_update distinct_delete split: option.splits)
  moreover have "cs \<noteq> []" if "(op', cs) \<in> set (ops ?w)" for op' cs
  proof -
    have "map_of (ops ?w) op' = Some cs" using that \<open>distinct (map fst (ops ?w))\<close> by simp
    then show ?thesis
      using ne d by (auto simp: removeSpentRequest_def Let_def AList.update_conv' AList.delete_conv' map_of_eq_Some_iff
          split: option.splits if_splits)
  qed
  ultimately show ?thesis by (auto simp: watch_inv_def list_all_iff)
qed

section \<open>Who is notified\<close>

lemma fold_notify:
  assumes "fold (notify_client block op j) cs (w, sent) = (v, sent')" and "watch_inv w" and "distinct (map fst sent)"
  shows "watch_inv v" "distinct (map fst sent')" "set (map fst sent') = set (map fst sent) \<union> set cs"
    "set (map snd sent') \<subseteq> insert j (set (map snd sent))"
    "watchers v = (if block = None then watchers w else (watchers w)(op := filter (\<lambda>c. c \<notin> set cs) (watchers w op)))"
    "block = None \<Longrightarrow> v = w"
proof -
  have "watch_inv v \<and> distinct (map fst sent') \<and> set (map fst sent') = set (map fst sent) \<union> set cs \<and>
    set (map snd sent') \<subseteq> insert j (set (map snd sent)) \<and>
    watchers v = (if block = None then watchers w else (watchers w)(op := filter (\<lambda>c. c \<notin> set cs) (watchers w op))) \<and>
    (block = None \<longrightarrow> v = w)"
    using assms
  proof (induction cs arbitrary: w sent)
    case (Cons c cs)
    define w1 where "w1 = (if block \<noteq> None then removeSpentRequest c op w else w)"
    define s1 where "s1 = (if c \<notin> set (map fst sent) then sent @ [(c, j)] else sent)"
    have "notify_client block op j c (w, sent) = (w1, s1)" by (simp add: notify_client_def w1_def s1_def Let_def)
    with Cons.prems(1) have f: "fold (notify_client block op j) cs (w1, s1) = (v, sent')" by simp
    have i: "watch_inv w1" using Cons.prems(2) removeSpentRequest_inv by (simp add: w1_def)
    have d: "distinct (map fst s1)" "set (map fst s1) = insert c (set (map fst sent))"
      "set (map snd s1) \<subseteq> insert j (set (map snd sent))"
      using Cons.prems(3) by (auto simp: s1_def)
    have w: "watchers w1 = (if block = None then watchers w else (watchers w)(op := removeAll c (watchers w op)))"
      using Cons.prems(2) watchers_remove [of w c op] by (auto simp: w1_def watch_inv_def fun_eq_iff)
    have m: "filter (\<lambda>x. x \<notin> set cs) (removeAll c (watchers w op)) = filter (\<lambda>x. x \<notin> set (c # cs)) (watchers w op)"
      by (auto simp: removeAll_filter_not_eq intro!: filter_cong)
    note IH = Cons.IH [OF f i d(1)]
    have "watchers v = (if block = None then watchers w else (watchers w)(op := filter (\<lambda>x. x \<notin> set (c # cs)) (watchers w op)))"
      using IH unfolding w m [symmetric] by simp
    moreover have "set (map fst sent') = set (map fst sent) \<union> set (c # cs)" using IH d(2) by simp
    moreover have "set (map snd sent') \<subseteq> insert j (set (map snd sent))" using IH d(3) by blast
    moreover have "block = None \<longrightarrow> v = w" using IH by (simp add: w1_def)
    ultimately show ?case using IH by simp
  qed auto
  then show "watch_inv v" "distinct (map fst sent')" "set (map fst sent') = set (map fst sent) \<union> set cs"
    "set (map snd sent') \<subseteq> insert j (set (map snd sent))"
    "watchers v = (if block = None then watchers w else (watchers w)(op := filter (\<lambda>c. c \<notin> set cs) (watchers w op)))"
    "block = None \<Longrightarrow> v = w" by blast+
qed

lemma un_chain: "A \<union> W = R \<Longrightarrow> X = S \<union> W \<union> A \<Longrightarrow> X = S \<union> R"
  by blast

lemma notifyForTxIns_loop_spec:
  assumes "newRedeemingTxNotification reg (txHexString (Tx_MsgTx tx)) (Tx_Index tx) block = Inr j"
  shows "notifyForTxIns_loop reg tx block ins (w, sent) = (v, sent') \<Longrightarrow> watch_inv w \<Longrightarrow> distinct (map fst sent) \<Longrightarrow>
    watch_inv v \<and> distinct (map fst sent') \<and> set (map snd sent') \<subseteq> insert j (set (map snd sent)) \<and>
    set (map fst sent') = set (map fst sent) \<union> (\<Union>i \<in> set ins. set (watchers w (PreviousOutPoint i))) \<and>
    watchers v = (\<lambda>op. if block \<noteq> None \<and> op \<in> PreviousOutPoint ` set ins then [] else watchers w op)"
proof (induction ins arbitrary: w sent)
  case (Cons i ins)
  let ?op = "PreviousOutPoint i"
  obtain w1 s1 where f: "fold (notify_client block ?op j) (watchers w ?op) (w, sent) = (w1, s1)"
    by (cases "fold (notify_client block ?op j) (watchers w ?op) (w, sent)")
  have l: "notifyForTxIns_loop reg tx block ins (w1, s1) = (v, sent')"
    using Cons.prems(1) f assms by (cases "map_of (ops w) ?op") (simp_all add: watchers_def Let_def)
  note n = fold_notify [OF f Cons.prems(2,3)]
  have w1: "watchers w1 = (if block = None then watchers w else (watchers w)(?op := []))"
    using n(5) by simp
  note IH = Cons.IH [OF l n(1,2)]
  have "set (map snd sent') \<subseteq> insert j (set (map snd sent))" using IH n(4) by blast
  moreover have "set (map fst sent') = set (map fst sent) \<union> (\<Union>i \<in> set (i # ins). set (watchers w (PreviousOutPoint i)))"
  proof (cases "block = None")
    case True
    then show ?thesis using IH n(3) w1 by (simp add: Un_assoc)
  next
    case False
    then have "(\<Union>k \<in> set ins. set (watchers w1 (PreviousOutPoint k))) \<union> set (watchers w ?op) =
        (\<Union>k \<in> set (i # ins). set (watchers w (PreviousOutPoint k)))"
      using w1 by (auto split: if_splits) metis
    moreover have "set (map fst sent') = set (map fst s1) \<union> (\<Union>k \<in> set ins. set (watchers w1 (PreviousOutPoint k)))"
      using IH by blast
    ultimately show ?thesis unfolding n(3) by (rule un_chain)
  qed
  moreover have "watchers v = (\<lambda>op. if block \<noteq> None \<and> op \<in> PreviousOutPoint ` set (i # ins) then [] else watchers w op)"
    using IH w1 by (cases "block = None") (auto simp: fun_eq_iff)
  ultimately show ?case using IH by blast
qed (auto simp: fun_eq_iff)

lemma newRedeemingTxNotification_Inr:
  assumes "registered = Some reg"
  shows "\<exists>j. newRedeemingTxNotification reg txHex index block = Inr j"
proof -
  have "TPtr T_RedeemingTxNtfn \<in> dom (concreteTypeToMethod reg)"
    unfolding registered_dom(2) [OF assms] by (simp add: registered_types_def)
  then obtain m where m: "concreteTypeToMethod reg (TPtr T_RedeemingTxNtfn) = Some m" by blast
  have v: "RPCVersion_IsValid RpcVersion1" by code_simp
  have "\<exists>js. marshal_params (makeParams [fld ''HexTx'' TString, fld ''Block'' (TPtr T_BlockDetails)]
      [VString txHex, VPtr (blockDetails block index)]) = Inr js"
    by (cases block) (simp_all add: makeParams_def Let_def fld_def jfld_def blockDetails_def json_Marshal_iface_def
        T_BlockDetails_def)
  then show ?thesis
    using m v by (auto simp: newRedeemingTxNotification_def NewRedeemingTxNtfn_def MarshalCmd_def NewRequest_def
        T_RedeemingTxNtfn_def bindR_Inr_conv Request_json_def json_Marshal_iface_def)
qed

text \<open>C32: When a transaction comes, each client that watches one of the outputs it spends is notified exactly
  once, however many of them it watches, and nobody else is. If the transaction is in a block the requests
  that matched are gone afterwards, from the manager and from the clients; otherwise nothing changes.\<close>

theorem notifyForTxIns_spec:
  assumes "registered = Some reg" and "watch_inv w" and "notifyForTxIns reg w tx block = (v, sent)"
  shows "watch_inv v \<and> distinct (map fst sent) \<and>
    set (map fst sent) = (\<Union>i \<in> set (msg_TxIn (Tx_MsgTx tx)). set (watchers w (PreviousOutPoint i))) \<and>
    (\<forall>op. watchers v op =
      (if block \<noteq> None \<and> op \<in> PreviousOutPoint ` set (msg_TxIn (Tx_MsgTx tx)) then [] else watchers w op))"
proof -
  obtain j where j: "newRedeemingTxNotification reg (txHexString (Tx_MsgTx tx)) (Tx_Index tx) block = Inr j"
    using newRedeemingTxNotification_Inr [OF assms(1)] by blast
  show ?thesis
  proof (cases "ops w")
    case Nil
    then have "watchers w op = []" for op by (simp add: watchers_def)
    with Nil assms(2,3) show ?thesis by (simp add: notifyForTxIns_def)
  next
    case (Cons a as)
    then have "notifyForTxIns_loop reg tx block (msg_TxIn (Tx_MsgTx tx)) (w, []) = (v, sent)"
      using assms(3) by (simp add: notifyForTxIns_def)
    from notifyForTxIns_loop_spec [OF j this assms(2)] show ?thesis by simp
  qed
qed

definition sample_op :: OutPoint where
  "sample_op = \<lparr>op_Hash = replicate 32 1, op_Index = 0\<rparr>"

definition sample_watch :: spent_watch where
  "sample_watch = \<lparr>ops = [(sample_op, [3, 9])], spent = (\<lambda>c. if c \<in> {3, 9} then [sample_op] else [])\<rparr>"

definition sample_spend :: Tx where
  "sample_spend = NewTx \<lparr>tx_Version = 1, msg_TxIn = [\<lparr>PreviousOutPoint = sample_op, SignatureScript = [], Witness = [], Sequence = 0\<rparr>],
     msg_TxOut = [], LockTime = 0\<rparr>"

theorem notifyForTxIns_spec_witness:
  "\<exists>v sent. notifyForTxIns (the registered) sample_watch sample_spend None = (v, sent) \<and> set (map fst sent) = {3, 9} \<and>
     distinct (map fst sent)"
proof -
  obtain v sent where n: "notifyForTxIns (the registered) sample_watch sample_spend None = (v, sent)"
    by (cases "notifyForTxIns (the registered) sample_watch sample_spend None")
  have "watch_inv sample_watch" by (auto simp: watch_inv_def watchers_def sample_watch_def)
  from notifyForTxIns_spec [OF registered_the this n] n show ?thesis
    by (auto simp: sample_spend_def NewTx_def Tx_MsgTx_def watchers_def sample_watch_def)
qed

end
