(* ===== verification/Float64.thy ===== *)
theory Float64
  imports Prelude Complex_Main
begin

text \<open>
  The finite values of \<^verbatim>\<open>float64\<close> as rational numbers, with rounding to the nearest and ties to even, and
  the values of the number literals of JSON. Zero has no sign here, which no code of the sources
  observes. On them, the amounts of \<^verbatim>\<open>acbcutil/amount.go\<close>.
\<close>

section \<open>Rounding\<close>

type_synonym float64 = rat

definition pow2 :: "int \<Rightarrow> rat" where
  "pow2 e = (if 0 \<le> e then 2 ^ nat e else 1 / 2 ^ nat (- e))"

text \<open>The number of bits of a number, and the exponent of the leading bit of a positive one.\<close>

function bit_length :: "int \<Rightarrow> int" where
  "bit_length n = (if n \<le> 0 then 0 else 1 + bit_length (n div 2))"
  by pat_completeness auto
termination by (relation "measure nat") auto

declare bit_length.simps [simp del]

definition ilog2 :: "rat \<Rightarrow> int" where
  "ilog2 r =
     (let (p, q) = quotient_of r; k = bit_length p - bit_length q
      in if pow2 k \<le> r then k else k - 1)"

definition round_even :: "rat \<Rightarrow> int" where
  "round_even r =
     (let n = \<lfloor>r\<rfloor>; d = r - of_int n
      in if d < 1 / 2 then n else if d > 1 / 2 then n + 1 else if even n then n else n + 1)"

text \<open>Significands have 53 bits, the least exponent is that of the subnormal numbers.\<close>

definition ulp :: "rat \<Rightarrow> rat" where
  "ulp r = pow2 (max (ilog2 \<bar>r\<bar> - 52) (- 1074))"

definition rnd :: "rat \<Rightarrow> float64" where
  "rnd r = (if r = 0 then 0 else of_int (round_even (r / ulp r)) * ulp r)"

definition finite_float :: "rat \<Rightarrow> bool" where
  "finite_float r \<longleftrightarrow> \<bar>r\<bar> < 2 ^ 1024"

section \<open>Literals\<close>

definition is_digit :: "char \<Rightarrow> bool" where
  "is_digit c \<longleftrightarrow> CHR ''0'' \<le> c \<and> c \<le> CHR ''9''"

definition digits_value :: "string \<Rightarrow> int" where
  "digits_value ds = foldl (\<lambda>n c. 10 * n + (of_char c - 48)) 0 ds"

definition pow10 :: "int \<Rightarrow> rat" where
  "pow10 e = (if 0 \<le> e then 10 ^ nat e else 1 / 10 ^ nat (- e))"

definition exponent_value :: "string \<Rightarrow> int" where
  "exponent_value s =
     (case s of
        [] \<Rightarrow> 0
      | e # t \<Rightarrow>
          (case t of
             [] \<Rightarrow> 0
           | c # ds \<Rightarrow>
               if c = CHR ''-'' then - digits_value ds
               else if c = CHR ''+'' then digits_value ds
               else digits_value t))"

definition number_value :: "string \<Rightarrow> rat" where
  "number_value s =
     (let (neg, s) = (case s of [] \<Rightarrow> (False, s) | c # t \<Rightarrow> if c = CHR ''-'' then (True, t) else (False, s));
          ip = takeWhile is_digit s; s = dropWhile is_digit s;
          (fp, s) = (case s of
              [] \<Rightarrow> ([], s)
            | c # t \<Rightarrow> if c = CHR ''.'' then (takeWhile is_digit t, dropWhile is_digit t) else ([], s));
          v = of_int (digits_value (ip @ fp)) * pow10 (exponent_value s - int (length fp))
      in if neg then - v else v)"

text \<open>\<^verbatim>\<open>strconv.ParseFloat\<close>: \<open>None\<close> if the literal is out of range.\<close>

definition ParseFloat :: "string \<Rightarrow> float64 option" where
  "ParseFloat s = (let v = rnd (number_value s) in if finite_float v then Some v else None)"

section \<open>Conversions\<close>

definition float64_of_int :: "int \<Rightarrow> float64" where
  "float64_of_int i = rnd (of_int i)"

text \<open>The conversion to an integer type cuts off the fraction.\<close>

definition float64_trunc :: "float64 \<Rightarrow> int" where
  "float64_trunc f = (if 0 \<le> f then \<lfloor>f\<rfloor> else \<lceil>f\<rceil>)"

text \<open>The language leaves open what the conversion to \<^verbatim>\<open>int64\<close> gives out of range; this is what amd64 does.\<close>

definition float64_int64 :: "float64 \<Rightarrow> int64" where
  "float64_int64 f =
     (let i = float64_trunc f in if - (2 ^ 63) \<le> i \<and> i < 2 ^ 63 then word_of_int i else word_of_int (- (2 ^ 63)))"

section \<open>Amounts\<close>

text \<open>A \<^verbatim>\<open>float64\<close> that is not a number or infinite is \<open>None\<close>.\<close>

type_synonym Amount = int64
type_synonym AmountUnit = int

definition AmountMegaBTC :: AmountUnit where "AmountMegaBTC = 6"
definition AmountKiloBTC :: AmountUnit where "AmountKiloBTC = 3"
definition AmountBTC :: AmountUnit where "AmountBTC = 0"
definition AmountMilliBTC :: AmountUnit where "AmountMilliBTC = - 3"
definition AmountMicroBTC :: AmountUnit where "AmountMicroBTC = - 6"
definition AmountSatoshi :: AmountUnit where "AmountSatoshi = - 8"

definition SatoshiPerBitcent :: int where "SatoshiPerBitcent = 10 ^ 6"
definition SatoshiPerBitcoin :: int where "SatoshiPerBitcoin = 10 ^ 8"
definition MaxSatoshi :: int where "MaxSatoshi = 21 * 10 ^ 6 * SatoshiPerBitcoin"

definition amount_round :: "float64 \<Rightarrow> Amount" where
  "amount_round f = (if f < 0 then float64_int64 (rnd (f - 1 / 2)) else float64_int64 (rnd (f + 1 / 2)))"

definition NewAmount :: "float64 option \<Rightarrow> Amount result" where
  "NewAmount f =
     (case f of
        None \<Rightarrow> Inl (ErrorString ''invalid bitcoin amount'')
      | Some f \<Rightarrow> Inr (amount_round (rnd (f * rnd (of_int SatoshiPerBitcoin)))))"

text \<open>\<^verbatim>\<open>math.Pow10\<close> is 0 below the exponent -323 and infinite above 308.\<close>

definition ToUnit :: "AmountUnit \<Rightarrow> Amount \<Rightarrow> float64 option" where
  "ToUnit u a =
     (if u + 8 < - 323 then None
      else if 308 < u + 8 then Some 0
      else Some (rnd (float64_of_int (sint a) / rnd (pow10 (u + 8)))))"

definition ToBTC :: "Amount \<Rightarrow> float64 option" where
  "ToBTC a = ToUnit AmountBTC a"

section \<open>Facts on rounding\<close>

lemma pow2_pos [simp]: "0 < pow2 e"
  by (simp add: pow2_def)

lemma pow2_nonneg [simp]: "0 \<le> pow2 e" "pow2 e \<noteq> 0"
  using pow2_pos [of e] by linarith+

lemma pow2_numeral: "pow2 (int n) = 2 ^ n" "pow2 (- int n) = 1 / 2 ^ n"
  by (auto simp: pow2_def)

lemma pow2_add: "pow2 (a + b) = pow2 a * pow2 b"
proof -
  have nonneg: "pow2 (int m + int n) = pow2 (int m) * pow2 (int n)" for m n
    by (simp add: pow2_def power_add nat_add_distrib)
  have mixed: "pow2 (int m - int n) = pow2 (int m) * pow2 (- int n)" for m n
  proof (cases "n \<le> m")
    case True
    then have "(2 :: rat) ^ (m - n) = 2 ^ m / 2 ^ n" by (simp add: power_diff)
    with True show ?thesis by (simp add: pow2_def nat_diff_distrib)
  next
    case False
    then have "(2 :: rat) ^ (n - m) = 2 ^ n / 2 ^ m" by (simp add: power_diff)
    with False show ?thesis by (simp add: pow2_def nat_diff_distrib)
  qed
  have neg: "pow2 (- int m - int n) = pow2 (- int m) * pow2 (- int n)" for m n
  proof -
    show ?thesis by (cases "m = 0 \<or> n = 0") (auto simp: pow2_def power_add nat_int_add)
  qed
  obtain m where "a = int m \<or> a = - int m" by (metis int_cases2)
  moreover obtain n where "b = int n \<or> b = - int n" by (metis int_cases2)
  ultimately show ?thesis
    using nonneg [of m n] mixed [of m n] mixed [of n m] neg [of m n] by (auto simp: mult.commute)
qed

lemma pow2_mono: "a \<le> b \<Longrightarrow> pow2 a \<le> pow2 b"
proof -
  assume "a \<le> b"
  then obtain n where "b = a + int n" by (metis zle_iff_zadd)
  then show ?thesis by (simp add: pow2_add pow2_numeral)
qed

lemma pow2_less_iff: "pow2 a < pow2 b \<longleftrightarrow> a < b"
proof -
  have "pow2 a < pow2 (a + 1)" for a by (simp add: pow2_add pow2_numeral [of 1, simplified])
  then have "a < b \<Longrightarrow> pow2 a < pow2 b" for a b using pow2_mono [of "a + 1" b] by (meson less_le_trans zless_imp_add1_zle)
  then show ?thesis using pow2_mono [of b a] by (meson linorder_not_le)
qed

lemma bit_length: "0 < n \<Longrightarrow> pow2 (bit_length n - 1) \<le> of_int n \<and> of_int n + 1 \<le> pow2 (bit_length n)"
proof (induction n rule: bit_length.induct)
  case (1 n)
  show ?case
  proof (cases "n = 1")
    case True
    then show ?thesis by (simp add: bit_length.simps pow2_def)
  next
    case False
    with 1 have ih: "pow2 (bit_length (n div 2) - 1) \<le> of_int (n div 2)" "of_int (n div 2) + 1 \<le> pow2 (bit_length (n div 2))"
      by auto
    have b: "bit_length n = 1 + bit_length (n div 2)" using 1 by (simp add: bit_length.simps)
    have p: "pow2 (bit_length n) = 2 * pow2 (bit_length (n div 2))"
      "pow2 (bit_length n - 1) = 2 * pow2 (bit_length (n div 2) - 1)"
      using pow2_add [of 1 "bit_length (n div 2)"] pow2_add [of 1 "bit_length (n div 2) - 1"]
      by (simp_all add: b pow2_numeral [of 1, simplified])
    have "2 * (n div 2) \<le> n" "n \<le> 2 * (n div 2) + 1" by presburger+
    then have "2 * of_int (n div 2) \<le> (of_int n :: rat)" "of_int n \<le> 2 * of_int (n div 2) + (1 :: rat)"
      by linarith+
    with ih p show ?thesis by linarith
  qed
qed

lemma ilog2:
  assumes "0 < r"
  shows "pow2 (ilog2 r) \<le> r" and "r < pow2 (ilog2 r + 1)"
proof -
  obtain p q where pq: "quotient_of r = (p, q)" by (cases "quotient_of r")
  have q: "0 < q" using quotient_of_denom_pos [OF pq] .
  have r: "r = of_int p / of_int q" using quotient_of_div [OF pq] .
  have p: "0 < p" using assms q by (simp add: r zero_less_divide_iff)
  define k where "k = bit_length p - bit_length q"
  have lo: "pow2 (k - 1) \<le> r"
  proof -
    have "pow2 (k - 1) * of_int q \<le> pow2 (k - 1) * pow2 (bit_length q)"
      using bit_length [OF q] by (intro mult_left_mono) auto
    also have "\<dots> = pow2 (bit_length p - 1)" by (simp add: pow2_add [symmetric] k_def)
    also have "\<dots> \<le> of_int p" using bit_length [OF p] by simp
    finally show ?thesis using q by (simp add: r pos_le_divide_eq)
  qed
  have hi: "r < pow2 (k + 1)"
  proof -
    have "of_int p < pow2 (bit_length p)" using bit_length [OF p] by linarith
    also have "\<dots> = pow2 (k + 1) * pow2 (bit_length q - 1)" by (simp add: pow2_add [symmetric] k_def)
    also have "\<dots> \<le> pow2 (k + 1) * of_int q" using bit_length [OF q] by (intro mult_left_mono) auto
    finally show ?thesis using q by (simp add: r pos_divide_less_eq)
  qed
  have i: "ilog2 r = (if pow2 k \<le> r then k else k - 1)" by (simp add: ilog2_def pq k_def)
  show "pow2 (ilog2 r) \<le> r" "r < pow2 (ilog2 r + 1)" using lo hi by (auto simp: i)
qed

lemma ilog2_eqI: "pow2 k \<le> r \<Longrightarrow> r < pow2 (k + 1) \<Longrightarrow> ilog2 r = k"
proof -
  assume k: "pow2 k \<le> r" "r < pow2 (k + 1)"
  then have r: "0 < r" using pow2_pos [of k] by linarith
  have "pow2 k < pow2 (ilog2 r + 1)" "pow2 (ilog2 r) < pow2 (k + 1)" using k ilog2 [OF r] by linarith+
  then show ?thesis by (simp add: pow2_less_iff)
qed

lemma round_even_near: "\<bar>of_int (round_even r) - r\<bar> \<le> 1 / 2"
proof -
  have "of_int \<lfloor>r\<rfloor> \<le> r" "r < of_int \<lfloor>r\<rfloor> + 1" by linarith+
  then show ?thesis by (auto simp: round_even_def Let_def abs_le_iff)
qed

lemma round_even_of_int [simp]: "round_even (of_int n) = n"
  by (simp add: round_even_def)

lemma round_even_minus: "round_even (- r) = - round_even r"
proof (cases "r = of_int \<lfloor>r\<rfloor>")
  case True
  then show ?thesis by (metis of_int_minus round_even_of_int)
next
  case False
  then have c: "\<lfloor>- r\<rfloor> = - \<lfloor>r\<rfloor> - 1" by (simp add: floor_eq_iff) linarith
  then have "- r - of_int \<lfloor>- r\<rfloor> = 1 - (r - of_int \<lfloor>r\<rfloor>)" by simp
  then show ?thesis unfolding round_even_def Let_def c by auto
qed

lemma rnd_minus: "rnd (- r) = - rnd r"
  by (simp add: rnd_def ulp_def round_even_minus)

lemma rnd_0 [simp]: "rnd 0 = 0"
  by (simp add: rnd_def)

lemma ulp_pos [simp]: "0 < ulp r" "ulp r \<noteq> 0"
  by (simp_all add: ulp_def)

lemma rnd_near: "\<bar>rnd r - r\<bar> \<le> ulp r / 2"
proof -
  have "of_int (round_even (r / ulp r)) * ulp r - r = (of_int (round_even (r / ulp r)) - r / ulp r) * ulp r"
    by (simp add: field_simps)
  then have "\<bar>of_int (round_even (r / ulp r)) * ulp r - r\<bar> = \<bar>of_int (round_even (r / ulp r)) - r / ulp r\<bar> * ulp r"
    by (simp add: abs_mult abs_of_pos)
  also have "\<dots> \<le> 1 / 2 * ulp r" by (intro mult_right_mono round_even_near) (simp add: less_imp_le)
  finally show ?thesis using ulp_pos(1) [of 0] by (simp add: rnd_def less_imp_le)
qed

text \<open>The relative error for numbers that are not subnormal.\<close>

lemma rnd_relative:
  assumes "pow2 (- 1022) \<le> \<bar>r\<bar>"
  shows "\<bar>rnd r - r\<bar> \<le> \<bar>r\<bar> / 2 ^ 53"
proof -
  have r: "0 < \<bar>r\<bar>" using assms pow2_pos [of "- 1022"] by linarith
  have "pow2 (- 1022) < pow2 (ilog2 \<bar>r\<bar> + 1)" using assms ilog2 [OF r] by linarith
  then have "max (ilog2 \<bar>r\<bar> - 52) (- 1074) = ilog2 \<bar>r\<bar> + - 52" by (simp add: pow2_less_iff)
  then have "ulp r = pow2 (ilog2 \<bar>r\<bar>) * pow2 (- 52)" by (simp only: ulp_def pow2_add)
  also have "\<dots> \<le> \<bar>r\<bar> * pow2 (- 52)" by (intro mult_right_mono ilog2(1) [OF r]) simp
  finally show ?thesis using rnd_near [of r] by (simp add: pow2_def)
qed

text \<open>Numbers with a significand of 53 bits are not changed.\<close>

lemma rnd_exact:
  assumes "\<bar>m\<bar> \<le> 2 ^ 53" and "- 1074 \<le> e"
  shows "rnd (of_int m * pow2 e) = of_int m * pow2 e"
proof (cases "m = 0")
  case False
  define r where "r = of_int m * pow2 e"
  have "\<bar>of_int m :: rat\<bar> \<le> 2 ^ 53" using assms(1) by (metis of_int_abs of_int_le_iff of_int_numeral of_int_power)
  then have "\<bar>r\<bar> \<le> 2 ^ 53 * pow2 e" by (simp add: r_def abs_mult mult_right_mono)
  then have "\<bar>r\<bar> \<le> pow2 (53 + e)" by (simp add: pow2_add pow2_numeral [of 53, simplified])
  have r: "0 < \<bar>r\<bar>" using False by (simp add: r_def)
  have "pow2 (ilog2 \<bar>r\<bar>) \<le> pow2 (53 + e)" using ilog2(1) [OF r] \<open>\<bar>r\<bar> \<le> pow2 (53 + e)\<close> by linarith
  then have l: "ilog2 \<bar>r\<bar> \<le> 53 + e" by (meson linorder_not_le pow2_less_iff)
  define u where "u = max (ilog2 \<bar>r\<bar> - 52) (- 1074)"
  have "\<exists>k. r = of_int k * pow2 u"
  proof (cases "u \<le> e")
    case True
    then have "pow2 e = 2 ^ nat (e - u) * pow2 u" by (simp add: pow2_add [of "e - u" u, simplified] pow2_def [of "e - u"])
    then have "r = of_int (m * 2 ^ nat (e - u)) * pow2 u" by (simp add: r_def)
    then show ?thesis by blast
  next
    case False
    then have ue: "u = e + 1" and le: "ilog2 \<bar>r\<bar> = 53 + e" using l assms(2) by (auto simp: u_def)
    have "pow2 (53 + e) \<le> \<bar>r\<bar>" using ilog2(1) [OF r] by (simp add: le)
    with \<open>\<bar>r\<bar> \<le> pow2 (53 + e)\<close> have "\<bar>r\<bar> = pow2 (53 + e)" by simp
    then have "\<bar>r\<bar> = of_int (2 ^ 52) * pow2 u" by (simp add: ue pow2_add pow2_numeral [of 53, simplified] pow2_numeral [of 1, simplified])
    then have "r = of_int (2 ^ 52) * pow2 u \<or> r = of_int (- (2 ^ 52)) * pow2 u" by (simp add: abs_if split: if_splits)
    then show ?thesis by blast
  qed
  then obtain k where k: "r = of_int k * pow2 u" by blast
  have "ulp r = pow2 u" by (simp add: ulp_def u_def)
  moreover have "r / pow2 u = of_int k" by (simp add: k)
  ultimately have "rnd r = of_int k * pow2 u" using r by (simp add: rnd_def)
  then show ?thesis by (simp add: k [symmetric] r_def [symmetric])
qed simp

lemma rnd_of_int: "\<bar>i\<bar> \<le> 2 ^ 53 \<Longrightarrow> rnd (of_int i) = of_int i"
  using rnd_exact [of i 0] by (simp add: pow2_def)

section \<open>The literal of an integer\<close>

lemma hex_digit_decimal: "d < 10 \<Longrightarrow> is_digit (hex_digit d) \<and> of_char (hex_digit d) = (48 + d :: nat)"
proof -
  have "\<forall>d \<in> set [0..<10]. is_digit (hex_digit d) \<and> of_char (hex_digit d) = (48 + d :: nat)" by code_simp
  then show "d < 10 \<Longrightarrow> is_digit (hex_digit d) \<and> of_char (hex_digit d) = (48 + d :: nat)" by simp
qed

lemma digits_value_snoc: "digits_value (ds @ [c]) = 10 * digits_value ds + (of_char c - 48)"
  by (simp add: digits_value_def)

lemma fmt_nat_decimal: "digits_value (fmt_nat 10 n) = int n \<and> list_all is_digit (fmt_nat 10 n) \<and> fmt_nat 10 n \<noteq> []"
proof (induction n rule: less_induct)
  case (less n)
  have of_char_int: "(of_char c :: int) = int (of_char c)" for c by (rule of_nat_of_char [symmetric])
  show ?case
  proof (cases "n < 10")
    case True
    then show ?thesis using hex_digit_decimal [OF True]
      by (simp add: fmt_nat.simps [of 10 n] digits_value_def of_char_int del: of_nat_of_char)
  next
    case False
    then have "n div 10 < n" by simp
    moreover have "10 * int (n div 10) + int (n mod 10) = int n" by presburger
    ultimately have *: "n div 10 < n" "10 * int (n div 10) + int (n mod 10) = int n" .
    from less.IH [OF *(1)] *(2) hex_digit_decimal [of "n mod 10"] False show ?thesis
      by (simp add: fmt_nat.simps [of 10 n] digits_value_snoc of_char_int del: of_nat_of_char)
  qed
qed

lemma number_value_fmt_d: "number_value (fmt_d i) = of_int i"
proof -
  have f: "number_value (fmt_nat 10 n) = of_int (int n)" "number_value (CHR ''-'' # fmt_nat 10 n) = - of_int (int n)" for n
  proof -
    obtain c cs where c: "fmt_nat 10 n = c # cs" "is_digit c" "list_all is_digit cs" using fmt_nat_decimal [of n] by (cases "fmt_nat 10 n") auto
    have m: "c \<noteq> CHR ''-''" using c(2) by (auto simp: is_digit_def less_eq_char_def)
    have t: "takeWhile is_digit (c # cs) = c # cs" "dropWhile is_digit (c # cs) = []"
      using c by (auto simp: list_all_iff takeWhile_eq_all_conv dropWhile_eq_Nil_conv)
    have d: "digits_value (c # cs) = int n" using fmt_nat_decimal [of n] c(1) by simp
    show "number_value (fmt_nat 10 n) = of_int (int n)" "number_value (CHR ''-'' # fmt_nat 10 n) = - of_int (int n)"
      by (simp_all add: number_value_def c(1) t d m exponent_value_def pow10_def Let_def del: takeWhile.simps dropWhile.simps)
  qed
  show ?thesis using f [of "nat i"] f [of "nat (- i)"] by (simp add: fmt_d_def)
qed

lemma ParseFloat_fmt_d: "\<bar>i\<bar> \<le> 2 ^ 53 \<Longrightarrow> ParseFloat (fmt_d i) = Some (of_int i)"
proof -
  assume i: "\<bar>i\<bar> \<le> 2 ^ 53"
  have "\<bar>of_int i :: rat\<bar> \<le> of_int (2 ^ 53)" using i by (simp only: of_int_abs [symmetric] of_int_le_iff)
  also have "\<dots> < (2 ^ 1024 :: rat)" by simp
  finally show ?thesis using rnd_of_int [OF i] by (simp add: ParseFloat_def number_value_fmt_d finite_float_def)
qed

section \<open>Amounts survive the conversion to a float\<close>

lemma trunc_between: "of_int i \<le> f \<Longrightarrow> f < of_int i + 1 \<Longrightarrow> 0 \<le> i \<Longrightarrow> float64_trunc f = i"
  by (auto simp: float64_trunc_def floor_eq_iff)

lemma pow2_small: "pow2 (- 1022) \<le> 1 / 10 ^ 8"
proof -
  have "pow2 (- 1022) \<le> pow2 (- 27)" by (rule pow2_mono) simp
  also have "\<dots> \<le> 1 / 10 ^ 8" by (simp add: pow2_def)
  finally show ?thesis .
qed

text \<open>The two roundings of the division and the multiplication by 1e8, and the final one of the addition of 1/2.\<close>

lemma amount_error:
  assumes "1 \<le> a" and "a \<le> MaxSatoshi"
  defines "x \<equiv> rnd (of_int a / 10 ^ 8) * 10 ^ 8"
  shows "\<bar>x - of_int a\<bar> \<le> of_int a / 2 ^ 53" and "\<bar>rnd x - of_int a\<bar> \<le> of_int a * (2 / 2 ^ 53 + 1 / 2 ^ 106)"
proof -
  have a: "1 \<le> (of_int a :: rat)" using assms(1) by simp
  have "pow2 (- 1022) \<le> \<bar>of_int a / 10 ^ 8\<bar>" using pow2_small a by (simp add: field_simps)
  from rnd_relative [OF this] a have "\<bar>rnd (of_int a / 10 ^ 8) - of_int a / 10 ^ 8\<bar> \<le> of_int a / 10 ^ 8 / 2 ^ 53" by simp
  then show x: "\<bar>x - of_int a\<bar> \<le> of_int a / 2 ^ 53" by (simp add: x_def abs_le_iff field_simps)
  then have b: "x \<le> of_int a + of_int a / 2 ^ 53" "of_int a - of_int a / 2 ^ 53 \<le> x" by linarith+
  have "of_int a / 2 ^ 53 \<le> (of_int a / 2 :: rat)" using a by simp
  with b a have x0: "1 / 2 \<le> x" by linarith
  then have x1: "1 / 10 ^ 8 \<le> \<bar>x\<bar>" by simp
  have x2: "\<bar>x\<bar> \<le> of_int a * (1 + 1 / 2 ^ 53)" using b x0 by (simp add: distrib_left)
  have "\<bar>rnd x - x\<bar> \<le> \<bar>x\<bar> / 2 ^ 53" using rnd_relative [of x] pow2_small x1 by linarith
  also have "\<dots> \<le> of_int a * (1 + 1 / 2 ^ 53) / 2 ^ 53" using x2 by (simp add: divide_right_mono)
  also have "\<dots> = of_int a / 2 ^ 53 + of_int a / 2 ^ 106" by (simp add: field_simps)
  finally have "\<bar>rnd x - of_int a\<bar> \<le> of_int a / 2 ^ 53 + of_int a / 2 ^ 53 + of_int a / 2 ^ 106" using x by linarith
  also have "\<dots> = of_int a * (2 / 2 ^ 53 + 1 / 2 ^ 106)" by (simp add: field_simps)
  finally show "\<bar>rnd x - of_int a\<bar> \<le> of_int a * (2 / 2 ^ 53 + 1 / 2 ^ 106)" .
qed

lemma amount_round_back:
  assumes "1 \<le> a" and "a \<le> MaxSatoshi"
  defines "y \<equiv> rnd (rnd (of_int a / 10 ^ 8) * 10 ^ 8)"
  shows "of_int a \<le> rnd (y + 1 / 2) \<and> rnd (y + 1 / 2) < of_int a + 1"
proof (cases "a \<le> 2 ^ 50")
  case True
  then have b: "(of_int a :: rat) \<le> 2 ^ 50" by (metis of_int_le_iff of_int_numeral of_int_power)
  have "\<bar>y - of_int a\<bar> \<le> of_int a * (2 / 2 ^ 53 + 1 / 2 ^ 106)" unfolding y_def by (rule amount_error [OF assms(1,2)])
  also have "\<dots> \<le> 2 ^ 50 * (2 / 2 ^ 53 + 1 / 2 ^ 106)" using b by (intro mult_right_mono) auto
  finally have y: "\<bar>y - of_int a\<bar> \<le> 26 / 100" by simp
  have "1 \<le> (of_int a :: rat)" using assms(1) by simp
  with y b have z: "1 \<le> \<bar>y + 1 / 2\<bar>" "\<bar>y + 1 / 2\<bar> \<le> 2 ^ 50 + 1" by linarith+
  have "\<bar>rnd (y + 1 / 2) - (y + 1 / 2)\<bar> \<le> \<bar>y + 1 / 2\<bar> / 2 ^ 53" using rnd_relative [of "y + 1 / 2"] pow2_small z by simp
  also have "\<dots> \<le> (2 ^ 50 + 1) / 2 ^ 53" using z by (intro divide_right_mono) auto
  also have "\<dots> \<le> 13 / 100" by simp
  finally show ?thesis using y by linarith
next
  case False
  let ?x = "rnd (of_int a / 10 ^ 8) * 10 ^ 8"
  have lo: "2 ^ 50 + 1 \<le> (of_int a :: rat)"
  proof -
    have "2 ^ 50 + 1 \<le> a" using False by simp
    then have "of_int (2 ^ 50 + 1) \<le> (of_int a :: rat)" by (simp only: of_int_le_iff)
    then show ?thesis by simp
  qed
  have hi: "(of_int a :: rat) \<le> 21 * 10 ^ 14"
  proof -
    have "of_int a \<le> (of_int MaxSatoshi :: rat)" using assms(2) by (simp only: of_int_le_iff)
    then show ?thesis by (simp add: MaxSatoshi_def SatoshiPerBitcoin_def)
  qed
  have "\<bar>?x - of_int a\<bar> \<le> of_int a / 2 ^ 53" by (rule amount_error [OF assms(1,2)])
  also have "\<dots> \<le> 21 * 10 ^ 14 / 2 ^ 53" using hi by (rule divide_right_mono) simp
  also have "\<dots> \<le> 1 / 2" by simp
  finally have "\<bar>?x - of_int a\<bar> \<le> 1 / 2" .
  moreover have "(21 * 10 ^ 14 :: rat) \<le> 2 ^ 51 - 1" by simp
  ultimately have x: "2 ^ 50 \<le> ?x" "?x < 2 ^ 51" using lo hi by linarith+
  then have "ilog2 \<bar>?x\<bar> = 50" by (intro ilog2_eqI) (simp_all add: pow2_def)
  then have u: "ulp ?x = 1 / 4" by (simp add: ulp_def pow2_def)
  define m where "m = round_even (?x / ulp ?x)"
  have "rnd ?x = of_int m * ulp ?x" using x unfolding rnd_def [of ?x] m_def by auto
  then have y: "y = of_int m / 4" unfolding y_def u by simp
  have "\<bar>y - of_int a\<bar> \<le> of_int a * (2 / 2 ^ 53 + 1 / 2 ^ 106)" unfolding y_def by (rule amount_error [OF assms(1,2)])
  also have "\<dots> \<le> 21 * 10 ^ 14 * (2 / 2 ^ 53 + 1 / 2 ^ 106)" using hi by (intro mult_right_mono) auto
  finally have near: "\<bar>y - of_int a\<bar> \<le> 47 / 100" by simp
  have "(21 * 10 ^ 14 :: rat) = 2100000000000000" "(0 :: rat) \<le> 2 ^ 50" by simp_all
  then have "y \<le> 2100000000000001 / 2 + 2100000000000000 / 2" "0 \<le> y" using near hi lo by linarith+
  then have "(of_int m :: rat) \<le> 8400000000000002" "(0 :: rat) \<le> of_int m" unfolding y by linarith+
  then have "of_int m \<le> (of_int 8400000000000002 :: rat)" "(of_int 0 :: rat) \<le> of_int m" by simp_all
  then have m: "\<bar>m + 2\<bar> \<le> 2 ^ 53" by (simp only: of_int_le_iff) simp
  have "rnd (y + 1 / 2) = y + 1 / 2"
    using rnd_exact [OF m, of "- 2"] by (simp add: y pow2_def add_divide_distrib)
  then show ?thesis using near by linarith
qed

lemma amount_back:
  assumes "\<bar>i\<bar> \<le> MaxSatoshi"
  shows "amount_round (rnd (rnd (of_int i / 10 ^ 8) * 10 ^ 8)) = word_of_int i"
proof -
  have pos: "amount_round (rnd (rnd (of_int a / 10 ^ 8) * 10 ^ 8)) = word_of_int a" if "1 \<le> a" "a \<le> MaxSatoshi" for a
  proof -
    define y where "y = rnd (rnd (of_int a / 10 ^ 8) * 10 ^ 8)"
    have "of_int a \<le> rnd (y + 1 / 2)" "rnd (y + 1 / 2) < of_int a + 1"
      using amount_round_back [OF that] by (simp_all add: y_def)
    then have t: "float64_trunc (rnd (y + 1 / 2)) = a" using that by (intro trunc_between) auto
    have "1 \<le> (of_int a :: rat)" using that by simp
    then have "\<not> y < 0"
      using amount_error(2) [OF that] by (auto simp: y_def abs_le_iff field_simps)
    then show ?thesis
      using t that unfolding amount_round_def float64_int64_def y_def [symmetric] by (simp add: MaxSatoshi_def SatoshiPerBitcoin_def)
  qed
  consider "1 \<le> i" | "i = 0" | "1 \<le> - i" by linarith
  then show ?thesis
  proof cases
    case 2
    have "rnd (1 / 2) = 1 / 2" using rnd_exact [of 1 "- 1"] by (simp add: pow2_def)
    moreover have "\<lfloor>1 / 2 :: rat\<rfloor> = 0" by (simp add: floor_eq_iff)
    ultimately have half: "rnd (1 / 2) = 1 / 2" "\<lfloor>1 / 2 :: rat\<rfloor> = 0" .
    show ?thesis by (simp add: 2 amount_round_def float64_int64_def float64_trunc_def half)
  next
    case 3
    define y where "y = rnd (rnd (of_int (- i) / 10 ^ 8) * 10 ^ 8)"
    have m: "- i \<le> MaxSatoshi" using assms by simp
    have n: "rnd (rnd (of_int i / 10 ^ 8) * 10 ^ 8) = - y"
      using rnd_minus [of "of_int i / 10 ^ 8"] rnd_minus [of "rnd (of_int i / 10 ^ 8) * 10 ^ 8"] by (simp add: y_def)
    have h: "rnd (- y - 1 / 2) = - rnd (y + 1 / 2)" using rnd_minus [of "y + 1 / 2"] by simp
    have b: "of_int (- i) \<le> rnd (y + 1 / 2)" "rnd (y + 1 / 2) < of_int (- i) + 1"
      using amount_round_back [OF 3 m] unfolding y_def by blast+
    then have "\<lfloor>rnd (y + 1 / 2)\<rfloor> = - i" by (simp add: floor_eq_iff)
    moreover have "\<not> 0 \<le> - rnd (y + 1 / 2)" using b 3 by auto
    ultimately have t: "float64_trunc (- rnd (y + 1 / 2)) = i" by (simp add: float64_trunc_def ceiling_def)
    have "1 \<le> (of_int (- i) :: rat)" using 3 by simp
    then have "0 < y"
      using amount_error(2) [OF 3 m] unfolding y_def [symmetric] by (auto simp: abs_le_iff field_simps)
    then show ?thesis
      using 3 assms unfolding amount_round_def float64_int64_def n h t
      by (simp add: t MaxSatoshi_def SatoshiPerBitcoin_def)
  qed (use pos assms in simp)
qed

text \<open>C38: Every amount up to the limit of the currency is got back from its value in bitcoin: the errors
  of the float division, multiplication and rounding never add up to a satoshi.\<close>

theorem NewAmount_ToBTC:
  assumes "\<bar>sint a\<bar> \<le> MaxSatoshi"
  shows "\<exists>f. ToBTC a = Some f \<and> NewAmount (Some f) = Inr a"
proof -
  have rep: "rnd (of_int SatoshiPerBitcoin) = 10 ^ 8" "rnd (pow10 8) = 10 ^ 8"
    using rnd_of_int [of "10 ^ 8"] by (simp_all add: SatoshiPerBitcoin_def pow10_def)
  have "\<bar>sint a\<bar> \<le> 2 ^ 53" using assms by (simp add: MaxSatoshi_def SatoshiPerBitcoin_def)
  then have exact: "float64_of_int (sint a) = of_int (sint a)" unfolding float64_of_int_def by (rule rnd_of_int)
  have "ToBTC a = Some (rnd (of_int (sint a) / 10 ^ 8))"
    unfolding ToBTC_def ToUnit_def AmountBTC_def exact by (simp add: rep)
  moreover have "NewAmount (Some (rnd (of_int (sint a) / 10 ^ 8))) = Inr a"
    unfolding NewAmount_def rep option.case amount_back [OF assms] by simp
  ultimately show ?thesis by blast
qed

theorem NewAmount_ToBTC_witness:
  "\<exists>f. ToBTC 123456789 = Some f \<and> NewAmount (Some f) = Inr 123456789"
  by (rule NewAmount_ToBTC) (simp add: MaxSatoshi_def SatoshiPerBitcoin_def)

end
