(* ===== verification/Rpcclient_Ntfn.thy ===== *)
theory Rpcclient_Ntfn
  imports Ws_Notify Float64
begin

text \<open>
  Notifications as the RPC client receives them (\<^verbatim>\<open>rpcclient/notify.go\<close>): the parsers of their
  parameters and \<^verbatim>\<open>handleNotification\<close>, which calls the handler the user registered. A parameter is a
  JSON document that is decoded here. What the client hands to a handler is a \<open>callback\<close>.
\<close>

section \<open>Decoding single parameters\<close>

datatype ntfn_err = WrongNumParams nat | JsonFailure jerror | OtherFailure goerr

definition wrongNumParams_Error :: "nat \<Rightarrow> string" where
  "wrongNumParams_Error e = ''wrong number of parameters ('' @ fmt_d (int e) @ '')''"

definition liftJ :: "jerror + 'a \<Rightarrow> ntfn_err + 'a" where
  "liftJ r = map_sum JsonFailure id r"

definition liftG :: "'a result \<Rightarrow> ntfn_err + 'a" where
  "liftG r = map_sum OtherFailure id r"

text \<open>\<^verbatim>\<open>json.Unmarshal\<close> into a variable of each type the parsers use. Null leaves the zero value.\<close>

definition unmarshal_string :: "json \<Rightarrow> ntfn_err + string" where
  "unmarshal_string j =
     bindR (liftJ (json_Unmarshal TString j (zero TString))) (\<lambda>v. Inr (case v of VString s \<Rightarrow> s | _ \<Rightarrow> []))"

definition unmarshal_int :: "nat \<Rightarrow> json \<Rightarrow> ntfn_err + int" where
  "unmarshal_int n j =
     bindR (liftJ (json_Unmarshal (TInt n) j (zero (TInt n)))) (\<lambda>v. Inr (case v of VInt i \<Rightarrow> i | _ \<Rightarrow> 0))"

definition unmarshal_bool :: "json \<Rightarrow> ntfn_err + bool" where
  "unmarshal_bool j =
     bindR (liftJ (json_Unmarshal TBool j (zero TBool))) (\<lambda>v. Inr (case v of VBool b \<Rightarrow> b | _ \<Rightarrow> False))"

definition unmarshal_float64 :: "json \<Rightarrow> ntfn_err + float64" where
  "unmarshal_float64 j =
     bindR (liftJ (json_Unmarshal (TFloat 64) j (zero (TFloat 64)))) (\<lambda>v.
       let l = (case v of VFloat l \<Rightarrow> l | _ \<Rightarrow> []) in
       case ParseFloat l of
         None \<Rightarrow> Inl (JsonFailure (UnmarshalTypeError (''number '' @ l) (TFloat 64)))
       | Some f \<Rightarrow> Inr f)"

definition unmarshal_strings :: "json \<Rightarrow> ntfn_err + string list" where
  "unmarshal_strings j =
     bindR (liftJ (json_Unmarshal (TSlice TString) j (zero (TSlice TString)))) (\<lambda>v.
       Inr (case v of
              VSlice (Some vs) \<Rightarrow> map (\<lambda>v. case v of VString s \<Rightarrow> s | _ \<Rightarrow> []) vs
            | _ \<Rightarrow> []))"

definition unmarshal_BlockDetails :: "json \<Rightarrow> ntfn_err + goval option" where
  "unmarshal_BlockDetails j =
     bindR (liftJ (json_Unmarshal (TPtr T_BlockDetails) j (VPtr None))) (\<lambda>v.
       Inr (case v of VPtr p \<Rightarrow> p | _ \<Rightarrow> None))"

section \<open>The parsers\<close>

definition parseHexParam :: "json \<Rightarrow> ntfn_err + bytes" where
  "parseHexParam param = bindR (unmarshal_string param) (\<lambda>s. liftG (hex_Decode s))"

definition parseChainNtfnParams :: "json list \<Rightarrow> ntfn_err + (hash \<times> int32 \<times> gotime)" where
  "parseChainNtfnParams params =
     (if length params \<noteq> 3 then Inl (WrongNumParams (length params))
      else
        bindR (unmarshal_string (params ! 0)) (\<lambda>blockHashStr.
        bindR (unmarshal_int 32 (params ! 1)) (\<lambda>blockHeight.
        bindR (unmarshal_int 64 (params ! 2)) (\<lambda>blockTimeUnix.
        bindR (liftG (NewHashFromStr blockHashStr)) (\<lambda>blockHash.
          Inr (blockHash, word_of_int blockHeight, time_Unix blockTimeUnix))))))"

definition zero_BlockHeader :: BlockHeader where
  "zero_BlockHeader = \<lparr>bh_Version = 0, PrevBlock = replicate HashSize 0, MerkleRoot = replicate HashSize 0,
     Timestamp = time_Unix (- 62135596800), Bits = 0, Nonce = 0\<rparr>"

text \<open>Bytes behind the header are not looked at.\<close>

definition parse_header :: "json \<Rightarrow> ntfn_err + BlockHeader" where
  "parse_header param =
     bindR (parseHexParam param) (\<lambda>blockHeaderBytes.
     bindR (liftG (BlockHeader_Deserialize zero_BlockHeader blockHeaderBytes)) (\<lambda>(blockHeader, _).
       Inr blockHeader))"

primrec parse_transactions :: "string list \<Rightarrow> ntfn_err + Tx list" where
  "parse_transactions [] = Inr []"
| "parse_transactions (hexTx # hs) =
     bindR (liftG (hex_Decode hexTx)) (\<lambda>transaction.
     bindR (liftG (NewTxFromBytes transaction)) (\<lambda>tx.
     bindR (parse_transactions hs) (\<lambda>txs. Inr (tx # txs))))"

definition parseFilteredBlockConnectedParams :: "json list \<Rightarrow> ntfn_err + (int32 \<times> BlockHeader \<times> Tx list)" where
  "parseFilteredBlockConnectedParams params =
     (if length params < 3 then Inl (WrongNumParams (length params))
      else
        bindR (unmarshal_int 32 (params ! 0)) (\<lambda>blockHeight.
        bindR (parse_header (params ! 1)) (\<lambda>blockHeader.
        bindR (unmarshal_strings (params ! 2)) (\<lambda>hexTransactions.
        bindR (parse_transactions hexTransactions) (\<lambda>transactions.
          Inr (word_of_int blockHeight, blockHeader, transactions))))))"

definition parseFilteredBlockDisconnectedParams :: "json list \<Rightarrow> ntfn_err + (int32 \<times> BlockHeader)" where
  "parseFilteredBlockDisconnectedParams params =
     (if length params < 2 then Inl (WrongNumParams (length params))
      else
        bindR (unmarshal_int 32 (params ! 0)) (\<lambda>blockHeight.
        bindR (parse_header (params ! 1)) (\<lambda>blockHeader.
          Inr (word_of_int blockHeight, blockHeader))))"

definition parseRelevantTxAcceptedParams :: "json list \<Rightarrow> ntfn_err + bytes" where
  "parseRelevantTxAcceptedParams params =
     (if length params < 1 then Inl (WrongNumParams (length params)) else parseHexParam (params ! 0))"

definition parseChainTxNtfnParams :: "json list \<Rightarrow> ntfn_err + (Tx \<times> goval option)" where
  "parseChainTxNtfnParams params =
     (if length params = 0 \<or> length params > 2 then Inl (WrongNumParams (length params))
      else
        bindR (unmarshal_string (params ! 0)) (\<lambda>txHex.
        bindR (if length params > 1 then unmarshal_BlockDetails (params ! 1) else Inr None) (\<lambda>block.
        bindR (liftG (hex_Decode txHex)) (\<lambda>serializedTx.
        bindR (liftG (Deserialize serializedTx)) (\<lambda>(msgTx, _).
          Inr (NewTx msgTx, block))))))"

definition parseRescanProgressParams :: "json list \<Rightarrow> ntfn_err + (hash \<times> int32 \<times> gotime)" where
  "parseRescanProgressParams params =
     (if length params \<noteq> 3 then Inl (WrongNumParams (length params))
      else
        bindR (unmarshal_string (params ! 0)) (\<lambda>hashStr.
        bindR (unmarshal_int 32 (params ! 1)) (\<lambda>height.
        bindR (unmarshal_int 64 (params ! 2)) (\<lambda>blkTime.
        bindR (liftG (NewHashFromStr hashStr)) (\<lambda>hash.
          Inr (hash, word_of_int height, time_Unix blkTime))))))"

definition parseTxAcceptedNtfnParams :: "json list \<Rightarrow> ntfn_err + (hash \<times> Amount)" where
  "parseTxAcceptedNtfnParams params =
     (if length params \<noteq> 2 then Inl (WrongNumParams (length params))
      else
        bindR (unmarshal_string (params ! 0)) (\<lambda>txHashStr.
        bindR (unmarshal_float64 (params ! 1)) (\<lambda>famt.
        bindR (liftG (NewAmount (Some famt))) (\<lambda>amt.
        bindR (liftG (NewHashFromStr txHashStr)) (\<lambda>txHash.
          Inr (txHash, amt))))))"

definition parseTxAcceptedVerboseNtfnParams :: "json list \<Rightarrow> ntfn_err + goval" where
  "parseTxAcceptedVerboseNtfnParams params =
     (if length params \<noteq> 1 then Inl (WrongNumParams (length params))
      else liftJ (json_Unmarshal T_TxRawResult (params ! 0) (zero T_TxRawResult)))"

definition parseBtcdConnectedNtfnParams :: "json list \<Rightarrow> ntfn_err + bool" where
  "parseBtcdConnectedNtfnParams params =
     (if length params \<noteq> 1 then Inl (WrongNumParams (length params)) else unmarshal_bool (params ! 0))"

definition parseAccountBalanceNtfnParams :: "json list \<Rightarrow> ntfn_err + (string \<times> Amount \<times> bool)" where
  "parseAccountBalanceNtfnParams params =
     (if length params \<noteq> 3 then Inl (WrongNumParams (length params))
      else
        bindR (unmarshal_string (params ! 0)) (\<lambda>account.
        bindR (unmarshal_float64 (params ! 1)) (\<lambda>fbal.
        bindR (unmarshal_bool (params ! 2)) (\<lambda>confirmed.
        bindR (liftG (NewAmount (Some fbal))) (\<lambda>bal.
          Inr (account, bal, confirmed))))))"

definition parseWalletLockStateNtfnParams :: "json list \<Rightarrow> ntfn_err + (string \<times> bool)" where
  "parseWalletLockStateNtfnParams params =
     (if length params \<noteq> 2 then Inl (WrongNumParams (length params))
      else
        bindR (unmarshal_string (params ! 0)) (\<lambda>account.
        bindR (unmarshal_bool (params ! 1)) (\<lambda>locked. Inr (account, locked))))"

section \<open>Handlers\<close>

text \<open>Which of the function pointers are not nil.\<close>

record NotificationHandlers =
  OnClientConnected :: bool
  OnBlockConnected :: bool
  OnFilteredBlockConnected :: bool
  OnBlockDisconnected :: bool
  OnFilteredBlockDisconnected :: bool
  OnRecvTx :: bool
  OnRedeemingTx :: bool
  OnRelevantTxAccepted :: bool
  OnRescanFinished :: bool
  OnRescanProgress :: bool
  OnTxAccepted :: bool
  OnTxAcceptedVerbose :: bool
  OnBtcdConnected :: bool
  OnAccountBalance :: bool
  OnWalletLockState :: bool
  OnUnknownNotification :: bool

datatype callback =
    BlockConnectedCall hash int32 gotime
  | FilteredBlockConnectedCall int32 BlockHeader "Tx list"
  | BlockDisconnectedCall hash int32 gotime
  | FilteredBlockDisconnectedCall int32 BlockHeader
  | RecvTxCall Tx "goval option"
  | RedeemingTxCall Tx "goval option"
  | RelevantTxAcceptedCall bytes
  | RescanFinishedCall hash int32 gotime
  | RescanProgressCall hash int32 gotime
  | TxAcceptedCall hash Amount
  | TxAcceptedVerboseCall goval
  | BtcdConnectedCall bool
  | AccountBalanceCall string Amount bool
  | WalletLockStateCall bool
  | UnknownNotificationCall string "json list"

text \<open>
  The end of each case: nothing if the handler is nil, a warning in the log if the parameters are
  wrong, the call otherwise.
\<close>

definition deliver :: "bool \<Rightarrow> ntfn_err + 'a \<Rightarrow> ('a \<Rightarrow> callback) \<Rightarrow> callback option" where
  "deliver handler parsed call =
     (if \<not> handler then None else case parsed of Inl err \<Rightarrow> None | Inr x \<Rightarrow> Some (call x))"

text \<open>The cases of the switch from \<^verbatim>\<open>RescanProgressNtfnMethod\<close> on, and the whole.\<close>

definition handleNotification_rest :: "NotificationHandlers \<Rightarrow> string \<Rightarrow> json list \<Rightarrow> callback option" where
  "handleNotification_rest h method params =
     (if method = RescanProgressNtfnMethod then
          deliver (OnRescanProgress h) (parseRescanProgressParams params) (\<lambda>(hash, height, t). RescanProgressCall hash height t)
        else if method = TxAcceptedNtfnMethod then
          deliver (OnTxAccepted h) (parseTxAcceptedNtfnParams params) (\<lambda>(hash, amt). TxAcceptedCall hash amt)
        else if method = TxAcceptedVerboseNtfnMethod then
          deliver (OnTxAcceptedVerbose h) (parseTxAcceptedVerboseNtfnParams params) TxAcceptedVerboseCall
        else if method = BtcdConnectedNtfnMethod then
          deliver (OnBtcdConnected h) (parseBtcdConnectedNtfnParams params) BtcdConnectedCall
        else if method = AccountBalanceNtfnMethod then
          deliver (OnAccountBalance h) (parseAccountBalanceNtfnParams params)
            (\<lambda>(account, bal, conf). AccountBalanceCall account bal conf)
        else if method = WalletLockStateNtfnMethod then
          deliver (OnWalletLockState h) (parseWalletLockStateNtfnParams params) (\<lambda>(_, locked). WalletLockStateCall locked)
        else deliver (OnUnknownNotification h) (Inr (method, params)) (\<lambda>(method, params). UnknownNotificationCall method params))"

definition handleNotification ::
  "NotificationHandlers option \<Rightarrow> string \<Rightarrow> json list \<Rightarrow> callback option" where
  "handleNotification ntfnHandlers method params =
     (case ntfnHandlers of
        None \<Rightarrow> None
      | Some h \<Rightarrow>
          if method = BlockConnectedNtfnMethod then
            deliver (OnBlockConnected h) (parseChainNtfnParams params) (\<lambda>(hash, height, t). BlockConnectedCall hash height t)
          else if method = FilteredBlockConnectedNtfnMethod then
            deliver (OnFilteredBlockConnected h) (parseFilteredBlockConnectedParams params)
              (\<lambda>(height, header, txs). FilteredBlockConnectedCall height header txs)
          else if method = BlockDisconnectedNtfnMethod then
            deliver (OnBlockDisconnected h) (parseChainNtfnParams params) (\<lambda>(hash, height, t). BlockDisconnectedCall hash height t)
          else if method = FilteredBlockDisconnectedNtfnMethod then
            deliver (OnFilteredBlockDisconnected h) (parseFilteredBlockDisconnectedParams params)
              (\<lambda>(height, header). FilteredBlockDisconnectedCall height header)
          else if method = RecvTxNtfnMethod then
            deliver (OnRecvTx h) (parseChainTxNtfnParams params) (\<lambda>(tx, block). RecvTxCall tx block)
          else if method = RedeemingTxNtfnMethod then
            deliver (OnRedeemingTx h) (parseChainTxNtfnParams params) (\<lambda>(tx, block). RedeemingTxCall tx block)
          else if method = RelevantTxAcceptedNtfnMethod then
            deliver (OnRelevantTxAccepted h) (parseRelevantTxAcceptedParams params) RelevantTxAcceptedCall
          else if method = RescanFinishedNtfnMethod then
            deliver (OnRescanFinished h) (parseRescanProgressParams params) (\<lambda>(hash, height, t). RescanFinishedCall hash height t)
          else handleNotification_rest h method params)"

end
