(* ===== verification/Rpcclient_Msg.thy ===== *)
theory Rpcclient_Msg
  imports Rpcclient_Ntfn
begin

text \<open>
  What the RPC client makes of a message from the server (\<^verbatim>\<open>rpcclient/infrastructure.go\<close>): the decoding
  into \<^verbatim>\<open>inMessage\<close> and the branches of \<^verbatim>\<open>handleMessage\<close>, and what \<^verbatim>\<open>Receive\<close> makes of a response
  (\<^verbatim>\<open>rpcclient/chain.go\<close>).
\<close>

section \<open>Responses\<close>

text \<open>The errors a future can deliver; those of other packages carry their text.\<close>

datatype client_err =
    ErrInvalidAuth
  | ErrInvalidEndpoint
  | ErrClientNotConnected
  | ErrClientDisconnect
  | ErrClientShutdown
  | ErrNotWebsocketClient
  | ErrClientAlreadyConnected
  | ErrWebsocketsRequired
  | ServerError RPCError
  | CommandError cmderr
  | TransportError string

fun client_err_Error :: "client_err \<Rightarrow> string" where
  "client_err_Error ErrInvalidAuth = ''authentication failure''"
| "client_err_Error ErrInvalidEndpoint = ''the endpoint either does not support websockets or does not exist''"
| "client_err_Error ErrClientNotConnected = ''the client was never connected''"
| "client_err_Error ErrClientDisconnect = ''the client has been disconnected''"
| "client_err_Error ErrClientShutdown = ''the client has been shutdown''"
| "client_err_Error ErrNotWebsocketClient = ''client is not configured for websockets''"
| "client_err_Error ErrClientAlreadyConnected = ''websocket client has already connected''"
| "client_err_Error ErrWebsocketsRequired = ''a websocket connection is required to use this feature''"
| "client_err_Error (ServerError e) = RPCError_Error e"
| "client_err_Error (CommandError (Error c d)) = Error_Error c d"
| "client_err_Error (CommandError (JsonErr e)) = jerror_Error e"
| "client_err_Error (TransportError s) = s"

text \<open>The raw result is a document; \<open>None\<close> is the nil slice of bytes.\<close>

record client_response =
  r_result :: "json option"
  r_err :: "client_err option"

section \<open>Decoding a message\<close>

record rawNotification =
  ntfn_Method :: string
  ntfn_Params :: "json list option"

record rawResponse =
  raw_Result :: "json option"
  raw_Error :: "RPCError option"

record inMessage =
  in_ID :: "float64 option"
  in_ntfn :: rawNotification
  in_resp :: rawResponse

definition zero_inMessage :: inMessage where
  "zero_inMessage = \<lparr>in_ID = None, in_ntfn = \<lparr>ntfn_Method = [], ntfn_Params = None\<rparr>,
     in_resp = \<lparr>raw_Result = None, raw_Error = None\<rparr>\<rparr>"

definition T_RPCError :: gotype where
  "T_RPCError = TStruct ''acbcjson.RPCError''
     [jfld ''Code'' (TInt 0) ''code'' True, jfld ''Message'' TString ''message'' True]"

definition unmarshal_RPCError :: "json \<Rightarrow> RPCError option \<Rightarrow> jerror + RPCError option" where
  "unmarshal_RPCError j old =
     bindR (json_Unmarshal (TPtr T_RPCError) j
         (VPtr (map_option (\<lambda>e. VStruct [VInt (Code e), VString (Message e)]) old)))
       (\<lambda>v. Inr (case v of
          VPtr (Some (VStruct [VInt c, VString m])) \<Rightarrow> Some \<lparr>Code = c, Message = m\<rparr>
        | _ \<Rightarrow> None))"

text \<open>
  One member of the object. The embedded pointers are allocated beforehand, so their fields are those
  of the message. A null id leaves the pointer nil, a null result is the document null.
\<close>

definition unmarshal_in_member :: "string \<times> json \<Rightarrow> inMessage \<Rightarrow> jerror + inMessage" where
  "unmarshal_in_member kj m =
     (let (k, j) = kj; k = to_lower k in
      if k = ''id'' then
        (if j = JNull then Inr (m\<lparr>in_ID := None\<rparr>)
         else case unmarshal_float64 j of
             Inl (JsonFailure e) \<Rightarrow> Inl e
           | Inl _ \<Rightarrow> Inl (UnmarshalTypeError (json_kind j) (TFloat 64))
           | Inr f \<Rightarrow> Inr (m\<lparr>in_ID := Some f\<rparr>))
      else if k = ''method'' then
        (case j of
           JNull \<Rightarrow> Inr m
         | JString s \<Rightarrow> Inr (m\<lparr>in_ntfn := (in_ntfn m)\<lparr>ntfn_Method := s\<rparr>\<rparr>)
         | _ \<Rightarrow> Inl (UnmarshalTypeError (json_kind j) TString))
      else if k = ''params'' then
        (case j of
           JNull \<Rightarrow> Inr (m\<lparr>in_ntfn := (in_ntfn m)\<lparr>ntfn_Params := None\<rparr>\<rparr>)
         | JArray js \<Rightarrow> Inr (m\<lparr>in_ntfn := (in_ntfn m)\<lparr>ntfn_Params := Some js\<rparr>\<rparr>)
         | _ \<Rightarrow> Inl (UnmarshalTypeError (json_kind j) (TSlice TInterface)))
      else if k = ''result'' then Inr (m\<lparr>in_resp := (in_resp m)\<lparr>raw_Result := Some j\<rparr>\<rparr>)
      else if k = ''error'' then
        bindR (unmarshal_RPCError j (raw_Error (in_resp m))) (\<lambda>e.
          Inr (m\<lparr>in_resp := (in_resp m)\<lparr>raw_Error := e\<rparr>\<rparr>))
      else Inr m)"

primrec unmarshal_in_members :: "(string \<times> json) list \<Rightarrow> inMessage \<Rightarrow> jerror + inMessage" where
  "unmarshal_in_members [] m = Inr m"
| "unmarshal_in_members (kj # kjs) m = bindR (unmarshal_in_member kj m) (unmarshal_in_members kjs)"

text \<open>
  \<^verbatim>\<open>json.Unmarshal\<close> of a message. It goes on behind a member of the wrong type but returns an error in the
  end, and then \<^verbatim>\<open>handleMessage\<close> looks at nothing else; so only the success matters.
\<close>

definition Unmarshal_inMessage :: "string + json \<Rightarrow> inMessage option" where
  "Unmarshal_inMessage doc =
     (case doc of
        Inr (JObject kvs) \<Rightarrow> (case unmarshal_in_members kvs zero_inMessage of Inl e \<Rightarrow> None | Inr m \<Rightarrow> Some m)
      | Inr JNull \<Rightarrow> Some zero_inMessage
      | _ \<Rightarrow> None)"

definition rawResponse_result :: "rawResponse \<Rightarrow> client_response" where
  "rawResponse_result r =
     (case raw_Error r of
        Some e \<Rightarrow> \<lparr>r_result = None, r_err = Some (ServerError e)\<rparr>
      | None \<Rightarrow> \<lparr>r_result = raw_Result r, r_err = None\<rparr>)"

section \<open>The branches of \<^verbatim>\<open>handleMessage\<close>\<close>

text \<open>The conversion to \<^verbatim>\<open>uint64\<close>; out of range it is left open by the language and this is what amd64 does.\<close>

definition float64_uint64 :: "float64 \<Rightarrow> uint64" where
  "float64_uint64 f = (if f < 2 ^ 64 then word_of_int \<lfloor>f\<rfloor> else 2 ^ 63)"

text \<open>Ignored with a warning, a notification, or a response for an id.\<close>

datatype in_action =
    Ignored
  | Notification string "json list"
  | Reply uint64 client_response

definition message_action :: "string + json \<Rightarrow> in_action" where
  "message_action doc =
     (case Unmarshal_inMessage doc of
        None \<Rightarrow> Ignored
      | Some inm \<Rightarrow>
          (case in_ID inm of
             None \<Rightarrow>
               if ntfn_Method (in_ntfn inm) = [] then Ignored
               else (case ntfn_Params (in_ntfn inm) of
                       None \<Rightarrow> Ignored
                     | Some params \<Rightarrow> Notification (ntfn_Method (in_ntfn inm)) params)
           | Some f \<Rightarrow>
               if f < 0 \<or> f \<noteq> of_int (float64_trunc f) then Ignored
               else Reply (float64_uint64 f) (rawResponse_result (in_resp inm))))"

section \<open>Receiving\<close>

text \<open>\<^verbatim>\<open>FutureGetBlockHashResult.Receive\<close>, on the response taken from the channel. No bytes are no JSON.\<close>

datatype receive_err = FutureErr client_err | ResultErr ntfn_err | NoResult

definition GetBlockHash_Receive :: "client_response \<Rightarrow> receive_err + hash" where
  "GetBlockHash_Receive r =
     (case r_err r of
        Some e \<Rightarrow> Inl (FutureErr e)
      | None \<Rightarrow>
          (case r_result r of
             None \<Rightarrow> Inl NoResult
           | Some res \<Rightarrow>
               (case bindR (unmarshal_string res) (\<lambda>txHashStr. liftG (NewHashFromStr txHashStr)) of
                  Inl e \<Rightarrow> Inl (ResultErr e)
                | Inr h \<Rightarrow> Inr h)))"

text \<open>\<^verbatim>\<open>Receive\<close> of the futures that only report success.\<close>

definition plain_Receive :: "client_response \<Rightarrow> client_err option" where
  "plain_Receive r = r_err r"

section \<open>Replies of the server\<close>

lemma unmarshal_float64_int:
  assumes "\<bar>i\<bar> \<le> 2 ^ 53"
  shows "unmarshal_float64 (JInt i) = Inr (of_int i)" "unmarshal_float64 (JFloat (fmt_d i)) = Inr (of_int i)"
  using ParseFloat_fmt_d [OF assms]
  by (simp_all add: unmarshal_float64_def unmarshal_scalar liftJ_def Let_def)

lemma float64_uint64_of_int: "0 \<le> i \<Longrightarrow> i < 2 ^ 64 \<Longrightarrow> float64_uint64 (of_int i) = word_of_int i"
proof -
  assume i: "0 \<le> i" "i < 2 ^ 64"
  then have "(of_int i :: rat) < of_int (2 ^ 64)" by (simp only: of_int_less_iff)
  then show ?thesis by (simp add: float64_uint64_def)
qed

lemma keys_lower:
  "to_lower ''jsonrpc'' = ''jsonrpc''" "to_lower ''result'' = ''result''" "to_lower ''error'' = ''error''"
  "to_lower ''id'' = ''id''" "to_lower ''method'' = ''method''" "to_lower ''params'' = ''params''"
  by code_simp+

lemmas in_member_simps = unmarshal_in_member_def Let_def keys_lower zero_inMessage_def

lemma unmarshal_RPCError_json:
  assumes "case e of None \<Rightarrow> True | Some e \<Rightarrow> in_int 0 (Code e)"
  shows "unmarshal_RPCError (RPCError_json e) None = Inr e"
proof (cases e)
  case None
  then show ?thesis by (simp add: unmarshal_RPCError_def RPCError_json_def unmarshal_scalar)
next
  case (Some x)
  let ?fs = "[jfld ''Code'' (TInt 0) ''code'' True, jfld ''Message'' TString ''message'' True]"
  have i: "field_index ?fs ''code'' = Some 0" "field_index ?fs ''message'' = Some 1" by code_simp+
  then have i': "field_index ?fs ''code'' = Some 0" "field_index ?fs ''message'' = Some (Suc 0)" by simp_all
  have t: "ftype (?fs ! 0) = TInt 0" "ftype (?fs ! Suc 0) = TString" by (simp_all add: jfld_def)
  show ?thesis using assms Some i' t
    by (cases x) (auto simp: unmarshal_RPCError_def RPCError_json_def T_RPCError_def zero_field_ftype jfld_def
        json_Unmarshal.simps [of "TPtr (TStruct n fs)" for n fs] json_Unmarshal.simps [of "TStruct n fs" for n fs] unmarshal_scalar)
qed

text \<open>A reply of the server to a request of this client is taken for what it is.\<close>

lemma message_action_reply:
  assumes "0 \<le> i" and "i < 2 ^ 53" and "case e of None \<Rightarrow> True | Some e \<Rightarrow> in_int 0 (Code e)"
    and "jid \<in> {JInt i, JFloat (fmt_d i)}"
  shows "message_action (Inr (reply_json ver res e jid)) =
    Reply (word_of_int i) (rawResponse_result \<lparr>raw_Result = Some res, raw_Error = e\<rparr>)"
proof -
  have "\<bar>i\<bar> \<le> 2 ^ 53" using assms(1,2) by simp
  then have f: "unmarshal_float64 jid = Inr (of_int i)" using unmarshal_float64_int assms(4) by auto
  have j: "jid \<noteq> JNull" using assms(4) by auto
  have "Unmarshal_inMessage (Inr (reply_json ver res e jid)) =
      Some \<lparr>in_ID = Some (of_int i), in_ntfn = \<lparr>ntfn_Method = [], ntfn_Params = None\<rparr>,
        in_resp = \<lparr>raw_Result = Some res, raw_Error = e\<rparr>\<rparr>"
    using f j unmarshal_RPCError_json [OF assms(3)]
    by (simp add: Unmarshal_inMessage_def reply_json_def in_member_simps)
  moreover have "float64_trunc (of_int i) = i" using assms(1) by (simp add: float64_trunc_def)
  moreover have "float64_uint64 (of_int i) = word_of_int i" using assms(1,2) by (intro float64_uint64_of_int) auto
  ultimately show ?thesis using assms(1) by (simp add: message_action_def)
qed

section \<open>Notifications of the server\<close>

lemma redeeming_method:
  assumes "registered = Some reg"
  shows "concreteTypeToMethod reg (TPtr T_RedeemingTxNtfn) = Some RedeemingTxNtfnMethod"
proof -
  have "(case registered of Some reg \<Rightarrow> concreteTypeToMethod reg (TPtr T_RedeemingTxNtfn) = Some RedeemingTxNtfnMethod | None \<Rightarrow> False)"
    by code_simp
  then show ?thesis unfolding assms option.case .
qed

definition details_ok :: "Block option \<Rightarrow> int \<Rightarrow> bool" where
  "details_ok block index \<longleftrightarrow>
     (case block of None \<Rightarrow> True
      | Some b \<Rightarrow> in_int 0 index \<and> in_int 64 (Unix (Timestamp (Header (Block_MsgBlock b)))))"

lemma blockDetails_round:
  assumes "details_ok (Some b) index" and "blockDetails (Some b) index = Some v"
  shows "round_trips (TPtr T_BlockDetails) (VPtr (Some v))"
proof -
  have "in_int 32 (sint (Height b))" using sint_greater_eq [of "Height b"] sint_less [of "Height b"] by (simp add: in_int_def int_bits_def)
  then show ?thesis
    using assms by (auto simp: blockDetails_def T_BlockDetails_def jfld_def details_ok_def)
qed

lemma redeeming_params:
  assumes "registered = Some reg" and "details_ok block index"
  shows "\<exists>js. newRedeemingTxNotification reg txHex index block =
      Inr (JObject [(''jsonrpc'', JString RpcVersion1), (''method'', JString RedeemingTxNtfnMethod),
        (''params'', JArray js), (''id'', JNull)]) \<and>
    length js \<in> {1, 2} \<and> js ! 0 = JString txHex \<and>
    (if length js > 1 then unmarshal_BlockDetails (js ! 1) else Inr None) = Inr (blockDetails block index)"
proof -
  have v: "RPCVersion_IsValid RpcVersion1" by (simp add: RPCVersion_IsValid_def validRpcVersions_def RpcVersion1_def)
  show ?thesis
  proof (cases block)
    case None
    then show ?thesis using v redeeming_method [OF assms(1)]
      by (simp add: newRedeemingTxNotification_def NewRedeemingTxNtfn_def MarshalCmd_def NewRequest_def blockDetails_def
          T_RedeemingTxNtfn_def Request_json_def json_Marshal_iface_def makeParams_def fld_def Let_def)
  next
    case (Some b)
    then obtain d where d: "blockDetails block index = Some d" by (simp add: blockDetails_def)
    from blockDetails_round [of b index d] assms(2) d Some have "round_trips (TPtr T_BlockDetails) (VPtr (Some d))" by simp
    from marshal_round(1) [OF this] obtain j where
      j: "json_Marshal (TPtr T_BlockDetails) (VPtr (Some d)) = Inr j" "json_Unmarshal (TPtr T_BlockDetails) j (VPtr None) = Inr (VPtr (Some d))"
      by auto
    have "newRedeemingTxNotification reg txHex index block =
      Inr (JObject [(''jsonrpc'', JString RpcVersion1), (''method'', JString RedeemingTxNtfnMethod),
        (''params'', JArray [JString txHex, j]), (''id'', JNull)])"
      using v redeeming_method [OF assms(1)] j(1) d
      by (simp add: newRedeemingTxNotification_def NewRedeemingTxNtfn_def MarshalCmd_def NewRequest_def
          T_RedeemingTxNtfn_def Request_json_def json_Marshal_iface_def makeParams_def fld_def Let_def)
    moreover have "unmarshal_BlockDetails j = Inr (Some d)" using j(2) by (simp add: unmarshal_BlockDetails_def liftJ_def)
    ultimately show ?thesis using d by (intro exI [of _ "[JString txHex, j]"]) simp
  qed
qed

lemma hex_tx_round:
  assumes "wf_tx tx" and "msg_TxIn tx \<noteq> []"
  shows "\<exists>bs. hex_Decode (txHexString tx) = Inr bs \<and> Deserialize bs = Inr (tx, [])"
proof -
  obtain bs where "Serialize tx emptyBuffer = (None, \<lparr>wbuf = bs, wroom = None\<rparr>)" "Deserialize bs = Inr (tx, [])"
    using witness_tx.dec_enc [where x = tx and r = "[]"] assms by (auto simp: Serialize_Write Deserialize_def)
  then show ?thesis by (simp add: txHexString_def)
qed

lemma message_action_notification:
  assumes "method \<noteq> []"
  shows "message_action (Inr (JObject [(''jsonrpc'', ver), (''method'', JString method), (''params'', JArray js), (''id'', JNull)]))
    = Notification method js"
  using assms by (simp add: message_action_def Unmarshal_inMessage_def in_member_simps)

text \<open>C40: The notification the server sends for a transaction that spends a watched output arrives: its
  JSON is taken for that notification, and the handler is called with the transaction, witnesses
  included, and with the details of the block it is in.\<close>

theorem redeeming_notification_delivered:
  assumes "registered = Some reg" and "wf_tx tx" and "msg_TxIn tx \<noteq> []"
    and "OnRedeemingTx hs" and "details_ok block index"
  shows "\<exists>j params. newRedeemingTxNotification reg (txHexString tx) index block = Inr j \<and>
    message_action (Inr j) = Notification RedeemingTxNtfnMethod params \<and>
    handleNotification (Some hs) RedeemingTxNtfnMethod params =
      Some (RedeemingTxCall (NewTx tx) (blockDetails block index))"
proof -
  from redeeming_params [OF assms(1,5)] obtain js where
    js: "newRedeemingTxNotification reg (txHexString tx) index block =
        Inr (JObject [(''jsonrpc'', JString RpcVersion1), (''method'', JString RedeemingTxNtfnMethod),
          (''params'', JArray js), (''id'', JNull)])"
      "length js \<in> {1, 2}" "js ! 0 = JString (txHexString tx)"
      "(if length js > 1 then unmarshal_BlockDetails (js ! 1) else Inr None) = Inr (blockDetails block index)" by blast
  obtain bs where bs: "hex_Decode (txHexString tx) = Inr bs" "Deserialize bs = Inr (tx, [])"
    using hex_tx_round [OF assms(2,3)] by blast
  have s: "unmarshal_string (JString h) = Inr h" for h by (simp add: unmarshal_string_def unmarshal_scalar liftJ_def)
  have "parseChainTxNtfnParams js = Inr (NewTx tx, blockDetails block index)"
    using js(2,3,4) bs s by (auto simp: parseChainTxNtfnParams_def liftG_def split: if_splits)
  then have "handleNotification (Some hs) RedeemingTxNtfnMethod js = Some (RedeemingTxCall (NewTx tx) (blockDetails block index))"
    using assms(4) by (simp add: handleNotification_def deliver_def RedeemingTxNtfnMethod_def BlockConnectedNtfnMethod_def
        FilteredBlockConnectedNtfnMethod_def BlockDisconnectedNtfnMethod_def FilteredBlockDisconnectedNtfnMethod_def
        RecvTxNtfnMethod_def)
  then show ?thesis
    using js(1) message_action_notification [of RedeemingTxNtfnMethod "JString RpcVersion1" js]
    by (simp add: RedeemingTxNtfnMethod_def)
qed

definition sample_handlers :: NotificationHandlers where
  "sample_handlers = \<lparr>OnClientConnected = False, OnBlockConnected = False, OnFilteredBlockConnected = False,
     OnBlockDisconnected = False, OnFilteredBlockDisconnected = False, OnRecvTx = False, OnRedeemingTx = True,
     OnRelevantTxAccepted = False, OnRescanFinished = False, OnRescanProgress = False, OnTxAccepted = False,
     OnTxAcceptedVerbose = False, OnBtcdConnected = False, OnAccountBalance = False, OnWalletLockState = False,
     OnUnknownNotification = False\<rparr>"

theorem redeeming_notification_delivered_witness:
  "\<exists>j params. newRedeemingTxNotification (the registered) (txHexString sample_tx) 3 (Some sample_block) = Inr j \<and>
    message_action (Inr j) = Notification RedeemingTxNtfnMethod params \<and>
    handleNotification (Some sample_handlers) RedeemingTxNtfnMethod params =
      Some (RedeemingTxCall (NewTx sample_tx) (blockDetails (Some sample_block) 3))"
proof -
  have "details_ok (Some sample_block) 3" by code_simp
  from redeeming_notification_delivered [OF registered_the _ _ _ this] show ?thesis
    by (simp add: sample_tx_wf sample_handlers_def)
qed

end
