(* ===== verification/Rpcclient.thy ===== *)
theory Rpcclient
  imports Rpcclient_Msg
begin

text \<open>
  The RPC client over a websocket (\<^verbatim>\<open>rpcclient/infrastructure.go\<close>): the tracking of requests, the state of
  registered notifications (\<^verbatim>\<open>rpcclient/notify.go\<close>), sending, disconnecting, shutting down and resending,
  each as a function on the client. A response channel is a number; all have a buffer of one, and
  \<open>responses\<close> lists what is in the buffers. The steps in which goroutines run are in
  \<^verbatim>\<open>Rpcclient_Run\<close>.
\<close>

section \<open>The client\<close>

type_synonym chan = nat

record jsonRequest =
  jr_id :: uint64
  jr_method :: string
  jr_cmd :: cmd
  jr_marshalledJSON :: json
  jr_responseChan :: chan

text \<open>The maps to empty structs are sets, here lists without repetition.\<close>

record notificationState =
  notifyBlocks :: bool
  notifyNewTx :: bool
  notifyNewTxVerbose :: bool
  notifyReceived :: "string list"
  notifySpent :: "goval list"

definition newNotificationState :: notificationState where
  "newNotificationState =
     \<lparr>notifyBlocks = False, notifyNewTx = False, notifyNewTxVerbose = False, notifyReceived = [], notifySpent = []\<rparr>"

definition notificationState_Copy :: "notificationState \<Rightarrow> notificationState" where
  "notificationState_Copy s =
     \<lparr>notifyBlocks = notifyBlocks s, notifyNewTx = notifyNewTx s, notifyNewTxVerbose = notifyNewTxVerbose s,
      notifyReceived = fold List.insert (notifyReceived s) [], notifySpent = fold List.insert (notifySpent s) []\<rparr>"

text \<open>
  An element of a list has an identity (the pointer) and a value. The channels that are only closed
  are flags; \<open>disconnect_gen\<close> tells the channels apart that \<^verbatim>\<open>disconnect\<close> has been, since a new one is made
  at each reconnect. Of the configuration the client uses two options. \<open>next_elem\<close> and \<open>next_chan\<close> are
  the pointers not yet in use.
\<close>

type_synonym list_element = "nat \<times> jsonRequest"

record Client =
  cl_id :: uint64
  HTTPPostMode :: bool
  DisableAutoReconnect :: bool
  cl_disconnected :: bool
  batch :: bool
  batchList :: "list_element list"
  retryCount :: int64
  requestMap :: "uint64 \<rightharpoonup> list_element"
  requestList :: "list_element list"
  ntfnHandlers :: "NotificationHandlers option"
  ntfnState :: notificationState
  cl_sendChan :: "json list"
  sendPostChan :: "jsonRequest list"
  connEstablished_closed :: bool
  disconnect_gen :: nat
  disconnect_closed :: bool
  shutdown_closed :: bool
  next_elem :: nat
  next_chan :: chan
  responses :: "(chan \<times> client_response) list"

definition sendBufferSize :: nat where "sendBufferSize = 50"
definition sendPostBufferSize :: nat where "sendPostBufferSize = 100"

section \<open>Response channels\<close>

text \<open>\<^verbatim>\<open>make(chan *Response, 1)\<close>, and sending on one: \<open>None\<close> when the buffer is full, the sender blocks.\<close>

definition make_chan :: "Client \<Rightarrow> chan \<times> Client" where
  "make_chan c = (next_chan c, c\<lparr>next_chan := next_chan c + 1\<rparr>)"

definition respond :: "chan \<Rightarrow> client_response \<Rightarrow> Client \<Rightarrow> Client option" where
  "respond ch r c =
     (if ch \<in> set (map fst (responses c)) then None else Some (c\<lparr>responses := responses c @ [(ch, r)]\<rparr>))"

definition error_response :: "client_err \<Rightarrow> client_response" where
  "error_response e = \<lparr>r_result = None, r_err = Some e\<rparr>"

text \<open>The send on a channel just made goes to its buffer.\<close>

definition newFuture :: "client_response \<Rightarrow> Client \<Rightarrow> chan \<times> Client" where
  "newFuture r c = (let (ch, c) = make_chan c in (ch, c\<lparr>responses := responses c @ [(ch, r)]\<rparr>))"

definition newFutureError :: "client_err \<Rightarrow> Client \<Rightarrow> chan \<times> Client" where
  "newFutureError e c = newFuture (error_response e) c"

definition newNilFutureResult :: "Client \<Rightarrow> chan \<times> Client" where
  "newNilFutureResult c = newFuture \<lparr>r_result = None, r_err = None\<rparr> c"

section \<open>Tracking requests\<close>

definition NextID :: "Client \<Rightarrow> uint64 \<times> Client" where
  "NextID c = (let i = cl_id c + 1 in (i, c\<lparr>cl_id := i\<rparr>))"

text \<open>\<open>PushBack\<close> makes a new element.\<close>

definition addRequest :: "jsonRequest \<Rightarrow> Client \<Rightarrow> client_err option \<times> Client" where
  "addRequest jReq c =
     (if shutdown_closed c then (Some ErrClientShutdown, c)
      else
        let element = (next_elem c, jReq); c = c\<lparr>next_elem := next_elem c + 1\<rparr> in
        if \<not> batch c
        then (None, c\<lparr>requestList := requestList c @ [element], requestMap := (requestMap c)(jr_id jReq \<mapsto> element)\<rparr>)
        else (None, c\<lparr>batchList := batchList c @ [element], requestMap := (requestMap c)(jr_id jReq \<mapsto> element)\<rparr>))"

text \<open>\<open>Remove\<close> takes an element out of the list it is in, and gives its value in any case.\<close>

definition list_Remove :: "list_element \<Rightarrow> list_element list \<Rightarrow> list_element list" where
  "list_Remove e es = filter (\<lambda>x. fst x \<noteq> fst e) es"

definition removeRequest :: "uint64 \<Rightarrow> Client \<Rightarrow> jsonRequest option \<times> Client" where
  "removeRequest i c =
     (case requestMap c i of
        None \<Rightarrow> (None, c)
      | Some element \<Rightarrow>
          (Some (snd element),
           c\<lparr>requestMap := (requestMap c)(i := None), requestList := list_Remove element (requestList c)\<rparr>))"

definition removeAllRequests :: "Client \<Rightarrow> Client" where
  "removeAllRequests c = c\<lparr>requestMap := Map.empty, requestList := []\<rparr>"

text \<open>The loops of \<^verbatim>\<open>Disconnect\<close> and \<^verbatim>\<open>Shutdown\<close> over the list: they block if a buffer is full.\<close>

primrec respond_all :: "client_err \<Rightarrow> list_element list \<Rightarrow> Client \<Rightarrow> Client option" where
  "respond_all e [] c = Some c"
| "respond_all e (el # els) c =
     (case respond (jr_responseChan (snd el)) (error_response e) c of
        None \<Rightarrow> None
      | Some c \<Rightarrow> respond_all e els c)"

section \<open>Registered notifications\<close>

definition struct_fields :: "goval \<Rightarrow> goval list" where
  "struct_fields v = (case v of VPtr (Some (VStruct vs)) \<Rightarrow> vs | _ \<Rightarrow> [])"

definition trackRegisteredNtfns :: "cmd \<Rightarrow> Client \<Rightarrow> Client" where
  "trackRegisteredNtfns cmd1 c =
     (if ntfnHandlers c = None then c
      else
        let (t, v) = cmd1; st = ntfnState c in
        if t = TPtr T_NotifyBlocksCmd then c\<lparr>ntfnState := st\<lparr>notifyBlocks := True\<rparr>\<rparr>
        else if t = TPtr T_NotifyNewTransactionsCmd then
          (case struct_fields v of
             [VPtr (Some (VBool True))] \<Rightarrow> c\<lparr>ntfnState := st\<lparr>notifyNewTxVerbose := True\<rparr>\<rparr>
           | _ \<Rightarrow> c\<lparr>ntfnState := st\<lparr>notifyNewTx := True\<rparr>\<rparr>)
        else if t = TPtr T_NotifySpentCmd then
          (case struct_fields v of
             [VSlice (Some outPoints)] \<Rightarrow> c\<lparr>ntfnState := st\<lparr>notifySpent := fold List.insert outPoints (notifySpent st)\<rparr>\<rparr>
           | _ \<Rightarrow> c)
        else if t = TPtr T_NotifyReceivedCmd then
          (case struct_fields v of
             [VSlice (Some addresses)] \<Rightarrow>
               c\<lparr>ntfnState := st\<lparr>notifyReceived :=
                 fold List.insert (map (\<lambda>a. case a of VString s \<Rightarrow> s | _ \<Rightarrow> []) addresses) (notifyReceived st)\<rparr>\<rparr>
           | _ \<Rightarrow> c)
        else c)"

text \<open>The commands \<^verbatim>\<open>reregisterNtfns\<close> sends one after the other, waiting for each.\<close>

definition reregisterNtfns_cmds :: "Client \<Rightarrow> cmd list" where
  "reregisterNtfns_cmds c =
     (if ntfnHandlers c = None then []
      else
        let stateCopy = notificationState_Copy (ntfnState c) in
        (if notifyBlocks stateCopy then [NewNotifyBlocksCmd] else []) @
        (if notifyNewTx stateCopy \<or> notifyNewTxVerbose stateCopy
         then [NewNotifyNewTransactionsCmd (Some (VBool (notifyNewTxVerbose stateCopy)))] else []) @
        (if length (notifySpent stateCopy) > 0 then [NewNotifySpentCmd (Some (notifySpent stateCopy))] else []) @
        (if length (notifyReceived stateCopy) > 0 then [NewNotifyReceivedCmd (Some (notifyReceived stateCopy))] else []))"

section \<open>Sending\<close>

text \<open>
  \<^verbatim>\<open>sendMessage\<close> selects between the two channels: \<open>Some\<close> is what happens when the message goes to
  \<^verbatim>\<open>sendChan\<close>. The other case, the closed \<^verbatim>\<open>disconnect\<close> channel, drops the message.
\<close>

definition sendMessage :: "json \<Rightarrow> Client \<Rightarrow> Client option" where
  "sendMessage marshalledJSON c =
     (if length (cl_sendChan c) < sendBufferSize then Some (c\<lparr>cl_sendChan := cl_sendChan c @ [marshalledJSON]\<rparr>)
      else None)"

text \<open>The send to \<^verbatim>\<open>sendPostChan\<close> happens whether or not the client was shut down; \<open>None\<close> when one of the sends blocks.\<close>

definition sendPostRequest :: "jsonRequest \<Rightarrow> Client \<Rightarrow> Client option" where
  "sendPostRequest jReq c =
     (case (if shutdown_closed c then respond (jr_responseChan jReq) (error_response ErrClientShutdown) c else Some c) of
        None \<Rightarrow> None
      | Some c \<Rightarrow>
          if length (sendPostChan c) < sendPostBufferSize
          then Some (c\<lparr>sendPostChan := sendPostChan c @ [jReq]\<rparr>) else None)"

text \<open>\<^verbatim>\<open>sendRequest\<close>, with the message that is left for \<^verbatim>\<open>sendMessage\<close> in the end.\<close>

definition sendRequest :: "jsonRequest \<Rightarrow> Client \<Rightarrow> (Client \<times> json option) option" where
  "sendRequest jReq c =
     (if HTTPPostMode c then
        if batch c then Some (snd (addRequest jReq c), None)
        else map_option (\<lambda>c. (c, None)) (sendPostRequest jReq c)
      else if \<not> connEstablished_closed c then
        map_option (\<lambda>c. (c, None)) (respond (jr_responseChan jReq) (error_response ErrClientNotConnected) c)
      else
        case addRequest jReq c of
          (Some e, c) \<Rightarrow> map_option (\<lambda>c. (c, None)) (respond (jr_responseChan jReq) (error_response e) c)
        | (None, c) \<Rightarrow> Some (c, Some (jr_marshalledJSON jReq)))"

text \<open>
  \<^verbatim>\<open>SendCmd\<close> up to the call of \<^verbatim>\<open>sendRequest\<close>: the future, and the request if the command could be
  marshalled. An id that was taken is lost if it could not.
\<close>

definition SendCmd_request :: "registry \<Rightarrow> cmd \<Rightarrow> Client \<Rightarrow> chan \<times> jsonRequest option \<times> Client" where
  "SendCmd_request reg cmd1 c =
     (let rpcVersion = (if batch c then RpcVersion2 else RpcVersion1) in
      case CmdMethod reg cmd1 of
        Inl e \<Rightarrow> (let (ch, c) = newFutureError (CommandError e) c in (ch, None, c))
      | Inr method \<Rightarrow>
          (let (i, c) = NextID c in
           case MarshalCmd reg rpcVersion (Some (TUint 64, VInt (uint i))) cmd1 of
             Inl e \<Rightarrow> (let (ch, c) = newFutureError (CommandError e) c in (ch, None, c))
           | Inr marshalledJSON \<Rightarrow>
               (let (responseChan, c) = make_chan c
                in (responseChan,
                    Some \<lparr>jr_id = i, jr_method = method, jr_cmd = cmd1, jr_marshalledJSON = marshalledJSON,
                      jr_responseChan = responseChan\<rparr>, c))))"

definition SendCmd :: "registry \<Rightarrow> cmd \<Rightarrow> Client \<Rightarrow> chan \<times> (Client \<times> json option) option" where
  "SendCmd reg cmd1 c =
     (case SendCmd_request reg cmd1 c of
        (ch, None, c) \<Rightarrow> (ch, Some (c, None))
      | (ch, Some jReq, c) \<Rightarrow> (ch, sendRequest jReq c))"

section \<open>Disconnecting and shutting down\<close>

definition doDisconnect :: "Client \<Rightarrow> bool \<times> Client" where
  "doDisconnect c =
     (if HTTPPostMode c then (False, c)
      else if cl_disconnected c then (False, c)
      else (True, c\<lparr>disconnect_closed := True, cl_disconnected := True\<rparr>))"

definition doShutdown :: "Client \<Rightarrow> bool \<times> Client" where
  "doShutdown c = (if shutdown_closed c then (False, c) else (True, c\<lparr>shutdown_closed := True\<rparr>))"

definition client_Disconnected :: "Client \<Rightarrow> bool" where
  "client_Disconnected c = (connEstablished_closed c \<and> cl_disconnected c)"

text \<open>\<^verbatim>\<open>Disconnect\<close> behind \<^verbatim>\<open>doDisconnect\<close>, under the request lock.\<close>

definition Disconnect_pending :: "Client \<Rightarrow> Client option" where
  "Disconnect_pending c =
     (if DisableAutoReconnect c
      then map_option (\<lambda>c. snd (doShutdown (removeAllRequests c))) (respond_all ErrClientDisconnect (requestList c) c)
      else Some c)"

definition client_Disconnect :: "Client \<Rightarrow> Client option" where
  "client_Disconnect c = (case doDisconnect c of (False, c) \<Rightarrow> Some c | (True, c) \<Rightarrow> Disconnect_pending c)"

text \<open>\<^verbatim>\<open>Shutdown\<close> up to \<^verbatim>\<open>doDisconnect\<close>, and all of it.\<close>

definition Shutdown_pending :: "Client \<Rightarrow> Client option" where
  "Shutdown_pending c =
     (case doShutdown c of
        (False, c) \<Rightarrow> Some c
      | (True, c) \<Rightarrow> map_option removeAllRequests (respond_all ErrClientShutdown (requestList c) c))"

definition Shutdown :: "Client \<Rightarrow> Client option" where
  "Shutdown c =
     (if shutdown_closed c then Some c else map_option (\<lambda>c. snd (doDisconnect c)) (Shutdown_pending c))"

section \<open>Reconnecting\<close>

definition ignoreResends :: "string set" where
  "ignoreResends = {''rescan''}"

text \<open>
  The loop of \<^verbatim>\<open>resendRequests\<close> under the request lock: the requests to resend, and the client. Requests
  that are not sent again are taken out of the map by their id and out of the list.
\<close>

primrec resend_loop :: "list_element list \<Rightarrow> Client \<Rightarrow> jsonRequest list \<times> Client" where
  "resend_loop [] c = ([], c)"
| "resend_loop (e # es) c =
     (let jReq = snd e in
      if jr_method jReq \<in> ignoreResends
      then resend_loop es (c\<lparr>requestMap := (requestMap c)(jr_id jReq := None), requestList := list_Remove e (requestList c)\<rparr>)
      else let (resendReqs, c) = resend_loop es c in (jReq # resendReqs, c))"

definition resendRequests_collect :: "Client \<Rightarrow> jsonRequest list \<times> Client" where
  "resendRequests_collect c = resend_loop (requestList c) c"

text \<open>The wait before the next attempt, in nanoseconds, and a failed and a successful attempt.\<close>

definition connectionRetryInterval :: int where "connectionRetryInterval = 5 * 10 ^ 9"

definition minute :: int where "minute = 60 * 10 ^ 9"

text \<open>The product is an \<^verbatim>\<open>int64\<close>.\<close>

definition scaledDuration :: "int64 \<Rightarrow> int" where
  "scaledDuration retries =
     (let scaledInterval = sint (word_of_int connectionRetryInterval * retries)
      in if scaledInterval > minute then minute else scaledInterval)"

definition reconnect_failed :: "Client \<Rightarrow> Client" where
  "reconnect_failed c = c\<lparr>retryCount := retryCount c + 1\<rparr>"

definition reconnected :: "Client \<Rightarrow> Client" where
  "reconnected c =
     c\<lparr>retryCount := 0, disconnect_gen := disconnect_gen c + 1, disconnect_closed := False, cl_disconnected := False\<rparr>"

section \<open>Creating a client\<close>

text \<open>
  \<^verbatim>\<open>New\<close>: the outcome of \<^verbatim>\<open>newHTTPClient\<close> or of \<^verbatim>\<open>dial\<close> is an argument. The chain is chosen by name, and
  the empty name stands for the test network.
\<close>

datatype chain_choice = TestNet3Params | SimNetParams

definition chain_of :: "string \<Rightarrow> chain_choice option" where
  "chain_of params =
     (if params = [] \<or> params = ''testnet3'' then Some TestNet3Params
      else if params = ''simnet'' then Some SimNetParams
      else None)"

definition New ::
  "bool \<Rightarrow> bool \<Rightarrow> bool \<Rightarrow> string \<Rightarrow> NotificationHandlers option \<Rightarrow> client_err option \<Rightarrow>
     client_err + (Client \<times> chain_choice)" where
  "New httpPostMode disableAutoReconnect disableConnectOnNew params hs connection =
     (let hs = (if httpPostMode then None else hs);
          connects = (httpPostMode \<or> \<not> disableConnectOnNew)
      in case (if connects then connection else None) of
           Some e \<Rightarrow> Inl e
         | None \<Rightarrow>
             (case chain_of params of
                None \<Rightarrow> Inl (TransportError (''rpcclient.New: Unknown chain '' @ params))
              | Some chain \<Rightarrow> Inr
                  (\<lparr>cl_id = 0, HTTPPostMode = httpPostMode, DisableAutoReconnect = disableAutoReconnect,
                    cl_disconnected = False, batch = False, batchList = [], retryCount = 0, requestMap = Map.empty,
                    requestList = [], ntfnHandlers = hs, ntfnState = newNotificationState, cl_sendChan = [],
                    sendPostChan = [], connEstablished_closed = connects, disconnect_gen = 0,
                    disconnect_closed = False, shutdown_closed = False, next_elem = 0, next_chan = 0,
                    responses = []\<rparr>, chain)))"

section \<open>The calls for notifications and blocks\<close>

text \<open>The guards all the calls for notifications share.\<close>

definition ntfn_call ::
  "registry \<Rightarrow> cmd \<Rightarrow> Client \<Rightarrow> chan \<times> (Client \<times> json option) option" where
  "ntfn_call reg cmd1 c =
     (if HTTPPostMode c then (let (ch, c) = newFutureError ErrWebsocketsRequired c in (ch, Some (c, None)))
      else if ntfnHandlers c = None then (let (ch, c) = newNilFutureResult c in (ch, Some (c, None)))
      else SendCmd reg cmd1 c)"

definition newOutPointFromWire :: "OutPoint \<Rightarrow> goval" where
  "newOutPointFromWire op = VStruct [VString (hash_String (op_Hash op)), VInt (uint (op_Index op))]"

definition NotifyBlocksAsync :: "registry \<Rightarrow> Client \<Rightarrow> chan \<times> (Client \<times> json option) option" where
  "NotifyBlocksAsync reg c = ntfn_call reg NewNotifyBlocksCmd c"

definition notifySpentInternal :: "registry \<Rightarrow> goval list \<Rightarrow> Client \<Rightarrow> chan \<times> (Client \<times> json option) option" where
  "notifySpentInternal reg outpoints c = ntfn_call reg (NewNotifySpentCmd (Some outpoints)) c"

definition NotifySpentAsync :: "registry \<Rightarrow> OutPoint list \<Rightarrow> Client \<Rightarrow> chan \<times> (Client \<times> json option) option" where
  "NotifySpentAsync reg outpoints c = ntfn_call reg (NewNotifySpentCmd (Some (map newOutPointFromWire outpoints))) c"

definition NotifyNewTransactionsAsync :: "registry \<Rightarrow> bool \<Rightarrow> Client \<Rightarrow> chan \<times> (Client \<times> json option) option" where
  "NotifyNewTransactionsAsync reg verbose c = ntfn_call reg (NewNotifyNewTransactionsCmd (Some (VBool verbose))) c"

definition notifyReceivedInternal :: "registry \<Rightarrow> string list \<Rightarrow> Client \<Rightarrow> chan \<times> (Client \<times> json option) option" where
  "notifyReceivedInternal reg addresses c = ntfn_call reg (NewNotifyReceivedCmd (Some addresses)) c"

text \<open>An address is its \<^verbatim>\<open>String\<close> and its \<^verbatim>\<open>EncodeAddress\<close>: no type of the repository implements the interface.\<close>

record Address =
  addr_String :: string
  EncodeAddress :: string

definition NotifyReceivedAsync :: "registry \<Rightarrow> Address list \<Rightarrow> Client \<Rightarrow> chan \<times> (Client \<times> json option) option" where
  "NotifyReceivedAsync reg addresses c = ntfn_call reg (NewNotifyReceivedCmd (Some (map addr_String addresses))) c"

definition hash_or_empty :: "hash option \<Rightarrow> string" where
  "hash_or_empty h = (case h of None \<Rightarrow> [] | Some h \<Rightarrow> hash_String h)"

definition RescanAsync ::
  "registry \<Rightarrow> hash option \<Rightarrow> Address list \<Rightarrow> OutPoint list \<Rightarrow> Client \<Rightarrow> chan \<times> (Client \<times> json option) option" where
  "RescanAsync reg startBlock addresses outpoints c =
     ntfn_call reg (NewRescanCmd (hash_or_empty startBlock) (Some (map addr_String addresses))
       (Some (map newOutPointFromWire outpoints)) None) c"

definition RescanEndBlockAsync ::
  "registry \<Rightarrow> hash option \<Rightarrow> Address list \<Rightarrow> OutPoint list \<Rightarrow> hash option \<Rightarrow> Client \<Rightarrow>
     chan \<times> (Client \<times> json option) option" where
  "RescanEndBlockAsync reg startBlock addresses outpoints endBlock c =
     ntfn_call reg (NewRescanCmd (hash_or_empty startBlock) (Some (map addr_String addresses))
       (Some (map newOutPointFromWire outpoints)) (Some (VString (hash_or_empty endBlock)))) c"

definition LoadTxFilterAsync ::
  "registry \<Rightarrow> bool \<Rightarrow> Address list \<Rightarrow> OutPoint list \<Rightarrow> Client \<Rightarrow> chan \<times> (Client \<times> json option) option" where
  "LoadTxFilterAsync reg reload addresses outPoints c =
     SendCmd reg (NewLoadTxFilterCmd reload (Some (map EncodeAddress addresses))
       (Some (map newOutPointFromWire outPoints))) c"

definition GetBlockHashAsync :: "registry \<Rightarrow> int \<Rightarrow> Client \<Rightarrow> chan \<times> (Client \<times> json option) option" where
  "GetBlockHashAsync reg height c = SendCmd reg (NewGetBlockHashCmd height) c"

text \<open>\<^verbatim>\<open>ReceiveFuture\<close> takes the response out of the buffer; \<open>None\<close> while there is none.\<close>

definition ReceiveFuture :: "chan \<Rightarrow> Client \<Rightarrow> (client_response \<times> Client) option" where
  "ReceiveFuture f c =
     (case map_of (responses c) f of
        None \<Rightarrow> None
      | Some r \<Rightarrow> Some (r, c\<lparr>responses := remove1 (f, r) (responses c)\<rparr>))"

section \<open>One message\<close>

text \<open>
  \<^verbatim>\<open>handleMessage\<close> up to the delivery: what is sent to which channel, the callback of a notification, and
  the client. The command is tracked whether or not the response is an error.
\<close>

definition handleMessage ::
  "string + json \<Rightarrow> Client \<Rightarrow> (chan \<times> client_response) option \<times> callback option \<times> Client" where
  "handleMessage doc c =
     (case message_action doc of
        Ignored \<Rightarrow> (None, None, c)
      | Notification method params \<Rightarrow> (None, handleNotification (ntfnHandlers c) method params, c)
      | Reply i response \<Rightarrow>
          (case removeRequest i c of
             (None, c) \<Rightarrow> (None, None, c)
           | (Some request, c) \<Rightarrow>
               (Some (jr_responseChan request, response), None, trackRegisteredNtfns (jr_cmd request) c)))"

end
