(* ===== verification/Rpcclient_Run.thy ===== *)
theory Rpcclient_Run
  imports Rpcclient "HOL-Library.Multiset"
begin

text \<open>
  The RPC client over a websocket as it runs: its goroutines and those of its callers as threads that
  interleave at every point where the code gives up a lock or waits. The account of futures: each one
  issued is in exactly one place, so nobody is answered twice and no send on a response channel blocks.
\<close>

section \<open>Threads\<close>

text \<open>
  What a goroutine still has to do. \<open>Requesting\<close>: \<^verbatim>\<open>SendCmd\<close> at the call of \<^verbatim>\<open>sendRequest\<close>. \<open>Sending\<close> and
  \<open>Selecting\<close>: \<^verbatim>\<open>sendMessage\<close> before and after it fetched the channel \<^verbatim>\<open>disconnect\<close>, with the requests
  \<^verbatim>\<open>resendRequests\<close> still has to send behind it. \<open>Delivering\<close>: \<^verbatim>\<open>handleMessage\<close> at the send on the response
  channel. \<open>Disconnecting\<close> and \<open>Closing\<close>: \<^verbatim>\<open>Disconnect\<close> behind and \<^verbatim>\<open>Shutdown\<close> before \<^verbatim>\<open>doDisconnect\<close>.
  \<open>Resuming\<close>: \<^verbatim>\<open>resendRequests\<close> at its start. \<open>Reregistering\<close> and \<open>Awaiting\<close>: \<^verbatim>\<open>reregisterNtfns\<close> before a command and while it waits for the answer.
  \<open>Resending\<close>: the last loop of \<^verbatim>\<open>resendRequests\<close>.
\<close>

datatype thread =
    Requesting jsonRequest
  | Sending json "jsonRequest list"
  | Selecting json nat "jsonRequest list"
  | Delivering chan client_response
  | Disconnecting
  | Closing
  | Resuming
  | Reregistering "cmd list"
  | Awaiting chan "cmd list"
  | Resending "jsonRequest list"

text \<open>\<open>taken\<close> are the futures whose response was received, \<open>dropped\<close> those whose request was not sent again.\<close>

record client_run =
  cl :: Client
  threads :: "thread list"
  taken :: "chan list"
  dropped :: "chan list"

definition disconnect_seen :: "nat \<Rightarrow> Client \<Rightarrow> bool" where
  "disconnect_seen g c \<longleftrightarrow> g < disconnect_gen c \<or> disconnect_closed c"

definition thread_of_message :: "json option \<Rightarrow> thread list" where
  "thread_of_message m = (case m of None \<Rightarrow> [] | Some j \<Rightarrow> [Sending j []])"

definition thread_of_request :: "jsonRequest option \<Rightarrow> thread list" where
  "thread_of_request r = (case r of None \<Rightarrow> [] | Some jReq \<Rightarrow> [Requesting jReq])"

definition thread_of_delivery :: "(chan \<times> client_response) option \<Rightarrow> thread list" where
  "thread_of_delivery d = (case d of None \<Rightarrow> [] | Some (ch, r) \<Rightarrow> [Delivering ch r])"

text \<open>
  The steps. A message can come in at any time while the client runs, and several may be handled at once,
  which is more than the one \<^verbatim>\<open>wsInHandler\<close> of a connection does.
\<close>

inductive client_step :: "registry \<Rightarrow> client_run \<Rightarrow> client_run \<Rightarrow> bool" for reg where
  issue: "SendCmd_request reg cmd1 (cl s) = (ch, jReq, c) \<Longrightarrow>
    client_step reg s (s\<lparr>cl := c, threads := threads s @ thread_of_request jReq\<rparr>)"
| immediate: "newFuture r (cl s) = (ch, c) \<Longrightarrow> client_step reg s (s\<lparr>cl := c\<rparr>)"
| request: "threads s = xs @ Requesting jReq # ys \<Longrightarrow> sendRequest jReq (cl s) = Some (c, m) \<Longrightarrow>
    client_step reg s (s\<lparr>cl := c, threads := xs @ ys @ thread_of_message m\<rparr>)"
| fetch: "threads s = xs @ Sending m js # ys \<Longrightarrow>
    client_step reg s (s\<lparr>threads := xs @ Selecting m (disconnect_gen (cl s)) js # ys\<rparr>)"
| send: "threads s = xs @ Selecting m g js # ys \<Longrightarrow> sendMessage m (cl s) = Some c \<Longrightarrow>
    client_step reg s (s\<lparr>cl := c, threads := xs @ Resending js # ys\<rparr>)"
| give_up: "threads s = xs @ Selecting m g js # ys \<Longrightarrow> disconnect_seen g (cl s) \<Longrightarrow>
    client_step reg s (s\<lparr>threads := xs @ Resending js # ys\<rparr>)"
| out: "cl_sendChan (cl s) = m # ms \<Longrightarrow> client_step reg s (s\<lparr>cl := (cl s)\<lparr>cl_sendChan := ms\<rparr>\<rparr>)"
| message: "handleMessage doc (cl s) = (d, cb, c) \<Longrightarrow>
    client_step reg s (s\<lparr>cl := c, threads := threads s @ thread_of_delivery d\<rparr>)"
| deliver: "threads s = xs @ Delivering ch r # ys \<Longrightarrow> respond ch r (cl s) = Some c \<Longrightarrow>
    client_step reg s (s\<lparr>cl := c, threads := xs @ ys\<rparr>)"
| receive: "ReceiveFuture ch (cl s) = Some (r, c) \<Longrightarrow>
    client_step reg s (s\<lparr>cl := c, taken := taken s @ [ch]\<rparr>)"
| disconnect: "doDisconnect (cl s) = (b, c) \<Longrightarrow>
    client_step reg s (s\<lparr>cl := c, threads := threads s @ (if b then [Disconnecting] else [])\<rparr>)"
| disconnect_rest: "threads s = xs @ Disconnecting # ys \<Longrightarrow> Disconnect_pending (cl s) = Some c \<Longrightarrow>
    client_step reg s (s\<lparr>cl := c, threads := xs @ ys\<rparr>)"
| shutdown: "\<not> shutdown_closed (cl s) \<Longrightarrow> Shutdown_pending (cl s) = Some c \<Longrightarrow>
    client_step reg s (s\<lparr>cl := c, threads := threads s @ [Closing]\<rparr>)"
| closing: "threads s = xs @ Closing # ys \<Longrightarrow>
    client_step reg s (s\<lparr>cl := snd (doDisconnect (cl s)), threads := xs @ ys\<rparr>)"
| dial_failed: "disconnect_closed (cl s) \<Longrightarrow> \<not> shutdown_closed (cl s) \<Longrightarrow> \<not> DisableAutoReconnect (cl s) \<Longrightarrow>
    client_step reg s (s\<lparr>cl := reconnect_failed (cl s)\<rparr>)"
| reconnect: "disconnect_closed (cl s) \<Longrightarrow> \<not> shutdown_closed (cl s) \<Longrightarrow> \<not> DisableAutoReconnect (cl s) \<Longrightarrow>
    client_step reg s (s\<lparr>cl := reconnected (cl s), threads := threads s @ [Resuming]\<rparr>)"
| resume: "threads s = xs @ Resuming # ys \<Longrightarrow>
    client_step reg s (s\<lparr>threads := xs @ Reregistering (reregisterNtfns_cmds (cl s)) # ys\<rparr>)"
| reregister: "threads s = xs @ Reregistering (cmd1 # cs) # ys \<Longrightarrow> SendCmd_request reg cmd1 (cl s) = (ch, jReq, c) \<Longrightarrow>
    client_step reg s (s\<lparr>cl := c, threads := xs @ Awaiting ch cs # ys @ thread_of_request jReq\<rparr>)"
| reregister_ok: "threads s = xs @ Awaiting ch cs # ys \<Longrightarrow> ReceiveFuture ch (cl s) = Some (r, c) \<Longrightarrow>
    plain_Receive r = None \<Longrightarrow>
    client_step reg s (s\<lparr>cl := c, threads := xs @ Reregistering cs # ys, taken := taken s @ [ch]\<rparr>)"
| reregister_failed: "threads s = xs @ Awaiting ch cs # ys \<Longrightarrow> ReceiveFuture ch (cl s) = Some (r, c) \<Longrightarrow>
    plain_Receive r \<noteq> None \<Longrightarrow> doDisconnect c = (b, c') \<Longrightarrow>
    client_step reg s (s\<lparr>cl := c', threads := xs @ ys @ (if b then [Disconnecting] else []), taken := taken s @ [ch]\<rparr>)"
| collect: "threads s = xs @ Reregistering [] # ys \<Longrightarrow> resendRequests_collect (cl s) = (js, c) \<Longrightarrow>
    client_step reg s (s\<lparr>cl := c, threads := xs @ Resending js # ys,
      dropped := dropped s @ map jr_responseChan
        (filter (\<lambda>j. jr_method j \<in> ignoreResends) (map snd (requestList (cl s))))\<rparr>)"
| resend: "threads s = xs @ Resending (j # js) # ys \<Longrightarrow> \<not> client_Disconnected (cl s) \<Longrightarrow>
    client_step reg s (s\<lparr>threads := xs @ Sending (jr_marshalledJSON j) js # ys\<rparr>)"
| resend_stop: "threads s = xs @ Resending js # ys \<Longrightarrow> js = [] \<or> client_Disconnected (cl s) \<Longrightarrow>
    client_step reg s (s\<lparr>threads := xs @ ys\<rparr>)"

definition client_init :: "client_run \<Rightarrow> bool" where
  "client_init s \<longleftrightarrow> threads s = [] \<and> taken s = [] \<and> dropped s = [] \<and>
     (\<exists>dar dcn params hs chain. New False dar dcn params hs None = Inr (cl s, chain))"

section \<open>The account of futures\<close>

text \<open>Where a future can be: asked for but not tracked, tracked, about to be answered.\<close>

fun thread_chans :: "thread \<Rightarrow> chan list" where
  "thread_chans (Requesting j) = [jr_responseChan j]"
| "thread_chans (Delivering ch r) = [ch]"
| "thread_chans _ = []"

definition pending_chans :: "Client \<Rightarrow> chan list" where
  "pending_chans c = map (jr_responseChan \<circ> snd) (requestList c)"

definition client_chans :: "Client \<Rightarrow> chan multiset" where
  "client_chans c = mset (pending_chans c) + mset (map fst (responses c))"

text \<open>Those outside of the client: with the threads, received, or dropped.\<close>

definition held_chans :: "client_run \<Rightarrow> chan multiset" where
  "held_chans s = mset (concat (map thread_chans (threads s))) + mset (taken s) + mset (dropped s)"

text \<open>The state of the tracker: every element of the map is in the list, under its id, elements are distinct.\<close>

definition map_ok :: "(uint64 \<rightharpoonup> list_element) \<Rightarrow> list_element list \<Rightarrow> bool" where
  "map_ok m es \<longleftrightarrow> (\<forall>i e. m i = Some e \<longrightarrow> e \<in> set es \<and> i = jr_id (snd e))"

definition tracker_inv :: "Client \<Rightarrow> bool" where
  "tracker_inv c \<longleftrightarrow> \<not> HTTPPostMode c \<and> \<not> batch c \<and> batchList c = [] \<and>
     distinct (map fst (requestList c)) \<and> list_all (\<lambda>i. i < next_elem c) (map fst (requestList c)) \<and>
     map_ok (requestMap c) (requestList c) \<and>
     (shutdown_closed c \<longrightarrow> requestList c = [])"

definition run_inv :: "client_run \<Rightarrow> bool" where
  "run_inv s \<longleftrightarrow> tracker_inv (cl s) \<and> client_chans (cl s) + held_chans s = mset [0..<next_chan (cl s)]"

text \<open>
  \<open>moved c A c' B\<close>: the operation that takes \<open>c\<close> to \<open>c'\<close> keeps the tracker well formed, is given the
  futures \<open>A\<close> and gives back \<open>B\<close>; new ones it issued are in the client or in \<open>B\<close>.
\<close>

definition moved :: "Client \<Rightarrow> chan multiset \<Rightarrow> Client \<Rightarrow> chan multiset \<Rightarrow> bool" where
  "moved c A c' B \<longleftrightarrow> (tracker_inv c \<longrightarrow> tracker_inv c' \<and> next_chan c \<le> next_chan c' \<and>
     client_chans c + A + mset [next_chan c..<next_chan c'] = client_chans c' + B)"

lemma tracker_inv_frame [simp]:
  "tracker_inv (c\<lparr>cl_id := i\<rparr>) = tracker_inv c" "tracker_inv (c\<lparr>cl_disconnected := b\<rparr>) = tracker_inv c"
  "tracker_inv (c\<lparr>retryCount := n\<rparr>) = tracker_inv c" "tracker_inv (c\<lparr>ntfnState := st\<rparr>) = tracker_inv c"
  "tracker_inv (c\<lparr>cl_sendChan := ms\<rparr>) = tracker_inv c" "tracker_inv (c\<lparr>disconnect_gen := g\<rparr>) = tracker_inv c"
  "tracker_inv (c\<lparr>disconnect_closed := b\<rparr>) = tracker_inv c" "tracker_inv (c\<lparr>next_chan := ch\<rparr>) = tracker_inv c"
  "tracker_inv (c\<lparr>responses := rs\<rparr>) = tracker_inv c"
  by (simp_all add: tracker_inv_def)

lemma client_chans_frame [simp]:
  "client_chans (c\<lparr>cl_id := i\<rparr>) = client_chans c" "client_chans (c\<lparr>cl_disconnected := b\<rparr>) = client_chans c"
  "client_chans (c\<lparr>retryCount := n\<rparr>) = client_chans c" "client_chans (c\<lparr>ntfnState := st\<rparr>) = client_chans c"
  "client_chans (c\<lparr>cl_sendChan := ms\<rparr>) = client_chans c" "client_chans (c\<lparr>disconnect_gen := g\<rparr>) = client_chans c"
  "client_chans (c\<lparr>disconnect_closed := b\<rparr>) = client_chans c" "client_chans (c\<lparr>next_chan := ch\<rparr>) = client_chans c"
  "client_chans (c\<lparr>requestMap := m\<rparr>) = client_chans c" "client_chans (c\<lparr>shutdown_closed := b\<rparr>) = client_chans c"
  by (simp_all add: client_chans_def pending_chans_def)

lemma upt_split: "i \<le> j \<Longrightarrow> j \<le> k \<Longrightarrow> [i..<k] = [i..<j] @ [j..<k]"
  by (metis le_add_diff_inverse upt_add_eq_append)

lemma run_inv_moved:
  assumes "run_inv s" and "moved (cl s) A (cl s') B" and "held_chans s' + A = held_chans s + B"
  shows "run_inv s'"
proof -
  let ?n = "next_chan (cl s)" and ?m = "next_chan (cl s')"
  have m: "tracker_inv (cl s')" "?n \<le> ?m"
    "client_chans (cl s) + A + mset [?n..<?m] = client_chans (cl s') + B"
    using assms(1,2) by (auto simp: moved_def run_inv_def)
  have "client_chans (cl s') + held_chans s' + A + B = client_chans (cl s) + held_chans s + mset [?n..<?m] + A + B"
    using m(3) assms(3) by (metis (no_types, lifting) add.assoc add.commute)
  then have "client_chans (cl s') + held_chans s' = mset [0..<?n] + mset [?n..<?m]"
    using assms(1) by (simp add: run_inv_def)
  also have "\<dots> = mset [0..<?m]" using upt_split [OF le0 m(2)] by simp
  finally show ?thesis using m(1) by (simp add: run_inv_def)
qed

named_theorems moved_rules

lemma moved_refl [moved_rules]: "moved c {#} c {#}"
  by (simp add: moved_def)

lemma moved_trans: "moved c A d B \<Longrightarrow> moved d B e D \<Longrightarrow> moved c A e D"
proof -
  assume a: "moved c A d B" "moved d B e D"
  show "moved c A e D"
  proof (unfold moved_def, intro impI)
    assume "tracker_inv c"
    with a have 1: "tracker_inv d" "next_chan c \<le> next_chan d" "tracker_inv e" "next_chan d \<le> next_chan e"
      "client_chans c + A + mset [next_chan c..<next_chan d] = client_chans d + B"
      "client_chans d + B + mset [next_chan d..<next_chan e] = client_chans e + D" by (auto simp: moved_def)
    then have "mset [next_chan c..<next_chan e] = mset [next_chan c..<next_chan d] + mset [next_chan d..<next_chan e]"
      by (simp add: upt_split [of "next_chan c" "next_chan d" "next_chan e"])
    then have "client_chans c + A + mset [next_chan c..<next_chan e] = client_chans e + D"
      using 1(5,6) by (metis add.assoc)
    with 1 show "tracker_inv e \<and> next_chan c \<le> next_chan e \<and> client_chans c + A + mset [next_chan c..<next_chan e] = client_chans e + D"
      by simp
  qed
qed

lemma newFuture_moved: "newFuture r c = (ch, c') \<Longrightarrow> moved c {#} c' {#}"
  by (auto simp: newFuture_def make_chan_def moved_def client_chans_def pending_chans_def Let_def)

lemma SendCmd_request_moved:
  "SendCmd_request reg cmd1 c = (ch, jReq, c') \<Longrightarrow> moved c {#} c' (mset (concat (map thread_chans (thread_of_request jReq))))"
  by (auto simp: SendCmd_request_def newFutureError_def NextID_def newFuture_def make_chan_def moved_def
      client_chans_def pending_chans_def thread_of_request_def Let_def split: sum.splits)

lemma respond_moved: "respond ch r c = Some c' \<Longrightarrow> moved c {#ch#} c' {#}"
  by (auto simp: respond_def moved_def client_chans_def pending_chans_def split: if_splits)

lemma addRequest_Some: "addRequest jReq c = (Some e, c') \<Longrightarrow> c' = c \<and> e = ErrClientShutdown"
  by (auto simp: addRequest_def Let_def split: if_splits)

lemma map_ok_add: "map_ok m es \<Longrightarrow> map_ok (m(jr_id j \<mapsto> (n, j))) (es @ [(n, j)])"
  by (auto simp: map_ok_def split: if_splits)

lemma list_Remove_distinct: "distinct (map fst es) \<Longrightarrow> distinct (map fst (list_Remove e es))"
  by (simp add: list_Remove_def distinct_map_filter)

lemma map_ok_remove:
  assumes "map_ok m es" and "distinct (map fst es)" and "e \<in> set es" and "i = jr_id (snd e)"
  shows "map_ok (m(i := None)) (list_Remove e es)"
proof -
  have "x = e" if "x \<in> set es" "fst x = fst e" for x
    using assms(2,3) that by (metis distinct_map inj_onD)
  then show ?thesis using assms by (fastforce simp: map_ok_def list_Remove_def)
qed

lemma addRequest_moved:
  assumes "addRequest jReq c = (None, c')"
  shows "moved c {#jr_responseChan jReq#} c' {#}"
proof -
  have n: "list_all (\<lambda>i. i < next_elem c) is \<Longrightarrow> list_all (\<lambda>i. i < Suc (next_elem c)) is \<and> next_elem c \<notin> set is" for "is"
    by (auto simp: list_all_iff)
  have "tracker_inv c \<Longrightarrow> tracker_inv c'"
    using assms n [of "map fst (requestList c)"]
    by (auto simp: addRequest_def tracker_inv_def Let_def map_ok_add split: if_splits)
  moreover have "tracker_inv c \<Longrightarrow> next_chan c = next_chan c' \<and> client_chans c + {#jr_responseChan jReq#} = client_chans c'"
    using assms by (auto simp: addRequest_def tracker_inv_def client_chans_def pending_chans_def Let_def split: if_splits)
  ultimately show ?thesis by (simp add: moved_def)
qed

lemma sendRequest_moved:
  assumes "sendRequest jReq c = Some (c', m)"
  shows "moved c {#jr_responseChan jReq#} c' {#}"
proof -
  consider "HTTPPostMode c" | "\<not> HTTPPostMode c" "\<not> connEstablished_closed c" | "\<not> HTTPPostMode c" "connEstablished_closed c" by blast
  then show ?thesis
  proof cases
    case 1
    then show ?thesis by (simp add: moved_def tracker_inv_def)
  next
    case 2
    then show ?thesis using assms by (auto simp: sendRequest_def intro: respond_moved)
  next
    case 3
    note False = this
  obtain e d where a: "addRequest jReq c = (e, d)" by (cases "addRequest jReq c")
  show ?thesis
  proof (cases e)
    case None
    then show ?thesis using assms False a addRequest_moved by (auto simp: sendRequest_def)
  next
    case (Some x)
    with a addRequest_Some have "d = c" by blast
    then have "respond (jr_responseChan jReq) (error_response x) c = Some c'" using assms False a Some by (auto simp: sendRequest_def)
    then show ?thesis by (rule respond_moved)
  qed
  qed
qed

lemma list_Remove_pending:
  assumes "distinct (map fst es)" and "e \<in> set es"
  shows "mset (map (jr_responseChan \<circ> snd) es) = {#jr_responseChan (snd e)#} + mset (map (jr_responseChan \<circ> snd) (list_Remove e es))"
  using assms
proof (induction es)
  case (Cons x es)
  show ?case
  proof (cases "x = e")
    case True
    then have "list_Remove e es = es" using Cons.prems(1) by (auto simp: list_Remove_def filter_id_conv) (metis fst_conv image_eqI)
    with True show ?thesis by (simp add: list_Remove_def)
  next
    case False
    then have "e \<in> set es" "fst x \<noteq> fst e" using Cons.prems by auto
    with Cons show ?thesis by (simp add: list_Remove_def)
  qed
qed simp

lemma drop_element:
  assumes "tracker_inv c" and "e \<in> set (requestList c)" and "i = jr_id (snd e)"
  defines "c' \<equiv> c\<lparr>requestMap := (requestMap c)(i := None), requestList := list_Remove e (requestList c)\<rparr>"
  shows "tracker_inv c'" and "client_chans c = {#jr_responseChan (snd e)#} + client_chans c'" and "next_chan c' = next_chan c"
    and "requestList c' = list_Remove e (requestList c)"
proof -
  have d: "distinct (map fst (requestList c))" and m: "map_ok (requestMap c) (requestList c)"
    using assms(1) by (auto simp: tracker_inv_def)
  have "list_all (\<lambda>i. i < next_elem c) (map fst (list_Remove e (requestList c)))"
    using assms(1) by (auto simp: tracker_inv_def list_all_iff list_Remove_def)
  moreover have "requestList c = [] \<Longrightarrow> list_Remove e (requestList c) = []" by (simp add: list_Remove_def)
  ultimately show "tracker_inv c'"
    using assms(1) map_ok_remove [OF m d assms(2,3)] list_Remove_distinct [OF d, of e] by (simp add: tracker_inv_def c'_def)
  show "client_chans c = {#jr_responseChan (snd e)#} + client_chans c'"
    using list_Remove_pending [OF d assms(2)] by (simp add: client_chans_def pending_chans_def c'_def)
qed (simp_all add: c'_def)

lemma removeRequest_moved:
  assumes "removeRequest i c = (r, c')"
  shows "moved c {#} c' (case r of None \<Rightarrow> {#} | Some j \<Rightarrow> {#jr_responseChan j#})"
proof (cases "requestMap c i")
  case None
  then show ?thesis using assms by (auto simp: removeRequest_def moved_refl)
next
  case (Some e)
  have "tracker_inv c \<Longrightarrow> e \<in> set (requestList c) \<and> i = jr_id (snd e)"
    using Some unfolding tracker_inv_def map_ok_def by blast
  with drop_element [of c e i] show ?thesis
    using assms Some by (auto simp: removeRequest_def moved_def)
qed

lemma track_same:
  "tracker_inv (trackRegisteredNtfns cmd1 c) = tracker_inv c" "client_chans (trackRegisteredNtfns cmd1 c) = client_chans c"
  "next_chan (trackRegisteredNtfns cmd1 c) = next_chan c" "requestList (trackRegisteredNtfns cmd1 c) = requestList c"
  by (auto simp: trackRegisteredNtfns_def Let_def split: prod.splits list.splits goval.splits option.splits bool.splits)

lemma handleMessage_moved:
  assumes "handleMessage doc c = (d, cb, c')"
  shows "moved c {#} c' (mset (concat (map thread_chans (thread_of_delivery d))))"
proof (cases "message_action doc")
  case (Reply i r)
  obtain q c1 where q: "removeRequest i c = (q, c1)" by (cases "removeRequest i c")
  from removeRequest_moved [OF q] show ?thesis
    using assms Reply q by (cases q) (auto simp: handleMessage_def thread_of_delivery_def moved_def track_same)
qed (use assms in \<open>auto simp: handleMessage_def thread_of_delivery_def moved_refl\<close>)

lemma ReceiveFuture_moved:
  assumes "ReceiveFuture ch c = Some (r, c')"
  shows "moved c {#} c' {#ch#}"
proof -
  have m: "map_of (responses c) ch = Some r" "c' = c\<lparr>responses := remove1 (ch, r) (responses c)\<rparr>"
    using assms by (auto simp: ReceiveFuture_def split: option.splits)
  then have "(ch, r) \<in> set (responses c)" by (simp add: map_of_SomeD)
  then have "mset (responses c) = {#(ch, r)#} + mset (remove1 (ch, r) (responses c))" by simp
  then have "mset (map fst (responses c)) = {#ch#} + mset (map fst (remove1 (ch, r) (responses c)))"
    by (metis add_mset_add_single fst_conv image_mset_add_mset mset_map union_commute)
  with m(2) show ?thesis by (simp add: moved_def client_chans_def pending_chans_def)
qed

lemma doDisconnect_moved: "doDisconnect c = (b, c') \<Longrightarrow> moved c {#} c' {#}"
  by (auto simp: doDisconnect_def moved_def split: if_splits)

lemma respond_all_Some:
  "respond_all e els c = Some c' \<Longrightarrow>
     c' = c\<lparr>responses := responses c @ map (\<lambda>el. (jr_responseChan (snd el), error_response e)) els\<rparr>"
proof (induction els arbitrary: c)
  case (Cons el els)
  let ?d = "c\<lparr>responses := responses c @ [(jr_responseChan (snd el), error_response e)]\<rparr>"
  have "respond_all e els ?d = Some c'" using Cons.prems by (auto simp: respond_def split: if_splits)
  from Cons.IH [OF this] show ?case by simp
qed simp

lemma respond_all_clear_moved:
  assumes "respond_all e (requestList c) c = Some c'"
  shows "moved c {#} (removeAllRequests c'\<lparr>shutdown_closed := b\<rparr>) {#}"
    "moved c {#} (removeAllRequests (c'\<lparr>shutdown_closed := b\<rparr>)) {#}"
  using respond_all_Some [OF assms]
  by (auto simp: moved_def removeAllRequests_def tracker_inv_def client_chans_def pending_chans_def o_def map_ok_def)

lemma Disconnect_pending_moved: "Disconnect_pending c = Some c' \<Longrightarrow> moved c {#} c' {#}"
proof -
  assume a: "Disconnect_pending c = Some c'"
  show ?thesis
  proof (cases "DisableAutoReconnect c")
    case True
    with a obtain d where d: "respond_all ErrClientDisconnect (requestList c) c = Some d"
      and c': "c' = snd (doShutdown (removeAllRequests d))" by (auto simp: Disconnect_pending_def)
    have "c' = removeAllRequests d\<lparr>shutdown_closed := True\<rparr>"
      by (simp add: c' doShutdown_def removeAllRequests_def)
    then show ?thesis using respond_all_clear_moved(1) [OF d] by simp
  qed (use a in \<open>simp add: Disconnect_pending_def moved_refl\<close>)
qed

lemma Shutdown_pending_moved: "\<not> shutdown_closed c \<Longrightarrow> Shutdown_pending c = Some c' \<Longrightarrow> moved c {#} c' {#}"
proof -
  assume a: "\<not> shutdown_closed c" "Shutdown_pending c = Some c'"
  let ?c = "c\<lparr>shutdown_closed := True\<rparr>"
  obtain d where d: "respond_all ErrClientShutdown (requestList ?c) ?c = Some d" "c' = removeAllRequests d"
    using a by (auto simp: Shutdown_pending_def doShutdown_def)
  from respond_all_Some [OF d(1)] d(2) show ?thesis
    by (auto simp: moved_def removeAllRequests_def tracker_inv_def client_chans_def pending_chans_def o_def map_ok_def)
qed

lemma resend_loop_moved:
  "resend_loop es c = (js, c') \<Longrightarrow> set es \<subseteq> set (requestList c) \<Longrightarrow> distinct (map fst es) \<Longrightarrow>
   moved c {#} c' (mset (map jr_responseChan (filter (\<lambda>j. jr_method j \<in> ignoreResends) (map snd es))))"
proof (induction es arbitrary: c js)
  case Nil
  then show ?case by (simp add: moved_refl)
next
  case (Cons e es)
  show ?case
  proof (cases "jr_method (snd e) \<in> ignoreResends")
    case True
    let ?d = "c\<lparr>requestMap := (requestMap c)(jr_id (snd e) := None), requestList := list_Remove e (requestList c)\<rparr>"
    have e: "e \<in> set (requestList c)" using Cons.prems(2) by simp
    have "fst x \<noteq> fst e" if "x \<in> set es" for x using Cons.prems(3) that by (metis distinct.simps(2) image_eqI list.map(2) list.set_map)
    then have s: "set es \<subseteq> set (requestList ?d)" using Cons.prems(2) by (auto simp: list_Remove_def)
    have m: "moved ?d {#} c' (mset (map jr_responseChan (filter (\<lambda>j. jr_method j \<in> ignoreResends) (map snd es))))"
      using Cons.prems True by (intro Cons.IH [OF _ s]) (auto simp: Let_def)
    have "tracker_inv c \<Longrightarrow> tracker_inv ?d \<and> next_chan ?d = next_chan c \<and> client_chans c = {#jr_responseChan (snd e)#} + client_chans ?d"
      using drop_element [OF _ e refl] by blast
    then show ?thesis using m True by (auto simp: moved_def)
  next
    case False
    then obtain js' where "resend_loop es c = (js', c')" using Cons.prems by (auto simp: Let_def split: prod.splits)
    with Cons.IH [OF this] Cons.prems False show ?thesis by simp
  qed
qed

section \<open>The invariant\<close>

lemma held_simps [simp]:
  "held_chans (s\<lparr>cl := c\<rparr>) = held_chans s"
  "held_chans (s\<lparr>threads := ts\<rparr>) = mset (concat (map thread_chans ts)) + mset (taken s) + mset (dropped s)"
  by (simp_all add: held_chans_def)

abbreviation req_chans :: "jsonRequest option \<Rightarrow> chan multiset" where
  "req_chans j \<equiv> mset (concat (map thread_chans (thread_of_request j)))"

abbreviation deliv_chans :: "(chan \<times> client_response) option \<Rightarrow> chan multiset" where
  "deliv_chans d \<equiv> mset (concat (map thread_chans (thread_of_delivery d)))"

lemma no_chans [simp]: "concat (map thread_chans (thread_of_message m)) = []"
  by (cases m) (simp_all add: thread_of_message_def)

text \<open>The account when the operation gives and takes nothing.\<close>

lemma run_inv_same: "run_inv s \<Longrightarrow> moved (cl s) {#} (cl t) {#} \<Longrightarrow> held_chans t = held_chans s \<Longrightarrow> run_inv t"
  by (rule run_inv_moved) auto

lemma client_step_inv:
  assumes "run_inv s" and "client_step reg s t"
  shows "run_inv t"
  using assms(2)
proof cases
  case (issue cmd1 ch jReq c)
  then show ?thesis
    by (intro run_inv_moved [OF assms(1), of "{#}" _ "req_chans jReq"]) (auto intro: SendCmd_request_moved simp: held_chans_def)
next
  case (immediate r ch c)
  then show ?thesis by (intro run_inv_same [OF assms(1)]) (auto intro: newFuture_moved)
next
  case (request xs jReq ys c m)
  then show ?thesis
    by (intro run_inv_moved [OF assms(1), of "{#jr_responseChan jReq#}" _ "{#}"])
      (auto intro: sendRequest_moved simp: held_chans_def)
next
  case (send xs m g js ys c)
  then show ?thesis
    by (intro run_inv_same [OF assms(1)]) (auto simp: sendMessage_def moved_def held_chans_def split: if_splits)
next
  case (out m ms)
  then show ?thesis by (intro run_inv_same [OF assms(1)]) (auto simp: moved_def)
next
  case (message doc d cb c)
  then show ?thesis
    by (intro run_inv_moved [OF assms(1), of "{#}" _ "deliv_chans d"]) (auto intro: handleMessage_moved simp: held_chans_def)
next
  case (deliver xs ch r ys c)
  then show ?thesis
    by (intro run_inv_moved [OF assms(1), of "{#ch#}" _ "{#}"]) (auto intro: respond_moved simp: held_chans_def)
next
  case (receive ch r c)
  then show ?thesis
    by (intro run_inv_moved [OF assms(1), of "{#}" _ "{#ch#}"]) (auto intro: ReceiveFuture_moved simp: held_chans_def)
next
  case (disconnect b c)
  then show ?thesis by (intro run_inv_same [OF assms(1)]) (auto intro: doDisconnect_moved simp: held_chans_def)
next
  case (disconnect_rest xs ys c)
  then show ?thesis by (intro run_inv_same [OF assms(1)]) (auto intro: Disconnect_pending_moved simp: held_chans_def)
next
  case (shutdown c)
  then show ?thesis by (intro run_inv_same [OF assms(1)]) (auto intro: Shutdown_pending_moved simp: held_chans_def)
next
  case (closing xs ys)
  then show ?thesis
    by (intro run_inv_same [OF assms(1)]) (auto intro: doDisconnect_moved [OF surjective_pairing] simp: held_chans_def)
next
  case dial_failed
  then show ?thesis by (intro run_inv_same [OF assms(1)]) (auto simp: moved_def reconnect_failed_def)
next
  case reconnect
  then show ?thesis by (intro run_inv_same [OF assms(1)]) (auto simp: moved_def reconnected_def held_chans_def)
next
  case (reregister xs cmd1 cs ys ch jReq c)
  then show ?thesis
    by (intro run_inv_moved [OF assms(1), of "{#}" _ "req_chans jReq"]) (auto intro: SendCmd_request_moved simp: held_chans_def)
next
  case (reregister_ok xs ch cs ys r c)
  then show ?thesis
    by (intro run_inv_moved [OF assms(1), of "{#}" _ "{#ch#}"]) (auto intro: ReceiveFuture_moved simp: held_chans_def)
next
  case (reregister_failed xs ch cs ys r c b c')
  then have "moved (cl s) {#} c' {#ch#}"
  proof -
    have "moved c {#ch#} c' {#ch#}" using doDisconnect_moved [OF reregister_failed(5)] by (auto simp: moved_def)
    then show ?thesis using moved_trans ReceiveFuture_moved [OF reregister_failed(3)] by blast
  qed
  with reregister_failed show ?thesis
    by (intro run_inv_moved [OF assms(1), of "{#}" _ "{#ch#}"]) (auto simp: held_chans_def)
next
  case (collect xs ys js c)
  let ?d = "map jr_responseChan (filter (\<lambda>j. jr_method j \<in> ignoreResends) (map snd (requestList (cl s))))"
  have "distinct (map fst (requestList (cl s)))" using assms(1) by (simp add: run_inv_def tracker_inv_def)
  then have "moved (cl s) {#} c (mset ?d)"
    using collect resend_loop_moved [of "requestList (cl s)" "cl s" js c] by (simp add: resendRequests_collect_def)
  with collect show ?thesis
    by (intro run_inv_moved [OF assms(1), of "{#}" _ "mset ?d"]) (auto simp: held_chans_def)
qed (use assms(1) in \<open>auto simp: run_inv_def held_chans_def\<close>)

lemma New_client:
  assumes "New http dar dcn params hs conn = Inr (c, chain)"
  shows "HTTPPostMode c = http" "\<not> batch c" "batchList c = []" "requestList c = []" "requestMap c = Map.empty"
    "responses c = []" "next_chan c = 0" "\<not> shutdown_closed c" "cl_sendChan c = []"
  using assms by (auto simp: New_def Let_def split: option.splits)

lemma client_init_inv: "client_init s \<Longrightarrow> run_inv s"
  using New_client by (auto simp: client_init_def run_inv_def held_chans_def client_chans_def pending_chans_def
      tracker_inv_def map_ok_def)

interpretation client_runs: invariant_system client_init "client_step reg" run_inv
  by unfold_locales (fact client_init_inv, fact client_step_inv)

section \<open>Consequences\<close>

text \<open>With each future in one place, a send on a response channel finds room in its buffer.\<close>

lemma respond_possible:
  assumes "count (client_chans c + H) ch = 1" and "ch \<in># mset (pending_chans c) + H"
  shows "ch \<notin> set (map fst (responses c))"
proof
  assume "ch \<in> set (map fst (responses c))"
  then have "0 < count (mset (map fst (responses c))) ch" by (simp only: count_mset_0_iff zero_less_iff_neq_zero not_not)
  moreover have "0 < count (mset (pending_chans c) + H) ch" using assms(2) by (simp only: count_greater_zero_iff)
  ultimately show False using assms(1) by (simp add: client_chans_def del: mset_map count_greater_zero_iff)
qed

lemma run_inv_count:
  assumes "run_inv s" and "ch \<in># client_chans (cl s) + held_chans s"
  shows "count (client_chans (cl s) + held_chans s) ch = 1"
proof -
  have f: "client_chans (cl s) + held_chans s = mset [0..<next_chan (cl s)]" using assms(1) by (simp add: run_inv_def)
  then have "ch \<in> set [0..<next_chan (cl s)]" using assms(2) by (metis set_mset_mset)
  then show ?thesis unfolding f by (simp add: distinct_count_atmost_1 [THEN iffD1, OF distinct_upt, rule_format])
qed

lemma respond_all_possible:
  "distinct (map (jr_responseChan \<circ> snd) els @ map fst (responses c)) \<Longrightarrow> respond_all e els c \<noteq> None"
proof (induction els arbitrary: c)
  case (Cons el els)
  let ?d = "c\<lparr>responses := responses c @ [(jr_responseChan (snd el), error_response e)]\<rparr>"
  have "distinct (map (jr_responseChan \<circ> snd) els @ map fst (responses ?d))" using Cons.prems by (auto simp: o_def)
  from Cons.IH [OF this] Cons.prems show ?case by (simp add: respond_def)
qed simp

lemma held_thread: "th \<in> set (threads s) \<Longrightarrow> ch \<in> set (thread_chans th) \<Longrightarrow> ch \<in># held_chans s"
  by (auto simp: held_chans_def)

lemma client_distinct: "run_inv s \<Longrightarrow> distinct (pending_chans (cl s) @ map fst (responses (cl s)))"
proof -
  assume i: "run_inv s"
  let ?l = "pending_chans (cl s) @ map fst (responses (cl s))"
  have "mset ?l + held_chans s = mset [0..<next_chan (cl s)]" using i by (simp add: run_inv_def client_chans_def)
  then have "count (mset ?l) ch \<le> count (mset [0..<next_chan (cl s)]) ch" for ch by (metis count_union le_add1)
  moreover have "count (mset [0..<n]) ch \<le> 1" for n ch :: nat
    using distinct_count_atmost_1 [of "[0..<n]"] by (cases "ch < n") auto
  ultimately have "count (mset ?l) ch \<le> 1" for ch by (meson order_trans)
  then show ?thesis by (auto simp: distinct_count_atmost_1 set_mset_mset [symmetric] simp del: set_mset_mset mset_append
      intro: antisym simp: Suc_le_eq)
qed

lemma run_inv_enabled:
  assumes "run_inv s"
  shows "Delivering ch r \<in> set (threads s) \<Longrightarrow> respond ch r (cl s) \<noteq> None"
    and "Requesting j \<in> set (threads s) \<Longrightarrow> sendRequest j (cl s) \<noteq> None"
    and "respond_all e (requestList (cl s)) (cl s) \<noteq> None"
    and "Disconnect_pending (cl s) \<noteq> None" and "Shutdown_pending (cl s) \<noteq> None"
proof -
  have free: "ch \<notin> set (map fst (responses (cl s)))" if "th \<in> set (threads s)" "ch \<in> set (thread_chans th)" for th ch
  proof -
    have h: "ch \<in># held_chans s" using held_thread [OF that] .
    then have "ch \<in># client_chans (cl s) + held_chans s" by simp
    from respond_possible [OF run_inv_count [OF assms this]] h show ?thesis by simp
  qed
  have http: "\<not> HTTPPostMode (cl s)" using assms by (simp add: run_inv_def tracker_inv_def)
  show "Delivering ch r \<in> set (threads s) \<Longrightarrow> respond ch r (cl s) \<noteq> None" using free by (fastforce simp: respond_def)
  show "Requesting j \<in> set (threads s) \<Longrightarrow> sendRequest j (cl s) \<noteq> None"
    using free [of "Requesting j" "jr_responseChan j"] http
    by (auto simp: sendRequest_def respond_def addRequest_def Let_def split: if_splits)
  have a: "respond_all e (requestList (cl s)) (cl s) \<noteq> None" for e
    using client_distinct [OF assms] by (intro respond_all_possible) (simp add: pending_chans_def)
  then show "respond_all e (requestList (cl s)) (cl s) \<noteq> None" .
  show "Disconnect_pending (cl s) \<noteq> None" using a by (simp add: Disconnect_pending_def)
  have "respond_all e (requestList (cl s)) (cl s\<lparr>shutdown_closed := True\<rparr>) \<noteq> None" for e
    using client_distinct [OF assms] by (intro respond_all_possible) (simp add: pending_chans_def)
  then show "Shutdown_pending (cl s) \<noteq> None" by (simp add: Shutdown_pending_def doShutdown_def)
qed


section \<open>Shutting down releases everybody\<close>

definition busy :: "client_run \<Rightarrow> nat" where
  "busy s = length (filter (\<lambda>t. thread_chans t \<noteq> []) (threads s))"

lemma busy_thread:
  assumes "run_inv s" and "shutdown_closed (cl s)" and "busy s \<noteq> 0"
  shows "\<exists>t. client_step reg s t \<and> shutdown_closed (cl t) \<and> busy t < busy s"
proof -
  from assms(3) obtain th where th: "th \<in> set (threads s)" "thread_chans th \<noteq> []"
    by (auto simp: busy_def filter_empty_conv)
  then obtain xs ys where xy: "threads s = xs @ th # ys" by (metis split_list)
  have http: "\<not> HTTPPostMode (cl s)" using assms(1) by (simp add: run_inv_def tracker_inv_def)
  from th(2) consider j where "th = Requesting j" | ch r where "th = Delivering ch r" by (cases th) auto
  then show ?thesis
  proof cases
    case (1 j)
    with run_inv_enabled(2) [OF assms(1)] th(1) obtain c m where sr: "sendRequest j (cl s) = Some (c, m)" by force
    then have "m = None" "shutdown_closed c"
      using http assms(2) by (auto simp: sendRequest_def addRequest_def respond_def split: if_splits)
    with client_step.request [OF xy [unfolded 1] sr, of reg] show ?thesis
      using xy 1 by (intro exI conjI) (auto simp: busy_def thread_of_message_def)
  next
    case (2 ch r)
    with run_inv_enabled(1) [OF assms(1)] th(1) obtain c where d: "respond ch r (cl s) = Some c" by fastforce
    then have "shutdown_closed c" using assms(2) by (auto simp: respond_def split: if_splits)
    with client_step.deliver [OF xy [unfolded 2] d, of reg] show ?thesis
      using xy 2 by (intro exI conjI) (auto simp: busy_def)
  qed
qed

lemma busy_ends:
  "run_inv s \<Longrightarrow> shutdown_closed (cl s) \<Longrightarrow> \<exists>t. (client_step reg)\<^sup>*\<^sup>* s t \<and> run_inv t \<and> shutdown_closed (cl t) \<and> busy t = 0"
proof (induction "busy s" arbitrary: s rule: less_induct)
  case less
  show ?case
  proof (cases "busy s = 0")
    case False
    from busy_thread [OF less.prems False, of reg] obtain t where
      t: "client_step reg s t" "shutdown_closed (cl t)" "busy t < busy s" by blast
    from less.hyps [OF t(3) client_step_inv [OF less.prems(1) t(1)] t(2)] t(1) show ?thesis
      by (meson converse_rtranclp_into_rtranclp)
  qed (use less.prems in blast)
qed

lemma all_answered:
  assumes "run_inv t" and "shutdown_closed (cl t)" and "busy t = 0" and "ch < next_chan (cl t)"
  shows "ch \<in> set (map fst (responses (cl t))) \<union> set (taken t) \<union> set (dropped t)"
proof -
  have "requestList (cl t) = []" using assms(1,2) by (simp add: run_inv_def tracker_inv_def)
  moreover have "concat (map thread_chans (threads t)) = []" using assms(3) by (auto simp: busy_def filter_empty_conv)
  moreover have "set_mset (client_chans (cl t) + held_chans t) = {0..<next_chan (cl t)}"
    using assms(1) by (simp only: run_inv_def set_mset_mset set_upt)
  ultimately show ?thesis using assms(4) by (auto simp: client_chans_def held_chans_def pending_chans_def)
qed

section \<open>Nothing registered is dropped\<close>

text \<open>The requests there are: tracked, or still to be tracked.\<close>

definition requests :: "client_run \<Rightarrow> jsonRequest set" where
  "requests s = snd ` set (requestList (cl s)) \<union> {j. Requesting j \<in> set (threads s)}"

definition methods_inv :: "registry \<Rightarrow> client_run \<Rightarrow> bool" where
  "methods_inv reg s \<longleftrightarrow> dropped s = [] \<and> jr_method ` requests s \<subseteq> ran (concreteTypeToMethod reg)"

lemma SendCmd_request_method:
  "SendCmd_request reg cmd1 c = (ch, jReq, c') \<Longrightarrow> requestList c' = requestList c \<and>
     (\<forall>j. jReq = Some j \<longrightarrow> jr_method j \<in> ran (concreteTypeToMethod reg))"
  by (auto simp: SendCmd_request_def newFutureError_def NextID_def newFuture_def make_chan_def CmdMethod_def ran_def
      Let_def split: sum.splits option.splits)

lemma respond_list: "respond ch r c = Some c' \<Longrightarrow> requestList c' = requestList c"
  by (auto simp: respond_def split: if_splits)

lemma sendRequest_list:
  assumes "sendRequest j c = Some (c', m)" and "\<not> HTTPPostMode c"
  shows "snd ` set (requestList c') \<subseteq> insert j (snd ` set (requestList c))"
  using assms
  by (auto simp: sendRequest_def addRequest_def Let_def dest!: respond_list split: if_splits)

lemma list_Remove_subset: "set (list_Remove e es) \<subseteq> set es"
  by (auto simp: list_Remove_def)

lemma handleMessage_list: "handleMessage doc c = (d, cb, c') \<Longrightarrow> set (requestList c') \<subseteq> set (requestList c)"
  using list_Remove_subset
  by (fastforce simp: handleMessage_def removeRequest_def track_same split: in_action.splits option.splits)

lemma resend_loop_list: "resend_loop es c = (js, c') \<Longrightarrow> set (requestList c') \<subseteq> set (requestList c)"
proof (induction es arbitrary: c js)
  case (Cons e es)
  show ?case
  proof (cases "jr_method (snd e) \<in> ignoreResends")
    case True
    with Cons.prems Cons.IH list_Remove_subset [of e "requestList c"] show ?thesis by (fastforce simp: Let_def)
  qed (use Cons in \<open>auto simp: Let_def split: prod.splits\<close>)
qed simp

lemma removeAll_list: "requestList (removeAllRequests c) = []" "requestList (snd (doShutdown c)) = requestList c"
  by (simp_all add: removeAllRequests_def doShutdown_def)

lemma clear_list:
  shows "Disconnect_pending c = Some c' \<Longrightarrow> set (requestList c') \<subseteq> set (requestList c)"
    and "Shutdown_pending c = Some c' \<Longrightarrow> set (requestList c') \<subseteq> set (requestList c)"
proof -
  show "Disconnect_pending c = Some c' \<Longrightarrow> set (requestList c') \<subseteq> set (requestList c)"
    unfolding Disconnect_pending_def by (cases "DisableAutoReconnect c") (auto simp: removeAll_list)
  show "Shutdown_pending c = Some c' \<Longrightarrow> set (requestList c') \<subseteq> set (requestList c)"
    unfolding Shutdown_pending_def doShutdown_def by (cases "shutdown_closed c") (auto simp: removeAll_list)
qed

lemma doDisconnect_list: "requestList (snd (doDisconnect c)) = requestList c"
  by (simp add: doDisconnect_def)

lemma methods_inv_keep:
  assumes "methods_inv reg s" and "dropped t = dropped s"
    and "\<And>j. j \<in> requests t \<Longrightarrow> j \<in> requests s \<or> jr_method j \<in> ran (concreteTypeToMethod reg)"
  shows "methods_inv reg t"
  using assms by (auto simp: methods_inv_def)

lemma not_in_thread_lists [simp]:
  "Requesting j \<in> set (thread_of_message m) \<longleftrightarrow> False" "Requesting j \<in> set (thread_of_delivery d) \<longleftrightarrow> False"
  "Requesting j \<in> set (thread_of_request r) \<longleftrightarrow> r = Some j"
  by (auto simp: thread_of_message_def thread_of_delivery_def thread_of_request_def split: option.splits)

lemma client_step_methods:
  assumes "methods_inv reg s" and "run_inv s" and "ran (concreteTypeToMethod reg) \<inter> ignoreResends = {}"
    and "client_step reg s t"
  shows "methods_inv reg t"
  using assms(4)
proof cases
  case (issue cmd1 ch jReq c)
  from SendCmd_request_method [OF this(2)] show ?thesis
    using issue by (intro methods_inv_keep [OF assms(1)]) (auto simp: requests_def)
next
  case (immediate r ch c)
  then show ?thesis by (intro methods_inv_keep [OF assms(1)]) (auto simp: requests_def newFuture_def make_chan_def)
next
  case (request xs jReq ys c m)
  have "\<not> HTTPPostMode (cl s)" using assms(2) by (simp add: run_inv_def tracker_inv_def)
  from sendRequest_list [OF request(3) this] request show ?thesis
    by (intro methods_inv_keep [OF assms(1)]) (auto simp: requests_def)
next
  case (send xs m g js ys c)
  then show ?thesis by (intro methods_inv_keep [OF assms(1)]) (auto simp: requests_def sendMessage_def split: if_splits)
next
  case (message doc d cb c)
  from handleMessage_list [OF this(2)] message show ?thesis
    by (intro methods_inv_keep [OF assms(1)]) (auto simp: requests_def)
next
  case (deliver xs ch r ys c)
  from respond_list [OF this(3)] deliver show ?thesis
    by (intro methods_inv_keep [OF assms(1)]) (auto simp: requests_def)
next
  case (receive ch r c)
  then show ?thesis
    by (intro methods_inv_keep [OF assms(1)]) (auto simp: requests_def ReceiveFuture_def split: option.splits)
next
  case (disconnect b c)
  then show ?thesis using doDisconnect_list [of "cl s"]
    by (intro methods_inv_keep [OF assms(1)]) (auto simp: requests_def)
next
  case (disconnect_rest xs ys c)
  from clear_list(1) [OF this(3)] disconnect_rest show ?thesis
    by (intro methods_inv_keep [OF assms(1)]) (auto simp: requests_def)
next
  case (shutdown c)
  from clear_list(2) [OF this(3)] shutdown show ?thesis
    by (intro methods_inv_keep [OF assms(1)]) (auto simp: requests_def)
next
  case (closing xs ys)
  then show ?thesis using doDisconnect_list [of "cl s"]
    by (intro methods_inv_keep [OF assms(1)]) (auto simp: requests_def)
next
  case (reregister xs cmd1 cs ys ch jReq c)
  from SendCmd_request_method [OF this(3)] show ?thesis
    using reregister by (intro methods_inv_keep [OF assms(1)]) (auto simp: requests_def)
next
  case (reregister_ok xs ch cs ys r c)
  then show ?thesis
    by (intro methods_inv_keep [OF assms(1)]) (auto simp: requests_def ReceiveFuture_def split: option.splits)
next
  case (reregister_failed xs ch cs ys r c b c')
  then show ?thesis using doDisconnect_list [of c]
    by (intro methods_inv_keep [OF assms(1)]) (auto simp: requests_def ReceiveFuture_def split: option.splits if_splits)
next
  case (collect xs ys js c)
  have "filter (\<lambda>j. jr_method j \<in> ignoreResends) (map snd (requestList (cl s))) = []"
    using assms(1,3) by (fastforce simp: methods_inv_def requests_def filter_empty_conv)
  with collect resend_loop_list [of "requestList (cl s)" "cl s" js c] show ?thesis
    by (intro methods_inv_keep [OF assms(1)]) (auto simp: requests_def resendRequests_collect_def)
qed (use assms(1) in \<open>auto simp: methods_inv_def requests_def reconnect_failed_def reconnected_def\<close>)

lemma registered_no_rescan: "registered = Some reg \<Longrightarrow> ran (concreteTypeToMethod reg) \<inter> ignoreResends = {}"
proof -
  assume r: "registered = Some reg"
  have "(case registered of
      Some reg \<Rightarrow> list_all (\<lambda>t. concreteTypeToMethod reg t \<noteq> Some ''rescan'') registered_types | None \<Rightarrow> True)"
    by code_simp
  then have "list_all (\<lambda>t. concreteTypeToMethod reg t \<noteq> Some ''rescan'') registered_types" unfolding r option.case .
  moreover have "concreteTypeToMethod reg t = Some ''rescan'' \<Longrightarrow> t \<in> set registered_types" for t
    using registered_dom(2) [OF r] by blast
  ultimately show ?thesis by (auto simp: ran_def ignoreResends_def list_all_iff)
qed

lemma reachable_methods:
  assumes "client_init s" and "(client_step reg)\<^sup>*\<^sup>* s t" and "registered = Some reg"
  shows "methods_inv reg t \<and> run_inv t"
  using assms(2)
proof (induction rule: rtranclp_induct)
  case base
  have "requests s = {}" "dropped s = []" using assms(1) New_client by (auto simp: client_init_def requests_def)
  then show ?case using client_init_inv [OF assms(1)] by (simp add: methods_inv_def)
next
  case (step t u)
  then show ?case using client_step_methods [OF _ _ registered_no_rescan [OF assms(3)]] client_step_inv by blast
qed


section \<open>A run\<close>

definition sample_client :: Client where
  "sample_client = (case New False False False ''simnet'' None None of Inr (c, _) \<Rightarrow> c)"

definition sample_run :: client_run where
  "sample_run = \<lparr>cl = sample_client, threads = [], taken = [], dropped = []\<rparr>"

lemma sample_run_init: "client_init sample_run"
  by (auto simp: client_init_def sample_run_def sample_client_def New_def chain_of_def Let_def)

text \<open>One request on its way.\<close>

definition sample_issued :: client_run where
  "sample_issued =
     (case SendCmd_request (the registered) (NewGetBlockHashCmd 5) sample_client of
        (ch, jReq, c) \<Rightarrow> sample_run\<lparr>cl := c, threads := thread_of_request jReq\<rparr>)"

lemma sample_issued_step: "client_step (the registered) sample_run sample_issued"
proof -
  obtain ch jReq c where s: "SendCmd_request (the registered) (NewGetBlockHashCmd 5) sample_client = (ch, jReq, c)"
    by (cases "SendCmd_request (the registered) (NewGetBlockHashCmd 5) sample_client")
  then show ?thesis
    using client_step.issue [of "the registered" "NewGetBlockHashCmd 5" sample_run ch jReq c]
    by (simp add: sample_issued_def sample_run_def)
qed



end
