(* ===== verification/Rpcclient_Http.thy ===== *)
theory Rpcclient_Http
  imports Rpcclient_Run
begin

text \<open>
  The credentials of the RPC client, with the cache of the cookie file (\<^verbatim>\<open>rpcclient/cookiefile.go\<close>), the
  outcome of dialing, and the HTTP POST mode (\<^verbatim>\<open>rpcclient/infrastructure.go\<close>). The clock, the file
  system and the network are arguments.
\<close>

section \<open>Credentials\<close>

record ConnConfig =
  Host :: string
  Endpoint :: string
  User :: string
  Pass :: string
  cookieLastCheckTime :: gotime
  cookieLastModTime :: gotime
  cookieLastUser :: string
  cookieLastPass :: string
  cookieLastErr :: "string option"
  DisableTLS :: bool
  ExtraHeaders :: "(string \<times> string) list"

text \<open>\<^verbatim>\<open>strings.SplitN(s, ":", 2)\<close>.\<close>

definition SplitN_colon :: "string \<Rightarrow> string list" where
  "SplitN_colon s =
     (case dropWhile (\<lambda>c. c \<noteq> CHR '':'') s of
        [] \<Rightarrow> [s]
      | colon # rest \<Rightarrow> [takeWhile (\<lambda>c. c \<noteq> CHR '':'') s, rest])"

text \<open>The file is the error of opening or scanning it, or its first line.\<close>

definition readCookieFile :: "string + string \<Rightarrow> string \<times> string \<times> string option" where
  "readCookieFile file =
     (case file of
        Inl e \<Rightarrow> ([], [], Some e)
      | Inr s \<Rightarrow>
          (case SplitN_colon s of
             [username, password] \<Rightarrow> (username, password, None)
           | _ \<Rightarrow> ([], [], Some ''malformed cookie file'')))"

definition cookie_ttl :: int where "cookie_ttl = 30 * 1000000000"

text \<open>\<open>now\<close> and \<open>later\<close> are the two readings of the clock, \<open>stat\<close> the time of modification of the file.\<close>

definition retrieveCookie ::
  "gotime \<Rightarrow> gotime \<Rightarrow> string + gotime \<Rightarrow> string + string \<Rightarrow> ConnConfig \<Rightarrow>
     (string \<times> string \<times> string option) \<times> ConnConfig" where
  "retrieveCookie now later stat file cf =
     (let cached = (\<lambda>cf. ((cookieLastUser cf, cookieLastPass cf, cookieLastErr cf), cf)) in
      if \<not> IsZero (cookieLastCheckTime cf) \<and> now < cookieLastCheckTime cf + cookie_ttl then cached cf
      else
        let cf = cf\<lparr>cookieLastCheckTime := later\<rparr> in
        case stat of
          Inl e \<Rightarrow> cached (cf\<lparr>cookieLastErr := Some e\<rparr>)
        | Inr modTime \<Rightarrow>
            if modTime \<noteq> cookieLastModTime cf then
              let (u, p, e) = readCookieFile file
              in cached (cf\<lparr>cookieLastModTime := modTime, cookieLastUser := u, cookieLastPass := p, cookieLastErr := e\<rparr>)
            else cached cf)"

definition getAuth ::
  "gotime \<Rightarrow> gotime \<Rightarrow> string + gotime \<Rightarrow> string + string \<Rightarrow> ConnConfig \<Rightarrow>
     (string \<times> string \<times> string option) \<times> ConnConfig" where
  "getAuth now later stat file cf =
     (if Pass cf \<noteq> [] then ((User cf, Pass cf, None), cf) else retrieveCookie now later stat file cf)"

section \<open>Dialing\<close>

text \<open>What the dialer of the websocket package returns: a response comes only with a failed handshake.\<close>

datatype dial_result = Dialed | DialError string | BadHandshake "(int \<times> string) option"

definition StatusUnauthorized :: int where "StatusUnauthorized = 401"
definition StatusForbidden :: int where "StatusForbidden = 403"
definition StatusOK :: int where "StatusOK = 200"

definition dial_outcome :: "dial_result \<Rightarrow> client_err option" where
  "dial_outcome r =
     (case r of
        Dialed \<Rightarrow> None
      | DialError e \<Rightarrow> Some (TransportError e)
      | BadHandshake None \<Rightarrow> Some (TransportError ''websocket: bad handshake'')
      | BadHandshake (Some (code, status)) \<Rightarrow>
          if code = StatusUnauthorized \<or> code = StatusForbidden then Some ErrInvalidAuth
          else if code = StatusOK then Some ErrInvalidEndpoint
          else Some (TransportError status))"

text \<open>The address and the headers of the handshake.\<close>

definition dial_url :: "ConnConfig \<Rightarrow> string" where
  "dial_url cf = (if DisableTLS cf then ''ws'' else ''wss'') @ ''://'' @ Host cf @ ''/'' @ Endpoint cf"

definition dial_headers :: "string \<Rightarrow> string \<Rightarrow> ConnConfig \<Rightarrow> (string \<times> string) list" where
  "dial_headers user pass cf = (''Authorization'', basic_auth user pass) # ExtraHeaders cf"

definition dial ::
  "string \<times> string \<times> string option \<Rightarrow> (string \<Rightarrow> (string \<times> string) list \<Rightarrow> dial_result) \<Rightarrow> ConnConfig \<Rightarrow> client_err option" where
  "dial auth dialer cf =
     (case auth of
        (user, pass, Some e) \<Rightarrow> Some (TransportError e)
      | (user, pass, None) \<Rightarrow> dial_outcome (dialer (dial_url cf) (dial_headers user pass cf)))"

section \<open>Posting a request\<close>

text \<open>A response: its status, and the error of reading its body or the body as text and as a document.\<close>

record http_reply =
  StatusCode :: int
  Body :: "string + (string \<times> (string + json))"

definition requestRetryInterval :: int where "requestRetryInterval = 500 * 1000000"

definition post_backoff :: "nat \<Rightarrow> int" where
  "post_backoff i = (let backoff = requestRetryInterval * (int i + 1) in if backoff > minute then minute else backoff)"

definition post_tries :: nat where "post_tries = 10"

text \<open>
  The loop, from attempt \<open>i\<close> on: an error that is delivered at once, or what is in \<^verbatim>\<open>httpResponse\<close> when the
  loop ends, with the waits in between. The variable \<^verbatim>\<open>err\<close> of the loop hides the one outside, so
  nothing else is left of a failed attempt: \<open>Inr None\<close> is the nil response.
\<close>

function post_loop ::
  "nat \<Rightarrow> (nat \<Rightarrow> string + unit) \<Rightarrow> (nat \<Rightarrow> string \<times> string \<times> string option) \<Rightarrow> (nat \<Rightarrow> string + http_reply) \<Rightarrow>
     (client_err + http_reply option) \<times> int list" where
  "post_loop i newRequest auth do_request =
     (if i < post_tries then
        case newRequest i of
          Inl e \<Rightarrow> (Inl (TransportError e), [])
        | Inr _ \<Rightarrow>
            (case auth i of
               (_, _, Some e) \<Rightarrow> (Inl (TransportError e), [])
             | (_, _, None) \<Rightarrow>
                 (case do_request i of
                    Inr reply \<Rightarrow> (Inr (Some reply), [])
                  | Inl e \<Rightarrow>
                      let (out, waits) = post_loop (i + 1) newRequest auth do_request
                      in (out, post_backoff i # waits)))
      else (Inr None, []))"
  by pat_completeness auto
termination by (relation "measure (\<lambda>(i, _). post_tries - i)") auto

declare post_loop.simps [simp del]

definition unmarshal_raw_member :: "string \<times> json \<Rightarrow> rawResponse \<Rightarrow> jerror + rawResponse" where
  "unmarshal_raw_member kj r =
     (let (k, j) = kj; k = to_lower k in
      if k = ''result'' then Inr (r\<lparr>raw_Result := Some j\<rparr>)
      else if k = ''error'' then bindR (unmarshal_RPCError j (raw_Error r)) (\<lambda>e. Inr (r\<lparr>raw_Error := e\<rparr>))
      else Inr r)"

primrec unmarshal_raw_members :: "(string \<times> json) list \<Rightarrow> rawResponse \<Rightarrow> jerror + rawResponse" where
  "unmarshal_raw_members [] r = Inr r"
| "unmarshal_raw_members (kj # kjs) r = bindR (unmarshal_raw_member kj r) (unmarshal_raw_members kjs)"

definition Unmarshal_rawResponse :: "string + json \<Rightarrow> rawResponse option" where
  "Unmarshal_rawResponse doc =
     (let zero_raw = \<lparr>raw_Result = None, raw_Error = None\<rparr> in
      case doc of
        Inr (JObject kvs) \<Rightarrow> (case unmarshal_raw_members kvs zero_raw of Inl e \<Rightarrow> None | Inr r \<Rightarrow> Some r)
      | Inr JNull \<Rightarrow> Some zero_raw
      | _ \<Rightarrow> None)"

text \<open>\<open>Inl\<close> is a panic, which ends the process, since nothing recovers from it.\<close>

definition deliver_reply :: "bool \<Rightarrow> http_reply \<Rightarrow> client_response" where
  "deliver_reply is_batch reply =
     (case Body reply of
        Inl e \<Rightarrow> error_response (TransportError (''error reading json reply: '' @ e))
      | Inr (text1, doc) \<Rightarrow>
          let malformed = error_response (TransportError
                (''status code: '' @ fmt_d (StatusCode reply) @ '', response: '' @ fmt_q text1))
          in if is_batch then (case doc of Inl e \<Rightarrow> malformed | Inr j \<Rightarrow> \<lparr>r_result = Some j, r_err = None\<rparr>)
             else (case Unmarshal_rawResponse doc of None \<Rightarrow> malformed | Some resp \<Rightarrow> rawResponse_result resp))"

definition handleSendPostMessage ::
  "bool \<Rightarrow> (nat \<Rightarrow> string + unit) \<Rightarrow> (nat \<Rightarrow> string \<times> string \<times> string option) \<Rightarrow> (nat \<Rightarrow> string + http_reply) \<Rightarrow>
     string + client_response" where
  "handleSendPostMessage is_batch newRequest auth do_request =
     (case fst (post_loop 0 newRequest auth do_request) of
        Inl e \<Rightarrow> Inr (error_response e)
      | Inr None \<Rightarrow> Inl ''invalid memory address or nil pointer dereference''
      | Inr (Some reply) \<Rightarrow> Inr (deliver_reply is_batch reply))"

section \<open>The handler of posted requests\<close>

text \<open>One turn of the loop of \<^verbatim>\<open>sendPostHandler\<close> with what handling the message gave, and the draining behind it.\<close>

definition sendPostHandler_turn :: "string + client_response \<Rightarrow> Client \<Rightarrow> Client option" where
  "sendPostHandler_turn outcome c =
     (case sendPostChan c of
        [] \<Rightarrow> None
      | jReq # js \<Rightarrow>
          (case outcome of
             Inl panic \<Rightarrow> None
           | Inr r \<Rightarrow> respond (jr_responseChan jReq) r (c\<lparr>sendPostChan := js\<rparr>)))"

primrec drain_loop :: "jsonRequest list \<Rightarrow> Client \<Rightarrow> Client option" where
  "drain_loop [] c = Some c"
| "drain_loop (jReq # js) c =
     (case respond (jr_responseChan jReq) (error_response ErrClientShutdown) (c\<lparr>sendPostChan := js\<rparr>) of
        None \<Rightarrow> None
      | Some c \<Rightarrow> drain_loop js c)"

definition sendPostHandler_drain :: "Client \<Rightarrow> Client option" where
  "sendPostHandler_drain c = drain_loop (sendPostChan c) c"

section \<open>Properties of posting\<close>

lemma post_loop_all_fail:
  assumes "i \<le> post_tries" and "\<And>k. newRequest k = Inr ()" and "\<And>k. snd (snd (auth k)) = None"
    and "\<And>k. k < post_tries \<Longrightarrow> \<exists>e. do_request k = Inl e"
  shows "post_loop i newRequest auth do_request = (Inr None, map post_backoff [i..<post_tries])"
  using assms(1)
proof (induction "post_tries - i" arbitrary: i)
  case 0
  then have "\<not> i < post_tries" "[i..<post_tries] = []" by auto
  then show ?case by (subst post_loop.simps) simp
next
  case (Suc n)
  then have i: "i < post_tries" "n = post_tries - Suc i" "Suc i \<le> post_tries" by auto
  obtain e where e: "do_request i = Inl e" using assms(4) i(1) by blast
  have a: "auth i = (fst (auth i), fst (snd (auth i)), None)" using assms(3) [of i] by (metis prod.collapse)
  have l: "[i..<post_tries] = i # [Suc i..<post_tries]" using i(1) by (simp add: upt_conv_Cons)
  show ?case using Suc.hyps(1) [OF i(2,3)] i(1) assms(2) e
    by (subst post_loop.simps, subst a) (simp add: l)
qed

text \<open>The time a posted request waits is at most 27.5 seconds in ten tries.\<close>

lemma post_waits: "sum_list (map post_backoff [0..<post_tries]) = 27500 * 1000000"
  by code_simp

lemma post_loop_first:
  assumes "k < post_tries" and "\<And>i. newRequest i = Inr ()" and "\<And>i. snd (snd (auth i)) = None"
    and "\<And>i. i < k \<Longrightarrow> \<exists>e. do_request i = Inl e" and "do_request k = Inr reply"
  shows "i \<le> k \<Longrightarrow> post_loop i newRequest auth do_request = (Inr (Some reply), map post_backoff [i..<k])"
proof (induction "k - i" arbitrary: i)
  case 0
  then have i: "i = k" by simp
  have a: "auth k = (fst (auth k), fst (snd (auth k)), None)" using assms(3) [of k] by (metis prod.collapse)
  show ?case unfolding i using assms(1,2,5) by (subst post_loop.simps, subst a) simp
next
  case (Suc n)
  then have i: "i < k" "n = k - Suc i" "Suc i \<le> k" by auto
  obtain e where e: "do_request i = Inl e" using assms(4) i(1) by blast
  have a: "auth i = (fst (auth i), fst (snd (auth i)), None)" using assms(3) [of i] by (metis prod.collapse)
  have l: "[i..<k] = i # [Suc i..<k]" using i(1) by (simp add: upt_conv_Cons)
  show ?case using Suc.hyps(1) [OF i(2,3)] i(1) assms(1,2) e
    by (subst post_loop.simps, subst a) (simp add: l)
qed

lemma find_upt_None: "List.find P [0..<n] = None \<longleftrightarrow> (\<forall>k<n. \<not> P k)"
  by (auto simp: find_None_iff)

lemma find_upt_Some: "List.find P [0..<n] = Some k \<longleftrightarrow> k < n \<and> P k \<and> (\<forall>i<k. \<not> P i)"
  by (auto simp: find_Some_iff)

text \<open>Fewer tries wait less.\<close>

lemma post_waits_le:
  assumes "k \<le> post_tries"
  shows "sum_list (map post_backoff [0..<k]) \<le> 27500 * 1000000"
proof -
  have "[0..<post_tries] = [0..<k] @ [k..<post_tries]" using assms by (metis le_Suc_ex upt_add_eq_append le0)
  moreover have "0 \<le> sum_list (map post_backoff [k..<post_tries])"
    by (rule sum_list_nonneg) (auto simp: post_backoff_def requestRetryInterval_def minute_def Let_def)
  ultimately show ?thesis using post_waits by (metis add_left_mono add.right_neutral map_append sum_list_append)
qed

text \<open>
  C39: A posted request is tried at most ten times, with waits that add up to at most 27.5 seconds. The
  first try that brings a response decides what the caller receives. When all ten fail the client
  panics: the error of the loop hides the one that is checked behind it, and the response is nil.
\<close>

theorem handleSendPostMessage_tries:
  assumes "\<And>k. newRequest k = Inr ()" and "\<And>k. snd (snd (auth k)) = None"
  shows "handleSendPostMessage is_batch newRequest auth do_request =
      (case List.find (\<lambda>k. \<not> isl (do_request k)) [0..<post_tries] of
         Some k \<Rightarrow> Inr (deliver_reply is_batch (projr (do_request k)))
       | None \<Rightarrow> Inl ''invalid memory address or nil pointer dereference'')
    \<and> sum_list (snd (post_loop 0 newRequest auth do_request)) \<le> 27500 * 1000000"
proof (cases "List.find (\<lambda>k. \<not> isl (do_request k)) [0..<post_tries]")
  case None
  then have f: "\<And>k. k < post_tries \<Longrightarrow> \<exists>e. do_request k = Inl e" unfolding find_upt_None isl_def by blast
  have l: "post_loop 0 newRequest auth do_request = (Inr None, map post_backoff [0..<post_tries])"
    by (rule post_loop_all_fail [OF le0 assms f])
  show ?thesis using post_waits_le [of post_tries] by (simp add: handleSendPostMessage_def l None)
next
  case (Some k)
  then have k: "k < post_tries" "\<not> isl (do_request k)" "\<And>i. i < k \<Longrightarrow> \<exists>e. do_request i = Inl e"
    unfolding find_upt_Some isl_def by blast+
  then obtain reply where reply: "do_request k = Inr reply" by (cases "do_request k") auto
  have l: "post_loop 0 newRequest auth do_request = (Inr (Some reply), map post_backoff [0..<k])"
    by (rule post_loop_first [where do_request = do_request, OF k(1) assms k(3) reply le0])
  show ?thesis using reply post_waits_le [of k] k(1) by (simp add: handleSendPostMessage_def l Some)
qed

theorem handleSendPostMessage_tries_witness:
  "handleSendPostMessage False (\<lambda>_. Inr ()) (\<lambda>_. (''u'', ''p'', None))
      (\<lambda>k. if k < 3 then Inl ''refused'' else Inr \<lparr>StatusCode = 200, Body = Inr (''{}'', Inr (JObject [(''result'', JInt 7)]))\<rparr>) =
     Inr \<lparr>r_result = Some (JInt 7), r_err = None\<rparr>
   \<and> handleSendPostMessage False (\<lambda>_. Inr ()) (\<lambda>_. (''u'', ''p'', None)) (\<lambda>k. Inl ''refused'') =
     Inl ''invalid memory address or nil pointer dereference''"
proof -
  have f: "List.find (\<lambda>k. \<not> isl (if k < 3 then Inl ''refused'' else Inr r)) [0..<post_tries] = Some 3" for r :: http_reply
    unfolding find_upt_Some by (simp add: post_tries_def)
  have n: "List.find (\<lambda>k::nat. \<not> isl (Inl ''refused'' :: string + http_reply)) [0..<post_tries] = None"
    unfolding find_upt_None by simp
  show ?thesis
    using handleSendPostMessage_tries [of "\<lambda>_. Inr ()" "\<lambda>_. (''u'', ''p'', None)" False
        "\<lambda>k. if k < 3 then Inl ''refused'' else Inr \<lparr>StatusCode = 200, Body = Inr (''{}'', Inr (JObject [(''result'', JInt 7)]))\<rparr>"]
      handleSendPostMessage_tries [of "\<lambda>_. Inr ()" "\<lambda>_. (''u'', ''p'', None)" False "\<lambda>k. Inl ''refused''"]
    by (simp add: f n) code_simp
qed

section \<open>Properties of the handler\<close>

text \<open>The draining answers every queued request, unless one of them has its answer: then it blocks.\<close>

definition drained :: "Client \<Rightarrow> Client" where
  "drained c = c\<lparr>sendPostChan := [], responses := responses c @ map (\<lambda>j. (jr_responseChan j, error_response ErrClientShutdown)) (sendPostChan c)\<rparr>"

lemma drain_loop_eq:
  "sendPostChan c = js \<Longrightarrow> drain_loop js c =
     (if set (map jr_responseChan js) \<inter> set (map fst (responses c)) = {} \<and> distinct (map jr_responseChan js)
      then Some (drained c) else None)"
proof (induction js arbitrary: c)
  case Nil
  then show ?case by (simp add: drained_def)
next
  case (Cons j js)
  show ?case
  proof (cases "jr_responseChan j \<in> set (map fst (responses c))")
    case True
    then show ?thesis by (auto simp: respond_def)
  next
    case False
    let ?c = "c\<lparr>sendPostChan := js, responses := responses c @ [(jr_responseChan j, error_response ErrClientShutdown)]\<rparr>"
    have s: "sendPostChan ?c = js" by simp
    have d: "drained ?c = drained c" using Cons.prems by (simp add: drained_def)
    show ?thesis using False Cons.IH [OF s] by (auto simp: respond_def d)
  qed
qed

theorem sendPostHandler_drain_spec:
  assumes "set (map jr_responseChan (sendPostChan c)) \<inter> set (map fst (responses c)) = {}"
    and "distinct (map jr_responseChan (sendPostChan c))"
  shows "sendPostHandler_drain c = Some (drained c)"
  using assms drain_loop_eq [OF refl, of c] by (auto simp: sendPostHandler_drain_def)

text \<open>A request made after the shutdown is answered and queued all the same, and the draining blocks on it.\<close>

lemma post_after_shutdown:
  assumes "shutdown_closed c" and "sendPostRequest jReq c = Some c'"
  shows "sendPostHandler_drain c' = None"
  using assms drain_loop_eq [OF refl, of c']
  by (auto simp: sendPostHandler_drain_def sendPostRequest_def respond_def split: if_splits)

end
