(* ===== verification/Rpc_Session.thy ===== *)
theory Rpc_Session
  imports Rpcclient_Http
begin

text \<open>
  The RPC client and the RPC server together: a call of the client, the request it sends, the reply of the
  server, and what the caller receives.
\<close>

section \<open>Credentials\<close>

text \<open>The header of the handshake of a client with the configured user and password is
  accepted, as the administrator's unless its digest is also that of the limited user.\<close>

lemma dial_authenticated:
  assumes "RPCUser cfg \<noteq> []" and "RPCPass cfg \<noteq> []" and "Pass cf = RPCPass cfg" and "User cf = RPCUser cfg"
    and "ExtraHeaders cf = []"
  shows "(case getAuth now later stat file cf of
            ((user, pass, None), cf') \<Rightarrow>
              checkAuth (newRPCServer cfg lns) (map snd (dial_headers user pass cf')) require =
                (True, authsha (newRPCServer cfg lns) \<noteq> limitauthsha (newRPCServer cfg lns), None)
          | _ \<Rightarrow> False)"
  using assms basic_auth_digest [of cfg lns] by (auto simp: getAuth_def dial_headers_def checkAuth_def Let_def)

section \<open>Getting the hash of a block\<close>

lemma getblockhash_method:
  assumes "registered = Some reg"
  shows "concreteTypeToMethod reg (TPtr T_GetBlockHashCmd) = Some ''getblockhash''"
proof -
  have "(case registered of Some reg \<Rightarrow> concreteTypeToMethod reg (TPtr T_GetBlockHashCmd) = Some ''getblockhash'' | None \<Rightarrow> False)"
    by code_simp
  then show ?thesis unfolding assms option.case .
qed

text \<open>What the client sends.\<close>

definition getblockhash_message :: "int \<Rightarrow> int \<Rightarrow> json" where
  "getblockhash_message i height =
     JObject [(''jsonrpc'', JString RpcVersion1), (''method'', JString ''getblockhash''),
       (''params'', JArray [JInt height]), (''id'', JInt i)]"

lemma GetBlockHash_request:
  assumes "registered = Some reg" and "\<not> batch c"
  shows "SendCmd_request reg (NewGetBlockHashCmd height) c =
    (next_chan c,
     Some \<lparr>jr_id = cl_id c + 1, jr_method = ''getblockhash'', jr_cmd = NewGetBlockHashCmd height,
       jr_marshalledJSON = getblockhash_message (uint (cl_id c + 1)) height, jr_responseChan = next_chan c\<rparr>,
     c\<lparr>cl_id := cl_id c + 1, next_chan := next_chan c + 1\<rparr>)"
proof -
  have v: "RPCVersion_IsValid RpcVersion1" by (simp add: RPCVersion_IsValid_iff RpcVersion1_def)
  show ?thesis
    using assms(2) getblockhash_method [OF assms(1)] v
    by (simp add: SendCmd_request_def NextID_def make_chan_def CmdMethod_def NewGetBlockHashCmd_def T_GetBlockHashCmd_def
        MarshalCmd_def NewRequest_def Request_json_def json_Marshal_iface_def makeParams_def fld_def getblockhash_message_def Let_def)
qed

text \<open>How the server reads it: numbers in an interface are floats.\<close>

lemma getblockhash_read:
  "Unmarshal_Request (Inr (getblockhash_message i height)) =
     (getblockhash_request RpcVersion1 height (Some (TFloat 64, VFloat (fmt_d i))), None)"
  by (simp add: Unmarshal_Request_def getblockhash_message_def zero_Request_def getblockhash_request_def keys_lower)

lemma getblockhash_answered:
  assumes "registered = Some reg" and "0 \<le> height" and "height < 2 ^ 63"
  shows "jsonRPCRead_single cfg reg adm (Inr (getblockhash_message i height)) =
    Inr (Some [reply_json RpcVersion1 (JString (replicate (64 - length (fmt_d height)) (CHR ''0'') @ fmt_d height)) None
      (JFloat (fmt_d i))])"
proof -
  have v: "RPCVersion_IsValid RpcVersion1" by code_simp
  have lo: "- (2 ^ 63) \<le> height" using assms(2) by simp
  have i: "json_Marshal_iface (Some (TFloat 64, VFloat (fmt_d i))) = Inr (JFloat (fmt_d i))" by (simp add: json_Marshal_iface_def)
  from getblockhash_processed [OF assms(1) lo assms(3) v _ _ i, of adm] assms(2)
  show ?thesis by (simp add: jsonRPCRead_single_eq getblockhash_read)
qed

lemma GetBlockHash_Receive_padded:
  assumes "0 \<le> height" and "height < 2 ^ 63"
  defines "s \<equiv> replicate (64 - length (fmt_d height)) (CHR ''0'') @ fmt_d height"
  shows "\<exists>h. GetBlockHash_Receive \<lparr>r_result = Some (JString s), r_err = None\<rparr> = Inr h \<and> hash_String h = s"
proof -
  have d: "fmt_d height = fmt_nat 10 (nat height)" using assms(1) by (simp add: fmt_d_def)
  have "c \<in> hex_digit ` {..<10}" if "c \<in> set (fmt_d height)" for c
    using fmt_nat_set [of 10 "nat height"] that unfolding d by (simp add: subset_iff)
  moreover have "CHR ''0'' \<in> hex_digit ` {..<10}" by (rule image_eqI [of _ _ 0]) (simp_all add: hex_digit_def)
  ultimately have "\<forall>c \<in> set s. is_hex c \<and> lower c = c" unfolding s_def using decimal_digits by auto
  then have "map lower s = s" "list_all is_hex s" by (simp_all add: map_idI list_all_iff)
  moreover have "length s = 64" using fmt_d_length [OF assms(1,2)] by (simp add: s_def)
  ultimately obtain h where "NewHashFromStr s = Inr h" "hash_String h = s" using NewHashFromStr_text [of s] by auto
  then show ?thesis
    by (simp add: GetBlockHash_Receive_def unmarshal_string_def unmarshal_scalar liftJ_def liftG_def)
qed



end
