(* ===== verification/Sha256_Bits.thy ===== *)
theory Sha256_Bits
  imports Sha256
begin

text \<open>
  SHA-256 on lists of bits, least significant bit first: the evaluator with which the kernel computes
  hashes. It equals \<^const>\<open>Sum256\<close>.
\<close>

section \<open>Words as lists of bits\<close>

definition bits_of :: "'a::len word \<Rightarrow> bool list" where
  "bits_of w = map (bit w) [0..<LENGTH('a)]"

lemma length_bits_of [simp]: "length (bits_of (w :: 'a::len word)) = LENGTH('a)"
  by (simp add: bits_of_def)

lemma nth_bits_of: "i < LENGTH('a) \<Longrightarrow> bits_of (w :: 'a::len word) ! i = bit w i"
  by (simp add: bits_of_def)

lemma bits_of_inject [simp]: "bits_of (v :: 'a::len word) = bits_of w \<longleftrightarrow> v = w"
  by (auto simp: bits_of_def intro!: bit_word_eqI)

fun xor3 :: "bool \<Rightarrow> bool \<Rightarrow> bool \<Rightarrow> bool" where
  "xor3 True True True = True"
| "xor3 True True False = False"
| "xor3 True False True = False"
| "xor3 True False False = True"
| "xor3 False True True = False"
| "xor3 False True False = True"
| "xor3 False False True = True"
| "xor3 False False False = False"

fun chooze :: "bool \<Rightarrow> bool \<Rightarrow> bool \<Rightarrow> bool" where
  "chooze True y z = y"
| "chooze False y z = z"

fun majority :: "bool \<Rightarrow> bool \<Rightarrow> bool \<Rightarrow> bool" where
  "majority True True z = True"
| "majority True False z = z"
| "majority False True z = z"
| "majority False False z = False"

fun zip_xor3 :: "bool list \<Rightarrow> bool list \<Rightarrow> bool list \<Rightarrow> bool list" where
  "zip_xor3 (x # xs) (y # ys) (z # zs) = xor3 x y z # zip_xor3 xs ys zs"
| "zip_xor3 _ _ _ = []"

fun zip_ch :: "bool list \<Rightarrow> bool list \<Rightarrow> bool list \<Rightarrow> bool list" where
  "zip_ch (x # xs) (y # ys) (z # zs) = chooze x y z # zip_ch xs ys zs"
| "zip_ch _ _ _ = []"

fun zip_maj :: "bool list \<Rightarrow> bool list \<Rightarrow> bool list \<Rightarrow> bool list" where
  "zip_maj (x # xs) (y # ys) (z # zs) = majority x y z # zip_maj xs ys zs"
| "zip_maj _ _ _ = []"

fun add_bits :: "bool \<Rightarrow> bool list \<Rightarrow> bool list \<Rightarrow> bool list" where
  "add_bits c (x # xs) (y # ys) = xor3 x y c # add_bits (majority x y c) xs ys"
| "add_bits c _ _ = []"

definition rot_bits :: "nat \<Rightarrow> bool list \<Rightarrow> bool list" where
  "rot_bits n xs = drop n xs @ take n xs"

definition shift_bits :: "nat \<Rightarrow> bool list \<Rightarrow> bool list" where
  "shift_bits n xs = drop n xs @ replicate n False"

definition plus_bits :: "bool list \<Rightarrow> bool list \<Rightarrow> bool list" where
  "plus_bits xs ys = add_bits False xs ys"

definition s0_bits :: "bool list \<Rightarrow> bool list" where
  "s0_bits x = zip_xor3 (rot_bits 7 x) (rot_bits 18 x) (shift_bits 3 x)"

definition s1_bits :: "bool list \<Rightarrow> bool list" where
  "s1_bits x = zip_xor3 (rot_bits 17 x) (rot_bits 19 x) (shift_bits 10 x)"

definition S0_bits :: "bool list \<Rightarrow> bool list" where
  "S0_bits x = zip_xor3 (rot_bits 2 x) (rot_bits 13 x) (rot_bits 22 x)"

definition S1_bits :: "bool list \<Rightarrow> bool list" where
  "S1_bits x = zip_xor3 (rot_bits 6 x) (rot_bits 11 x) (rot_bits 25 x)"

section \<open>The evaluator\<close>

fun next_word :: "bool list list \<Rightarrow> bool list" where
  "next_word (w0 # w1 # w2 # w3 # w4 # w5 # w6 # w7 # w8 # w9 # w10 # w11 # w12 # w13 # w14 # w15 # ws) =
     plus_bits (plus_bits (plus_bits w15 (s0_bits w14)) w6) (s1_bits w1)"
| "next_word ws = []"

primrec schedule_bits :: "nat \<Rightarrow> bool list list \<Rightarrow> bool list list" where
  "schedule_bits 0 w = w"
| "schedule_bits (Suc n) w = schedule_bits n (next_word w # w)"

definition mix_bits :: "bool list \<Rightarrow> bool list \<Rightarrow> bool list list \<Rightarrow> bool list list" where
  "mix_bits t1 t2 s = plus_bits t1 t2 # take 3 s @ plus_bits (s ! 3) t1 # take 3 (drop 4 s)"

fun round_bits :: "bool list \<Rightarrow> bool list \<Rightarrow> bool list list \<Rightarrow> bool list list" where
  "round_bits k w [a, b, c, d, e, f, g, h] =
     mix_bits (plus_bits (plus_bits (plus_bits (plus_bits h (S1_bits e)) (zip_ch e f g)) k) w)
       (plus_bits (S0_bits a) (zip_maj a b c)) [a, b, c, d, e, f, g, h]"
| "round_bits k w s = s"

primrec rounds_bits :: "bool list list \<Rightarrow> bool list list \<Rightarrow> bool list list \<Rightarrow> bool list list" where
  "rounds_bits [] ws s = s"
| "rounds_bits (k # ks) ws s = rounds_bits ks (tl ws) (round_bits k (hd ws) s)"

text \<open>Bytes in, words in the middle, bytes out; both are lists of bits.\<close>

fun words_bits :: "nat \<Rightarrow> bool list list \<Rightarrow> bool list list" where
  "words_bits (Suc n) (a # b # c # d # bs) = (d @ c @ b @ a) # words_bits n bs"
| "words_bits n bs = []"

definition block_bits :: "bool list list \<Rightarrow> bool list list \<Rightarrow> bool list list \<Rightarrow> bool list list" where
  "block_bits ks ws hs = map2 plus_bits hs (rounds_bits ks (rev (schedule_bits 48 (rev ws))) hs)"

primrec blocks_bits :: "bool list list \<Rightarrow> nat \<Rightarrow> bool list list \<Rightarrow> bool list list \<Rightarrow> bool list list" where
  "blocks_bits ks 0 bs hs = hs"
| "blocks_bits ks (Suc n) bs hs = blocks_bits ks n (drop 64 bs) (block_bits ks (words_bits 16 bs) hs)"

definition bytes_bits :: "bool list \<Rightarrow> bool list list" where
  "bytes_bits w = [drop 24 w, take 8 (drop 16 w), take 8 (drop 8 w), take 8 w]"

definition digest_bits :: "bool list list \<Rightarrow> bool list list \<Rightarrow> nat \<Rightarrow> bool list list \<Rightarrow> bool list list" where
  "digest_bits ks h0 n bs = concat (map bytes_bits (blocks_bits ks n bs h0))"

section \<open>The evaluator computes the function\<close>

lemma zip_xor3_eq: "length ys = length xs \<Longrightarrow> length zs = length xs \<Longrightarrow>
    length (zip_xor3 xs ys zs) = length xs \<and> (\<forall>i < length xs. zip_xor3 xs ys zs ! i = ((xs ! i \<noteq> ys ! i) \<noteq> zs ! i))"
proof (induction xs ys zs rule: zip_xor3.induct)
  case (1 x xs y ys z zs)
  then show ?case by (cases x; cases y; cases z) (auto simp: nth_Cons split: nat.splits)
qed auto

lemma zip_ch_eq: "length ys = length xs \<Longrightarrow> length zs = length xs \<Longrightarrow>
    length (zip_ch xs ys zs) = length xs \<and> (\<forall>i < length xs. zip_ch xs ys zs ! i = (if xs ! i then ys ! i else zs ! i))"
proof (induction xs ys zs rule: zip_ch.induct)
  case (1 x xs y ys z zs)
  then show ?case by (cases x) (auto simp: nth_Cons split: nat.splits)
qed auto

lemma zip_maj_eq: "length ys = length xs \<Longrightarrow> length zs = length xs \<Longrightarrow>
    length (zip_maj xs ys zs) = length xs \<and>
    (\<forall>i < length xs. zip_maj xs ys zs ! i = (if xs ! i then ys ! i \<or> zs ! i else ys ! i \<and> zs ! i))"
proof (induction xs ys zs rule: zip_maj.induct)
  case (1 x xs y ys z zs)
  then show ?case by (cases x; cases y) (auto simp: nth_Cons split: nat.splits)
qed auto

lemma length_add_bits [simp]: "length ys = length xs \<Longrightarrow> length (add_bits c xs ys) = length xs"
  by (induction c xs ys rule: add_bits.induct) auto

lemma add_bits_sum:
  "length ys = length xs \<Longrightarrow> \<exists>k :: 'a::comm_semiring_1.
     horner_sum of_bool 2 (add_bits c xs ys) + 2 ^ length xs * k =
     horner_sum of_bool 2 xs + horner_sum of_bool 2 ys + of_bool c"
proof (induction c xs ys rule: add_bits.induct)
  case (1 c x xs y ys)
  then obtain k :: 'a where k: "horner_sum of_bool 2 (add_bits (majority x y c) xs ys) + 2 ^ length xs * k =
      horner_sum of_bool 2 xs + horner_sum of_bool 2 ys + of_bool (majority x y c)" by auto
  have b: "of_bool (xor3 x y c) + 2 * of_bool (majority x y c) = (of_bool x + of_bool y + of_bool c :: 'a)"
    by (cases x; cases y; cases c) (simp_all add: numeral_eq_Suc)
  have "horner_sum of_bool 2 (add_bits c (x # xs) (y # ys)) + 2 ^ length (x # xs) * k =
      of_bool (xor3 x y c) + 2 * (horner_sum of_bool 2 (add_bits (majority x y c) xs ys) + 2 ^ length xs * k)"
    by (simp add: algebra_simps)
  also have "\<dots> = of_bool (xor3 x y c) + 2 * of_bool (majority x y c) + 2 * horner_sum of_bool 2 xs + 2 * horner_sum of_bool 2 ys"
    unfolding k by (simp add: algebra_simps)
  also have "\<dots> = horner_sum of_bool 2 (x # xs) + horner_sum of_bool 2 (y # ys) + of_bool c"
    unfolding b by (simp add: algebra_simps)
  finally show ?case by blast
qed auto

lemma horner_bits_of: "horner_sum of_bool 2 (bits_of w) = w"
  by (simp add: bits_of_def horner_sum_bit_eq_take_bit take_bit_word_eq_self)

lemma bits_of_horner:
  assumes "length bs = LENGTH('a)"
  shows "bits_of (horner_sum of_bool 2 bs :: 'a::len word) = bs"
  by (rule nth_equalityI) (auto simp: assms nth_bits_of bit_horner_sum_bit_word_iff)

lemma plus_bits_of: "plus_bits (bits_of v) (bits_of w) = bits_of (v + w)"
proof -
  let ?s = "add_bits False (bits_of v) (bits_of w)"
  obtain k where "horner_sum of_bool 2 ?s + 2 ^ LENGTH('a) * k = v + w"
    using add_bits_sum [of "bits_of w" "bits_of v" False, where 'a = "'a word"] by (auto simp: horner_bits_of)
  then have "horner_sum of_bool 2 ?s + 0 * k = v + w" unfolding word_exp_length_eq_0 [symmetric] .
  then have "horner_sum of_bool 2 ?s = v + w" by simp
  moreover have "bits_of (horner_sum of_bool 2 ?s :: 'a word) = ?s" by (rule bits_of_horner) simp
  ultimately show ?thesis by (simp add: plus_bits_def)
qed

lemma xor3_bits_of: "zip_xor3 (bits_of u) (bits_of v) (bits_of w) = bits_of (u XOR v XOR w)"
  using zip_xor3_eq [of "bits_of v" "bits_of u" "bits_of w"]
  by (intro nth_equalityI) (auto simp: nth_bits_of bit_simps)

lemma ch_bits_of: "zip_ch (bits_of u) (bits_of v) (bits_of w) = bits_of ((u AND v) XOR (NOT u AND w))"
  using zip_ch_eq [of "bits_of v" "bits_of u" "bits_of w"]
  by (intro nth_equalityI) (auto simp: nth_bits_of bit_simps)

lemma maj_bits_of: "zip_maj (bits_of u) (bits_of v) (bits_of w) = bits_of ((u AND v) XOR (u AND w) XOR (v AND w))"
  using zip_maj_eq [of "bits_of v" "bits_of u" "bits_of w"]
  by (intro nth_equalityI) (auto simp: nth_bits_of bit_simps)

lemma shift_bits_of: "n \<le> LENGTH('a) \<Longrightarrow> shift_bits n (bits_of (w :: 'a::len word)) = bits_of (drop_bit n w)"
  by (rule nth_equalityI)
    (auto simp: shift_bits_def nth_append nth_bits_of bit_simps add.commute dest: bit_imp_le_length)

lemma rot_bits_of:
  assumes "0 < n" and "n < 32"
  shows "rot_bits n (bits_of w) = bits_of (rotr n w)"
proof (rule nth_equalityI)
  fix i assume "i < length (rot_bits n (bits_of w))"
  then have i: "i < 32" using assms by (simp add: rot_bits_def)
  have l: "length (bits_of w) = 32" "length (drop n (bits_of w)) = 32 - n" by (simp_all only: length_drop length_bits_of) simp_all
  show "rot_bits n (bits_of w) ! i = bits_of (rotr n w) ! i"
  proof (cases "i < 32 - n")
    case True
    then have k: "n + i < 32" "\<not> (32 - n \<le> i)" by auto
    have "rot_bits n (bits_of w) ! i = bit w (n + i)"
      unfolding rot_bits_def nth_append l using True k by (simp add: nth_bits_of)
    moreover have "bits_of (rotr n w) ! i = bit w (n + i)"
      using i k by (simp add: rotr_def nth_bits_of bit_simps add.commute)
    ultimately show ?thesis by simp
  next
    case False
    then have k: "i - (32 - n) < n" "i - (32 - n) < 32" "\<not> n + i < 32" "i - (32 - n) = i + n - 32" using i assms by auto
    then have "\<not> bit w (n + i)" by (auto dest: bit_imp_le_length)
    then have "bits_of (rotr n w) ! i = bit w (i + n - 32)"
      using i False assms k(4) by (simp add: rotr_def nth_bits_of bit_simps add.commute)
    moreover have "rot_bits n (bits_of w) ! i = bit w (i + n - 32)"
      unfolding rot_bits_def nth_append l using False k by (simp add: nth_bits_of)
    ultimately show ?thesis by simp
  qed
qed (use assms in \<open>simp add: rot_bits_def\<close>)

lemmas bits_of_ops = plus_bits_of xor3_bits_of ch_bits_of maj_bits_of shift_bits_of rot_bits_of

lemma sigma_bits_of:
  "s0_bits (bits_of w) = bits_of (rotr 7 w XOR rotr 18 w XOR drop_bit 3 w)"
  "s1_bits (bits_of w) = bits_of (rotr 17 w XOR rotr 19 w XOR drop_bit 10 w)"
  "S0_bits (bits_of w) = bits_of (rotr 2 w XOR rotr 13 w XOR rotr 22 w)"
  "S1_bits (bits_of w) = bits_of (rotr 6 w XOR rotr 11 w XOR rotr 25 w)"
  by (simp_all add: s0_bits_def s1_bits_def S0_bits_def S1_bits_def bits_of_ops)

lemma next_word_bits:
  assumes "16 \<le> length ws"
  shows "next_word (map bits_of ws) = bits_of (ws!15 + (rotr 7 (ws!14) XOR rotr 18 (ws!14) XOR drop_bit 3 (ws!14)) + ws!6 +
    (rotr 17 (ws!1) XOR rotr 19 (ws!1) XOR drop_bit 10 (ws!1)))"
proof -
  obtain w0 w1 w2 w3 w4 w5 w6 w7 w8 w9 w10 w11 w12 w13 w14 w15 v where
    "ws = w0 # w1 # w2 # w3 # w4 # w5 # w6 # w7 # w8 # w9 # w10 # w11 # w12 # w13 # w14 # w15 # v"
    using assms by (auto simp: numeral_eq_Suc Suc_le_length_iff)
  then show ?thesis by (simp add: sigma_bits_of plus_bits_of)
qed

lemma schedule_bits_of: "16 \<le> length ws \<Longrightarrow> schedule_bits n (map bits_of ws) = map bits_of (sha_schedule n ws)"
proof (induction n arbitrary: ws)
  case (Suc n)
  let ?w = "ws!15 + (rotr 7 (ws!14) XOR rotr 18 (ws!14) XOR drop_bit 3 (ws!14)) + ws!6 +
    (rotr 17 (ws!1) XOR rotr 19 (ws!1) XOR drop_bit 10 (ws!1))"
  show ?case using Suc.IH [of "?w # ws"] Suc.prems by (simp add: next_word_bits Let_def)
qed simp

lemma round_bits_of:
  assumes "length s = 8"
  shows "round_bits (bits_of k) (bits_of w) (map bits_of s) = map bits_of (sha_round (k, w) s)"
proof -
  obtain a b c d e f g h where "s = [a, b, c, d, e, f, g, h]"
    using assms by (auto simp: numeral_eq_Suc length_Suc_conv)
  then show ?thesis by (simp add: mix_bits_def bits_of_ops sigma_bits_of Let_def numeral_eq_Suc)
qed

lemma rounds_bits_of:
  "length s = 8 \<Longrightarrow> length ws = length ks \<Longrightarrow>
   rounds_bits (map bits_of ks) (map bits_of ws) (map bits_of s) = map bits_of (fold sha_round (zip ks ws) s)"
proof (induction ks arbitrary: ws s)
  case (Cons k ks)
  then obtain w ws' where w: "ws = w # ws'" "length ws' = length ks" by (auto simp: length_Suc_conv)
  show ?case using Cons.IH [of "sha_round (k, w) s" ws'] Cons.prems(1) w by (simp add: round_bits_of length_sha_round)
qed simp

lemma bits_of_be_bytes: "bits_of (of_be_bytes [a, b, c, d] :: uint32) = bits_of d @ bits_of c @ bits_of b @ bits_of a"
proof (rule nth_equalityI)
  fix i assume "i < length (bits_of (of_be_bytes [a, b, c, d] :: uint32))"
  then have i: "i < 32" by simp
  have "bits_of (of_be_bytes [a, b, c, d] :: uint32) ! i =
      (if i < 8 then bit d i else if i < 16 then bit c (i - 8) else if i < 24 then bit b (i - 16) else bit a (i - 24))"
    using i by (auto simp: nth_bits_of of_be_bytes_def bit_simps dest: bit_imp_le_length)
  also have "\<dots> = (bits_of d @ bits_of c @ bits_of b @ bits_of a) ! i"
    using i by (auto simp: nth_append nth_bits_of)
  finally show "bits_of (of_be_bytes [a, b, c, d] :: uint32) ! i = (bits_of d @ bits_of c @ bits_of b @ bits_of a) ! i" .
qed simp

lemma words_bits_of: "4 * n \<le> length bs \<Longrightarrow> words_bits n (map bits_of bs) = map bits_of (words_of n bs)"
proof (induction n arbitrary: bs)
  case (Suc n)
  then obtain a b c d bs' where "bs = a # b # c # d # bs'" "4 * n \<le> length bs'"
    by (auto simp: numeral_eq_Suc Suc_le_length_iff)
  then show ?case using Suc.IH [of bs'] by (simp add: bits_of_be_bytes)
qed simp

lemma words_of_take: "words_of n (take (4 * n) bs) = words_of n bs"
  by (induction n arbitrary: bs) (simp_all add: min_def drop_take)

lemma length_words_of [simp]: "length (words_of n bs) = n"
  by (induction n arbitrary: bs) auto

lemma length_sha_schedule [simp]: "length (sha_schedule n ws) = n + length ws"
  by (induction n arbitrary: ws) (auto simp: Let_def)

lemma map2_plus_bits: "map2 plus_bits (map bits_of xs) (map bits_of ys) = map bits_of (map2 (+) xs ys)"
  by (simp add: zip_map1 zip_map2 case_prod_beta plus_bits_of)

lemma block_bits_of:
  assumes "length hs = 8"
  shows "block_bits (map bits_of sha_K) (map bits_of (words_of 16 bs)) (map bits_of hs) = map bits_of (sha_block bs hs)"
proof -
  have k: "length sha_K = 64" by (simp add: sha_K_def)
  let ?ws = "rev (sha_schedule 48 (rev (words_of 16 bs)))"
  have s: "rev (schedule_bits 48 (rev (map bits_of (words_of 16 bs)))) = map bits_of ?ws"
    using schedule_bits_of [of "rev (words_of 16 bs)" 48] by (simp add: rev_map)
  show ?thesis
    unfolding block_bits_def s sha_block_def using rounds_bits_of [OF assms, of ?ws sha_K] k by (simp add: map2_plus_bits)
qed

lemma blocks_bits_of:
  "length hs = 8 \<Longrightarrow> length bs = 64 * n \<Longrightarrow>
   blocks_bits (map bits_of sha_K) n (map bits_of bs) (map bits_of hs) = map bits_of (sha_blocks bs hs)"
proof (induction n arbitrary: bs hs)
  case 0
  then show ?case by (simp add: sha_blocks.simps)
next
  case (Suc n)
  then have ne: "bs \<noteq> []" by auto
  have w: "words_bits 16 (map bits_of bs) = map bits_of (words_of 16 (take 64 bs))"
    using words_bits_of [of 16 "take 64 bs"] words_bits_of [of 16 bs] Suc.prems(2) words_of_take [of 16 bs] by simp
  have l: "length (sha_block (take 64 bs) hs) = 8"
    using length_sha_blocks [of hs "take 64 bs"] Suc.prems(1) ne by (simp add: sha_block_def length_sha_rounds)
  show ?case
    using Suc.IH [OF l, of "drop 64 bs"] Suc.prems ne
    by (simp add: w block_bits_of drop_map sha_blocks.simps [of bs])
qed

lemma bytes_bits_of: "bytes_bits (bits_of (w :: uint32)) = map bits_of (be_bytes 4 w)"
proof -
  have "take 8 (drop n (bits_of w)) = bits_of (ucast (drop_bit n w) :: byte)" if "n \<le> 24" for n
  proof (rule nth_equalityI)
    have l: "length (drop n (bits_of w)) = 32 - n" by (simp only: length_drop length_bits_of) simp
    show len: "length (take 8 (drop n (bits_of w))) = length (bits_of (ucast (drop_bit n w) :: byte))"
      unfolding length_take l using that by simp
    fix i assume "i < length (take 8 (drop n (bits_of w)))"
    then have "i < 8" unfolding len by simp
    then show "take 8 (drop n (bits_of w)) ! i = bits_of (ucast (drop_bit n w) :: byte) ! i"
      using that by (simp add: nth_bits_of bit_simps add.commute)
  qed
  from this [of 0] this [of 8] this [of 16] this [of 24] show ?thesis
    by (simp add: bytes_bits_def be_bytes_def numeral_eq_Suc drop_bit_drop_bit)
qed

lemma digest_bits_of:
  assumes "length (sha_pad m) = 64 * n"
  shows "map bits_of (Sum256 m) = digest_bits (map bits_of sha_K) (map bits_of sha_H0) n (map bits_of (sha_pad m))"
proof -
  have "length sha_H0 = 8" by (simp add: sha_H0_def)
  from blocks_bits_of [OF this assms] show ?thesis
    by (simp add: digest_bits_def Sum256_def map_concat o_def bytes_bits_of)
qed

section \<open>Literals\<close>

primrec num_bits :: "nat \<Rightarrow> num \<Rightarrow> bool list" where
  "num_bits 0 k = []"
| "num_bits (Suc n) k =
     (case k of num.One \<Rightarrow> True # replicate n False | num.Bit0 m \<Rightarrow> False # num_bits n m | num.Bit1 m \<Rightarrow> True # num_bits n m)"

lemma map_bit_Suc: "map f [0..<Suc n] = f 0 # map (\<lambda>i. f (Suc i)) [0..<n]"
  by (rule nth_equalityI) (auto simp: nth_Cons split: nat.splits simp del: upt_Suc)

lemma num_bits_eq: "map (bit (numeral k :: int)) [0..<n] = num_bits n k"
proof (induction n arbitrary: k)
  case (Suc n)
  show ?case
    using Suc.IH by (cases k) (simp_all add: map_bit_Suc map_replicate_const flip: One_nat_def del: upt_Suc)
qed simp

lemma bits_of_numeral: "bits_of (numeral k :: 'a::len word) = num_bits LENGTH('a) k"
proof -
  have "map (bit (numeral k :: 'a word)) [0..<LENGTH('a)] = map (bit (numeral k :: int)) [0..<LENGTH('a)]"
    by (intro map_cong) (simp_all add: bit_numeral_word_iff)
  then show ?thesis by (simp add: bits_of_def num_bits_eq)
qed

lemma bits_of_literal:
  "bits_of (0 :: byte) = replicate 8 False" "bits_of (1 :: byte) = num_bits 8 num.One"
  "bits_of (numeral k :: byte) = num_bits 8 k" "bits_of (numeral k :: uint32) = num_bits 32 k"
  using bits_of_numeral [of num.One, where 'a = 8] bits_of_numeral [of k, where 'a = 8] bits_of_numeral [of k, where 'a = 32]
  by (simp_all add: bits_of_def numeral_eq_Suc)

text \<open>The digest of a digest, of a message that is padded to \<open>p\<close>.\<close>

lemma be_bytes_256: "be_bytes 8 (256 :: uint64) = [0, 0, 0, 0, 0, 0, 1, 0]"
  by code_simp

definition pad_32 :: bytes where
  "pad_32 = [0x80, 0, 0, 0, 0, 0, 0, 0, 0, 0, 0, 0, 0, 0, 0, 0, 0, 0, 0, 0, 0, 0, 0, 0, 0, 0, 0, 0, 0, 0, 1, 0]"

lemma replicate_numeral: "replicate (numeral k) x = x # replicate (pred_numeral k) x"
  by (simp add: numeral_eq_Suc)

lemma sha_pad_32:
  assumes "length m = 32"
  shows "sha_pad m = m @ pad_32"
  unfolding sha_pad_def assms by (simp add: be_bytes_256 replicate_numeral pad_32_def)

definition double_digest_bits :: "bool list list \<Rightarrow> bool list list \<Rightarrow> nat \<Rightarrow> bool list list \<Rightarrow> bool list list \<Rightarrow> bool list list" where
  "double_digest_bits ks h0 n bs pad = digest_bits ks h0 1 (digest_bits ks h0 n bs @ pad)"

lemma double_digest_bits_of:
  assumes "sha_pad m = p" and "length p = 64 * n"
  shows "map bits_of (Sum256 (Sum256 m)) =
    double_digest_bits (map bits_of sha_K) (map bits_of sha_H0) n (map bits_of p) (map bits_of pad_32)"
proof -
  have "length (sha_pad (Sum256 m)) = 64 * 1" by (simp add: sha_pad_32 pad_32_def)
  from digest_bits_of [OF this] show ?thesis
    using digest_bits_of [of m n] assms by (simp only: double_digest_bits_def sha_pad_32 length_Sum256 map_append)
qed

text \<open>The evaluation: the bytes of \<open>p\<close> and of \<open>d\<close> are numerals.\<close>

lemma double_digest_eqI:
  assumes "sha_pad m = p" and "length p = 64 * n"
    and "double_digest_bits (map bits_of sha_K) (map bits_of sha_H0) n (map bits_of p) (map bits_of pad_32) = map bits_of d"
  shows "Sum256 (Sum256 m) = d"
proof -
  have "map bits_of (Sum256 (Sum256 m)) = map bits_of d"
    using double_digest_bits_of [OF assms(1,2)] assms(3) by simp
  moreover have "inj (bits_of :: byte \<Rightarrow> bool list)" by (rule injI) simp
  ultimately show ?thesis by (simp only: inj_map_eq_map)
qed

lemmas sha_literals = sha_K_def sha_H0_def pad_32_def list.map bits_of_literal

end
