(* ===== verification/Genesis.thy ===== *)
theory Genesis
  imports Blocks Sha256_Bits
begin

text \<open>
  The genesis blocks of \<^verbatim>\<open>chaincfg/genesis.go\<close>, and that the hashes written down there are the hashes
  of these blocks and of their coinbase transaction.
\<close>

section \<open>Genesis blocks\<close>

text \<open>\<^verbatim>\<open>chainhash.Hash{}\<close>.\<close>

definition zero_hash :: hash where "zero_hash = replicate HashSize 0"

definition genesisCoinbaseTx :: MsgTx where
  "genesisCoinbaseTx =
     \<lparr>tx_Version = 1,
      msg_TxIn =
        [\<lparr>PreviousOutPoint = \<lparr>op_Hash = zero_hash, op_Index = 0xffffffff\<rparr>,
          SignatureScript =
           [0x04, 0xff, 0xff, 0x00, 0x1d, 0x01, 0x04, 0x45, 0x54, 0x68, 0x65, 0x20, 0x54, 0x69, 0x6d, 0x65,
            0x73, 0x20, 0x30, 0x33, 0x2f, 0x4a, 0x61, 0x6e, 0x2f, 0x32, 0x30, 0x30, 0x39, 0x20, 0x43, 0x68,
            0x61, 0x6e, 0x63, 0x65, 0x6c, 0x6c, 0x6f, 0x72, 0x20, 0x6f, 0x6e, 0x20, 0x62, 0x72, 0x69, 0x6e,
            0x6b, 0x20, 0x6f, 0x66, 0x20, 0x73, 0x65, 0x63, 0x6f, 0x6e, 0x64, 0x20, 0x62, 0x61, 0x69, 0x6c,
            0x6f, 0x75, 0x74, 0x20, 0x66, 0x6f, 0x72, 0x20, 0x62, 0x61, 0x6e, 0x6b, 0x73],
          Witness = [], Sequence = 0xffffffff\<rparr>],
      msg_TxOut =
        [\<lparr>Value = 0x12a05f200,
          PkScript =
           [0x41, 0x04, 0x67, 0x8a, 0xfd, 0xb0, 0xfe, 0x55, 0x48, 0x27, 0x19, 0x67, 0xf1, 0xa6, 0x71, 0x30,
            0xb7, 0x10, 0x5c, 0xd6, 0xa8, 0x28, 0xe0, 0x39, 0x09, 0xa6, 0x79, 0x62, 0xe0, 0xea, 0x1f, 0x61,
            0xde, 0xb6, 0x49, 0xf6, 0xbc, 0x3f, 0x4c, 0xef, 0x38, 0xc4, 0xf3, 0x55, 0x04, 0xe5, 0x1e, 0xc1,
            0x12, 0xde, 0x5c, 0x38, 0x4d, 0xf7, 0xba, 0x0b, 0x8d, 0x57, 0x8a, 0x4c, 0x70, 0x2b, 0x6b, 0xf1,
            0x1d, 0x5f, 0xac]\<rparr>],
      LockTime = 0\<rparr>"

definition genesisHash :: hash where
  "genesisHash =
     [0x6f, 0xe2, 0x8c, 0x0a, 0xb6, 0xf1, 0xb3, 0x72, 0xc1, 0xa6, 0xa2, 0x46, 0xae, 0x63, 0xf7, 0x4f,
      0x93, 0x1e, 0x83, 0x65, 0xe1, 0x5a, 0x08, 0x9c, 0x68, 0xd6, 0x19, 0x00, 0x00, 0x00, 0x00, 0x00]"

definition genesisMerkleRoot :: hash where
  "genesisMerkleRoot =
     [0x3b, 0xa3, 0xed, 0xfd, 0x7a, 0x7b, 0x12, 0xb2, 0x7a, 0xc7, 0x2c, 0x3e, 0x67, 0x76, 0x8f, 0x61,
      0x7f, 0xc8, 0x1b, 0xc3, 0x88, 0x8a, 0x51, 0x32, 0x3a, 0x9f, 0xb8, 0xaa, 0x4b, 0x1e, 0x5e, 0x4a]"

definition genesisBlock :: MsgBlock where
  "genesisBlock =
     \<lparr>Header = \<lparr>bh_Version = 1, PrevBlock = zero_hash, MerkleRoot = genesisMerkleRoot, Timestamp = time_Unix 0x495fab29,
        Bits = 0x1d00ffff, Nonce = 0x7c2bac1d\<rparr>,
      mb_Transactions = [genesisCoinbaseTx]\<rparr>"

definition regTestGenesisHash :: hash where
  "regTestGenesisHash =
     [0x06, 0x22, 0x6e, 0x46, 0x11, 0x1a, 0x0b, 0x59, 0xca, 0xaf, 0x12, 0x60, 0x43, 0xeb, 0x5b, 0xbf,
      0x28, 0xc3, 0x4f, 0x3a, 0x5e, 0x33, 0x2a, 0x1f, 0xc7, 0xb2, 0xb7, 0x3c, 0xf1, 0x88, 0x91, 0x0f]"

definition regTestGenesisMerkleRoot :: hash where "regTestGenesisMerkleRoot = genesisMerkleRoot"

definition regTestGenesisBlock :: MsgBlock where
  "regTestGenesisBlock =
     \<lparr>Header = \<lparr>bh_Version = 1, PrevBlock = zero_hash, MerkleRoot = regTestGenesisMerkleRoot, Timestamp = time_Unix 1296688602,
        Bits = 0x207fffff, Nonce = 2\<rparr>,
      mb_Transactions = [genesisCoinbaseTx]\<rparr>"

definition testNet3GenesisHash :: hash where
  "testNet3GenesisHash =
     [0x43, 0x49, 0x7f, 0xd7, 0xf8, 0x26, 0x95, 0x71, 0x08, 0xf4, 0xa3, 0x0f, 0xd9, 0xce, 0xc3, 0xae,
      0xba, 0x79, 0x97, 0x20, 0x84, 0xe9, 0x0e, 0xad, 0x01, 0xea, 0x33, 0x09, 0x00, 0x00, 0x00, 0x00]"

definition testNet3GenesisMerkleRoot :: hash where "testNet3GenesisMerkleRoot = genesisMerkleRoot"

definition testNet3GenesisBlock :: MsgBlock where
  "testNet3GenesisBlock =
     \<lparr>Header = \<lparr>bh_Version = 1, PrevBlock = zero_hash, MerkleRoot = testNet3GenesisMerkleRoot, Timestamp = time_Unix 1296688602,
        Bits = 0x1d00ffff, Nonce = 0x18aea41a\<rparr>,
      mb_Transactions = [genesisCoinbaseTx]\<rparr>"

definition simNetGenesisHash :: hash where
  "simNetGenesisHash =
     [0xf6, 0x7a, 0xd7, 0x69, 0x5d, 0x9b, 0x66, 0x2a, 0x72, 0xff, 0x3d, 0x8e, 0xdb, 0xbb, 0x2d, 0xe0,
      0xbf, 0xa6, 0x7b, 0x13, 0x97, 0x4b, 0xb9, 0x91, 0x0d, 0x11, 0x6d, 0x5c, 0xbd, 0x86, 0x3e, 0x68]"

definition simNetGenesisMerkleRoot :: hash where "simNetGenesisMerkleRoot = genesisMerkleRoot"

definition simNetGenesisBlock :: MsgBlock where
  "simNetGenesisBlock =
     \<lparr>Header = \<lparr>bh_Version = 1, PrevBlock = zero_hash, MerkleRoot = simNetGenesisMerkleRoot, Timestamp = time_Unix 1401292357,
        Bits = 0x207fffff, Nonce = 2\<rparr>,
      mb_Transactions = [genesisCoinbaseTx]\<rparr>"

definition sigNetGenesisHash :: hash where
  "sigNetGenesisHash =
     [0xf6, 0x1e, 0xee, 0x3b, 0x63, 0xa3, 0x80, 0xa4, 0x77, 0xa0, 0x63, 0xaf, 0x32, 0xb2, 0xbb, 0xc9,
      0x7c, 0x9f, 0xf9, 0xf0, 0x1f, 0x2c, 0x42, 0x25, 0xe9, 0x73, 0x98, 0x81, 0x08, 0x00, 0x00, 0x00]"

definition sigNetGenesisMerkleRoot :: hash where "sigNetGenesisMerkleRoot = genesisMerkleRoot"

definition sigNetGenesisBlock :: MsgBlock where
  "sigNetGenesisBlock =
     \<lparr>Header = \<lparr>bh_Version = 1, PrevBlock = zero_hash, MerkleRoot = sigNetGenesisMerkleRoot, Timestamp = time_Unix 1598918400,
        Bits = 0x1e0377ae, Nonce = 52613770\<rparr>,
      mb_Transactions = [genesisCoinbaseTx]\<rparr>"

section \<open>Hashes of the headers\<close>

lemma be_bytes_640: "be_bytes 8 (640 :: uint64) = [0, 0, 0, 0, 0, 0, 2, 128]"
  by code_simp

lemma le_bytes_4: "le_bytes 4 v = [ucast v, ucast (drop_bit 8 v), ucast (drop_bit 16 v), ucast (drop_bit 24 v)]"
  by (simp add: numeral_eq_Suc drop_bit_drop_bit)

definition pad_80 :: bytes where
  "pad_80 = [0x80, 0, 0, 0, 0, 0, 0, 0, 0, 0, 0, 0, 0, 0, 0, 0, 0, 0, 0, 0, 0, 0, 0, 0, 0, 0, 0, 0, 0, 0, 0, 0,
     0, 0, 0, 0, 0, 0, 0, 0, 0, 0, 0, 0, 0, 0, 2, 128]"

lemma sha_pad_80: "length m = 80 \<Longrightarrow> sha_pad m = m @ pad_80"
  by (simp add: sha_pad_def pad_80_def be_bytes_640 replicate_numeral)

lemma zero_hash_bytes: "zero_hash = [0, 0, 0, 0, 0, 0, 0, 0, 0, 0, 0, 0, 0, 0, 0, 0, 0, 0, 0, 0, 0, 0, 0, 0, 0, 0, 0, 0, 0, 0, 0, 0]"
  by (simp add: zero_hash_def HashSize_def replicate_numeral)

lemma BlockHash_bytes: "BlockHash h = Sum256 (Sum256 (header_bytes h))"
  by (simp add: BlockHash_def writeBlockHeader_Write DoubleHashH_def)

lemma BlockHash_eqI:
  assumes "header_bytes h = m" and "length m = 80"
    and "double_digest_bits (map bits_of sha_K) (map bits_of sha_H0) 2 (map bits_of (m @ pad_80)) (map bits_of pad_32) = map bits_of d"
  shows "BlockHash h = d"
  unfolding BlockHash_bytes assms(1)
  by (rule double_digest_eqI [where n = 2 and p = "m @ pad_80"]) (use assms in \<open>simp_all add: sha_pad_80\<close>, simp add: pad_80_def)

text \<open>The eighty bytes of each header, then its hash.\<close>

lemma genesisBlock_bytes:
  "header_bytes (Header genesisBlock) = [1, 0, 0, 0] @ zero_hash @ genesisMerkleRoot @
     [0x29, 0xab, 0x5f, 0x49, 0xff, 0xff, 0, 0x1d, 0x1d, 0xac, 0x2b, 0x7c]"
  by (simp add: header_bytes_def genesisBlock_def le_bytes_4)

lemma genesisBlock_hash: "BlockHash (Header genesisBlock) = genesisHash"
  by (rule BlockHash_eqI [OF genesisBlock_bytes],
      simp add: zero_hash_bytes genesisMerkleRoot_def,
      unfold zero_hash_bytes genesisMerkleRoot_def pad_80_def genesisHash_def append_Cons append_Nil sha_literals, code_simp)

lemma regTestGenesisBlock_bytes:
  "header_bytes (Header regTestGenesisBlock) = [1, 0, 0, 0] @ zero_hash @ genesisMerkleRoot @
     [0xda, 0xe5, 0x49, 0x4d, 0xff, 0xff, 0x7f, 0x20, 0x02, 0, 0, 0]"
  by (simp add: header_bytes_def regTestGenesisBlock_def regTestGenesisMerkleRoot_def le_bytes_4)

lemma regTestGenesisBlock_hash: "BlockHash (Header regTestGenesisBlock) = regTestGenesisHash"
  by (rule BlockHash_eqI [OF regTestGenesisBlock_bytes],
      simp add: zero_hash_bytes genesisMerkleRoot_def,
      unfold zero_hash_bytes genesisMerkleRoot_def pad_80_def regTestGenesisHash_def append_Cons append_Nil sha_literals, code_simp)

lemma testNet3GenesisBlock_bytes:
  "header_bytes (Header testNet3GenesisBlock) = [1, 0, 0, 0] @ zero_hash @ genesisMerkleRoot @
     [0xda, 0xe5, 0x49, 0x4d, 0xff, 0xff, 0, 0x1d, 0x1a, 0xa4, 0xae, 0x18]"
  by (simp add: header_bytes_def testNet3GenesisBlock_def testNet3GenesisMerkleRoot_def le_bytes_4)

lemma testNet3GenesisBlock_hash: "BlockHash (Header testNet3GenesisBlock) = testNet3GenesisHash"
  by (rule BlockHash_eqI [OF testNet3GenesisBlock_bytes],
      simp add: zero_hash_bytes genesisMerkleRoot_def,
      unfold zero_hash_bytes genesisMerkleRoot_def pad_80_def testNet3GenesisHash_def append_Cons append_Nil sha_literals, code_simp)

lemma simNetGenesisBlock_bytes:
  "header_bytes (Header simNetGenesisBlock) = [1, 0, 0, 0] @ zero_hash @ genesisMerkleRoot @
     [0x45, 0x06, 0x86, 0x53, 0xff, 0xff, 0x7f, 0x20, 0x02, 0, 0, 0]"
  by (simp add: header_bytes_def simNetGenesisBlock_def simNetGenesisMerkleRoot_def le_bytes_4)

lemma simNetGenesisBlock_hash: "BlockHash (Header simNetGenesisBlock) = simNetGenesisHash"
  by (rule BlockHash_eqI [OF simNetGenesisBlock_bytes],
      simp add: zero_hash_bytes genesisMerkleRoot_def,
      unfold zero_hash_bytes genesisMerkleRoot_def pad_80_def simNetGenesisHash_def append_Cons append_Nil sha_literals, code_simp)

lemma sigNetGenesisBlock_bytes:
  "header_bytes (Header sigNetGenesisBlock) = [1, 0, 0, 0] @ zero_hash @ genesisMerkleRoot @
     [0, 0x8f, 0x4d, 0x5f, 0xae, 0x77, 0x03, 0x1e, 0x8a, 0xd2, 0x22, 0x03]"
  by (simp add: header_bytes_def sigNetGenesisBlock_def sigNetGenesisMerkleRoot_def le_bytes_4)

lemma sigNetGenesisBlock_hash: "BlockHash (Header sigNetGenesisBlock) = sigNetGenesisHash"
  by (rule BlockHash_eqI [OF sigNetGenesisBlock_bytes],
      simp add: zero_hash_bytes genesisMerkleRoot_def,
      unfold zero_hash_bytes genesisMerkleRoot_def pad_80_def sigNetGenesisHash_def append_Cons append_Nil sha_literals, code_simp)

section \<open>Hash of the coinbase transaction\<close>

lemma be_bytes_1632: "be_bytes 8 (1632 :: uint64) = [0, 0, 0, 0, 0, 0, 6, 0x60]"
  by code_simp

lemma le_bytes_8: "le_bytes 8 (0x12a05f200 :: uint64) = [0, 0xf2, 0x05, 0x2a, 1, 0, 0, 0]"
  by code_simp

definition pad_204 :: bytes where
  "pad_204 = [0x80, 0, 0, 0, 0, 0, 0, 0, 0, 0, 0, 0, 0, 0, 0, 0, 0, 0, 0, 0, 0, 0, 0, 0, 0, 0, 0, 0, 0, 0, 0, 0,
     0, 0, 0, 0, 0, 0, 0, 0, 0, 0, 0, 0, 0, 0, 0, 0, 0, 0, 6, 0x60]"

lemma sha_pad_204: "length m = 204 \<Longrightarrow> sha_pad m = m @ pad_204"
  by (simp add: sha_pad_def pad_204_def be_bytes_1632 replicate_numeral)

definition coinbase_script :: bytes where
  "coinbase_script = SignatureScript (msg_TxIn genesisCoinbaseTx ! 0)"

definition coinbase_pk :: bytes where
  "coinbase_pk = PkScript (msg_TxOut genesisCoinbaseTx ! 0)"

lemma coinbase_bytes:
  "tx_bytes WitnessEncoding genesisCoinbaseTx =
     [1, 0, 0, 0, 1] @ zero_hash @ [0xff, 0xff, 0xff, 0xff, 77] @ coinbase_script @ [0xff, 0xff, 0xff, 0xff] @
     [1, 0, 0xf2, 0x05, 0x2a, 1, 0, 0, 0, 67] @ coinbase_pk @ [0, 0, 0, 0]"
  by (simp add: tx_bytes_def HasWitness_def genesisCoinbaseTx_def plain_bytes_def ins_outs_bytes_def txin_bytes_def
      outpoint_bytes_def txout_bytes_def varbytes_bytes_def varint_bytes_def le_bytes_4 le_bytes_8 coinbase_script_def coinbase_pk_def)

lemma coinbase_hash: "DoubleHashH (tx_bytes WitnessEncoding genesisCoinbaseTx) = genesisMerkleRoot"
  unfolding DoubleHashH_def Let_def coinbase_bytes
  by (rule double_digest_eqI [where n = 4, OF sha_pad_204],
      simp add: zero_hash_bytes coinbase_script_def coinbase_pk_def genesisCoinbaseTx_def,
      simp add: zero_hash_bytes coinbase_script_def coinbase_pk_def genesisCoinbaseTx_def pad_204_def,
      simp only: zero_hash_bytes coinbase_script_def coinbase_pk_def genesisCoinbaseTx_def MsgTx.simps TxIn.simps TxOut.simps nth_Cons_0
        pad_204_def genesisMerkleRoot_def append_Cons append_Nil sha_literals,
      code_simp)

section \<open>Properties\<close>

text \<open>
  C11: The hashes written down for the five genesis blocks are the hashes the code computes from their
  headers, and their common Merkle root is the double hash of the serialized coinbase transaction,
  which is the only transaction of each.
\<close>

theorem genesis_hashes:
  "map MsgBlock_BlockHash [genesisBlock, regTestGenesisBlock, testNet3GenesisBlock, simNetGenesisBlock, sigNetGenesisBlock] =
     [genesisHash, regTestGenesisHash, testNet3GenesisHash, simNetGenesisHash, sigNetGenesisHash] \<and>
   map (\<lambda>b. (MerkleRoot (Header b), mb_Transactions b))
     [genesisBlock, regTestGenesisBlock, testNet3GenesisBlock, simNetGenesisBlock, sigNetGenesisBlock] =
     replicate 5 (genesisMerkleRoot, [genesisCoinbaseTx]) \<and>
   (\<exists>bs. Serialize genesisCoinbaseTx emptyBuffer = (None, \<lparr>wbuf = bs, wroom = None\<rparr>) \<and> DoubleHashH bs = genesisMerkleRoot)"
proof (intro conjI)
  show "map MsgBlock_BlockHash [genesisBlock, regTestGenesisBlock, testNet3GenesisBlock, simNetGenesisBlock, sigNetGenesisBlock] =
     [genesisHash, regTestGenesisHash, testNet3GenesisHash, simNetGenesisHash, sigNetGenesisHash]"
    by (simp add: MsgBlock_BlockHash_def genesisBlock_hash regTestGenesisBlock_hash testNet3GenesisBlock_hash
        simNetGenesisBlock_hash sigNetGenesisBlock_hash)
  show "map (\<lambda>b. (MerkleRoot (Header b), mb_Transactions b))
     [genesisBlock, regTestGenesisBlock, testNet3GenesisBlock, simNetGenesisBlock, sigNetGenesisBlock] =
     replicate 5 (genesisMerkleRoot, [genesisCoinbaseTx])"
    by (simp add: genesisBlock_def regTestGenesisBlock_def testNet3GenesisBlock_def simNetGenesisBlock_def sigNetGenesisBlock_def
        regTestGenesisMerkleRoot_def testNet3GenesisMerkleRoot_def simNetGenesisMerkleRoot_def sigNetGenesisMerkleRoot_def
        replicate_numeral)
  show "\<exists>bs. Serialize genesisCoinbaseTx emptyBuffer = (None, \<lparr>wbuf = bs, wroom = None\<rparr>) \<and> DoubleHashH bs = genesisMerkleRoot"
    using coinbase_hash by (simp add: Serialize_Write)
qed

end
