(* ===== verification/Chaincfg.thy ===== *)
theory Chaincfg
  imports Genesis Json
begin

text \<open>
  The parameters of the networks (\<^verbatim>\<open>chaincfg/params.go\<close>, \<^verbatim>\<open>params.go\<close>). The parameters of the main network and
  of the regression test network are left empty in the sources.
\<close>

section \<open>Types\<close>

record DNSSeed =
  seed_Host :: string
  HasFiltering :: bool

record Checkpoint =
  cp_Height :: int32
  cp_Hash :: "hash option"

record ConsensusDeployment =
  BitNumber :: uint8
  MinActivationHeight :: uint32
  CustomActivationThreshold :: uint32
  DeploymentStarter :: "MedianTimeDeploymentStarter option"
  DeploymentEnder :: "MedianTimeDeploymentEnder option"

text \<open>\<^verbatim>\<open>Deployments\<close> is an array of \<open>DefinedDeployments\<close> elements; durations are in nanoseconds.\<close>

record Params =
  Name :: string
  Net :: uint32
  DefaultPort :: string
  DNSSeeds :: "DNSSeed list"
  GenesisBlock :: "MsgBlock option"
  GenesisHash :: "hash option"
  PowLimit :: "int option"
  PowLimitBits :: uint32
  BIP0034Height :: int32
  BIP0065Height :: int32
  BIP0066Height :: int32
  CoinbaseMaturity :: uint16
  SubsidyReductionInterval :: int32
  TargetTimespan :: int
  TargetTimePerBlock :: int
  RetargetAdjustmentFactor :: int64
  ReduceMinDifficulty :: bool
  MinDiffReductionTime :: int
  GenerateSupported :: bool
  Checkpoints :: "Checkpoint list"
  RuleChangeActivationThreshold :: uint32
  MinerConfirmationWindow :: uint32
  Deployments :: "ConsensusDeployment list"
  RelayNonStdTxs :: bool
  Bech32HRPSegwit :: string
  PubKeyHashAddrID :: byte
  ScriptHashAddrID :: byte
  PrivateKeyID :: byte
  WitnessPubKeyHashAddrID :: byte
  WitnessScriptHashAddrID :: byte
  HDPrivateKeyID :: bytes
  HDPublicKeyID :: bytes
  HDCoinType :: uint32

section \<open>Constants\<close>

definition bigOne :: int where "bigOne = 1"
definition mainPowLimit :: int where "mainPowLimit = push_bit 224 bigOne - bigOne"
definition regressionPowLimit :: int where "regressionPowLimit = push_bit 255 bigOne - bigOne"
definition testNet3PowLimit :: int where "testNet3PowLimit = push_bit 224 bigOne - bigOne"
definition simNetPowLimit :: int where "simNetPowLimit = push_bit 255 bigOne - bigOne"
definition sigNetPowLimit :: int where "sigNetPowLimit = push_bit 216 0x0377ae"

text \<open>\<^verbatim>\<open>hex.DecodeString\<close>, with its bytes up to an error.\<close>

fun hex_DecodeString :: "string \<Rightarrow> bytes \<times> goerr option" where
  "hex_DecodeString (p # q # cs) =
     (case (fromHexChar p, fromHexChar q) of
        (None, _) \<Rightarrow> ([], Some (InvalidByteError p))
      | (_, None) \<Rightarrow> ([], Some (InvalidByteError q))
      | (Some a, Some b) \<Rightarrow> (let (bs, err) = hex_DecodeString cs in ((push_bit 4 a OR b) # bs, err)))"
| "hex_DecodeString [p] = ([], Some (if fromHexChar p = None then InvalidByteError p else ErrLength))"
| "hex_DecodeString [] = ([], None)"

definition DefaultSignetChallenge :: bytes where
  "DefaultSignetChallenge = fst (hex_DecodeString
     (''512103ad5e0edad18cb1f0fc0d28a3d4f1f3e445640337489abb10404f2d'' @
      ''1e086be430210359ef5021964fe22d6f8e05b2463c9540ce9688'' @
      ''3fe3b278760f048f5189f2e6c452ae''))"

definition DefaultSignetDNSSeeds :: "DNSSeed list" where
  "DefaultSignetDNSSeeds =
     [\<lparr>seed_Host = ''178.128.221.177'', HasFiltering = False\<rparr>,
      \<lparr>seed_Host = ''2a01:7c8:d005:390::5'', HasFiltering = False\<rparr>,
      \<lparr>seed_Host = ''v7ajjeirttkbnt32wpy3c6w3emwnfr3fkla7hpxcfokr3ysd3kqtzmqd.onion:38333'', HasFiltering = False\<rparr>]"

definition DefinedDeployments :: nat where "DefinedDeployments = 4"

text \<open>The registered networks and prefixes: nothing in the sources adds to these maps.\<close>

definition bech32SegwitPrefixes :: "string set" where "bech32SegwitPrefixes = {}"

definition IsBech32SegwitPrefix :: "string \<Rightarrow> bool" where
  "IsBech32SegwitPrefix prefix = (to_lower prefix \<in> bech32SegwitPrefixes)"

section \<open>The networks\<close>

definition zero_time :: gotime where "zero_time = time_Unix (- 62135596800)"

text \<open>A deployment with a start and an end.\<close>

definition deployment :: "uint8 \<Rightarrow> uint32 \<Rightarrow> uint32 \<Rightarrow> gotime \<Rightarrow> gotime \<Rightarrow> ConsensusDeployment" where
  "deployment bit1 custom minActivation start end1 =
     \<lparr>BitNumber = bit1, MinActivationHeight = minActivation, CustomActivationThreshold = custom,
      DeploymentStarter = Some (NewMedianTimeDeploymentStarter start),
      DeploymentEnder = Some (NewMedianTimeDeploymentEnder end1)\<rparr>"

definition zero_deployment :: ConsensusDeployment where
  "zero_deployment =
     \<lparr>BitNumber = 0, MinActivationHeight = 0, CustomActivationThreshold = 0, DeploymentStarter = None, DeploymentEnder = None\<rparr>"

text \<open>\<^verbatim>\<open>Params{}\<close>.\<close>

definition zero_Params :: Params where
  "zero_Params =
     \<lparr>Name = [], Net = 0, DefaultPort = [], DNSSeeds = [], GenesisBlock = None, GenesisHash = None,
      PowLimit = None, PowLimitBits = 0, BIP0034Height = 0, BIP0065Height = 0, BIP0066Height = 0,
      CoinbaseMaturity = 0, SubsidyReductionInterval = 0, TargetTimespan = 0, TargetTimePerBlock = 0,
      RetargetAdjustmentFactor = 0, ReduceMinDifficulty = False, MinDiffReductionTime = 0,
      GenerateSupported = False, Checkpoints = [], RuleChangeActivationThreshold = 0,
      MinerConfirmationWindow = 0, Deployments = replicate DefinedDeployments zero_deployment,
      RelayNonStdTxs = False, Bech32HRPSegwit = [], PubKeyHashAddrID = 0, ScriptHashAddrID = 0,
      PrivateKeyID = 0, WitnessPubKeyHashAddrID = 0, WitnessScriptHashAddrID = 0,
      HDPrivateKeyID = [0, 0, 0, 0], HDPublicKeyID = [0, 0, 0, 0], HDCoinType = 0\<rparr>"

definition MainNetParams :: Params where "MainNetParams = zero_Params"
definition RegressionNetParams :: Params where "RegressionNetParams = zero_Params"

text \<open>\<^verbatim>\<open>newHashFromStr\<close> panics on an error, which ends the initialisation of the package.\<close>

definition newHashFromStr :: "string \<Rightarrow> hash result" where
  "newHashFromStr hexStr = (case NewHashFromStr hexStr of Inl e \<Rightarrow> Inl (Panic ''newHashFromStr'') | Inr h \<Rightarrow> Inr h)"

primrec checkpoints_of :: "(int32 \<times> string) list \<Rightarrow> Checkpoint list result" where
  "checkpoints_of [] = Inr []"
| "checkpoints_of (c # cs) =
     bindR (newHashFromStr (snd c)) (\<lambda>h.
       bindR (checkpoints_of cs) (\<lambda>rest. Inr (\<lparr>cp_Height = fst c, cp_Hash = Some h\<rparr> # rest)))"

definition testNet3Checkpoints :: "(int32 \<times> string) list" where
  "testNet3Checkpoints =
     [(546, ''000000002a936ca763904c3c35fce2f3556c559c0214345d31b1bcebf76acb70''),
      (100000, ''00000000009e2958c15ff9290d571bf9459e93b19765c6801ddeccadbb160a1e''),
      (200000, ''0000000000287bffd321963ef05feab753ebe274e1d78b2fd4e2bfe9ad3aa6f2''),
      (300001, ''0000000000004829474748f3d1bc8fcf893c88be255e6d7f571c548aff57abf4''),
      (400002, ''0000000005e2c73b8ecb82ae2dbc2e8274614ebad7172b53528aba7501f5a089''),
      (500011, ''00000000000929f63977fbac92ff570a9bd9e7715401ee96f2848f7b07750b02''),
      (600002, ''000000000001f471389afd6ee94dcace5ccc44adc18e8bff402443f034b07240''),
      (700000, ''000000000000406178b12a4dea3b27e13b3c4fe4510994fd667d7c1e6a3f4dc1''),
      (800010, ''000000000017ed35296433190b6829db01e657d80631d43f5983fa403bfdb4c1''),
      (900000, ''0000000000356f8d8924556e765b7a94aaebc6b5c8685dcfa2b1ee8b41acd89b''),
      (1000007, ''00000000001ccb893d8a1f25b70ad173ce955e5f50124261bbbc50379a612ddf''),
      (1100007, ''00000000000abc7b2cd18768ab3dee20857326a818d1946ed6796f42d66dd1e8''),
      (1200007, ''00000000000004f2dc41845771909db57e04191714ed8c963f7e56713a7b6cea''),
      (1300007, ''0000000072eab69d54df75107c052b26b0395b44f77578184293bf1bb1dbd9fa'')]"

definition hour :: int where "hour = 3600 * 1000000000"
definition minutes :: "int \<Rightarrow> int" where "minutes n = n * (60 * 1000000000)"

definition TestNet3Params :: "Params result" where
  "TestNet3Params =
     bindR (checkpoints_of testNet3Checkpoints) (\<lambda>checkpoints. Inr
       \<lparr>Name = ''testnet3'', Net = TestNet3, DefaultPort = ''18333'',
        DNSSeeds =
          [\<lparr>seed_Host = ''testnet-seed.bitcoin.jonasschnelli.ch'', HasFiltering = True\<rparr>,
           \<lparr>seed_Host = ''testnet-seed.bitcoin.schildbach.de'', HasFiltering = False\<rparr>,
           \<lparr>seed_Host = ''seed.tbtc.petertodd.org'', HasFiltering = True\<rparr>,
           \<lparr>seed_Host = ''testnet-seed.bluematt.me'', HasFiltering = False\<rparr>],
        GenesisBlock = Some testNet3GenesisBlock, GenesisHash = Some testNet3GenesisHash,
        PowLimit = Some testNet3PowLimit, PowLimitBits = 0x1d00ffff, BIP0034Height = 21111,
        BIP0065Height = 581885, BIP0066Height = 330776, CoinbaseMaturity = 100,
        SubsidyReductionInterval = 210000, TargetTimespan = hour * 24 * 14, TargetTimePerBlock = minutes 10,
        RetargetAdjustmentFactor = 4, ReduceMinDifficulty = True, MinDiffReductionTime = minutes 20,
        GenerateSupported = False, Checkpoints = checkpoints, RuleChangeActivationThreshold = 1512,
        MinerConfirmationWindow = 2016,
        Deployments =
          [deployment 28 0 0 (time_Unix 1199145601) (time_Unix 1230767999),
           deployment 22 1815 100000 zero_time zero_time,
           deployment 0 0 0 (time_Unix 1456790400) (time_Unix 1493596800),
           deployment 1 0 0 (time_Unix 1462060800) (time_Unix 1493596800)],
        RelayNonStdTxs = True, Bech32HRPSegwit = ''tb'', PubKeyHashAddrID = 0x6f, ScriptHashAddrID = 0xc4,
        PrivateKeyID = 0xef, WitnessPubKeyHashAddrID = 0x03, WitnessScriptHashAddrID = 0x28,
        HDPrivateKeyID = [0x04, 0x35, 0x83, 0x94], HDPublicKeyID = [0x04, 0x35, 0x87, 0xcf], HDCoinType = 1\<rparr>)"

definition SimNetParams :: Params where
  "SimNetParams =
     \<lparr>Name = ''simnet'', Net = SimNet, DefaultPort = ''18555'', DNSSeeds = [],
      GenesisBlock = Some simNetGenesisBlock, GenesisHash = Some simNetGenesisHash,
      PowLimit = Some simNetPowLimit, PowLimitBits = 0x207fffff, BIP0034Height = 0, BIP0065Height = 0,
      BIP0066Height = 0, CoinbaseMaturity = 100, SubsidyReductionInterval = 210000,
      TargetTimespan = hour * 24 * 14, TargetTimePerBlock = minutes 10, RetargetAdjustmentFactor = 4,
      ReduceMinDifficulty = True, MinDiffReductionTime = minutes 20, GenerateSupported = True,
      Checkpoints = [], RuleChangeActivationThreshold = 75, MinerConfirmationWindow = 100,
      Deployments =
        [deployment 28 0 0 zero_time zero_time, deployment 22 50 600 zero_time zero_time,
         deployment 0 0 0 zero_time zero_time, deployment 1 0 0 zero_time zero_time],
      RelayNonStdTxs = True, Bech32HRPSegwit = ''sb'', PubKeyHashAddrID = 0x3f, ScriptHashAddrID = 0x7b,
      PrivateKeyID = 0x64, WitnessPubKeyHashAddrID = 0x19, WitnessScriptHashAddrID = 0x28,
      HDPrivateKeyID = [0x04, 0x20, 0xb9, 0x00], HDPublicKeyID = [0x04, 0x20, 0xbd, 0x3a], HDCoinType = 115\<rparr>"

text \<open>The length of the challenge is one byte, whatever it is.\<close>

definition CustomSignetParams :: "bytes \<Rightarrow> DNSSeed list \<Rightarrow> Params" where
  "CustomSignetParams challenge dnsSeeds =
     (let challengeLength = word_of_nat (length challenge) :: byte;
          hashDouble = DoubleHashB ([challengeLength] @ challenge);
          net = of_le_bytes (take 4 hashDouble) :: uint32
      in \<lparr>Name = ''signet'', Net = net, DefaultPort = ''38333'', DNSSeeds = dnsSeeds,
          GenesisBlock = Some sigNetGenesisBlock, GenesisHash = Some sigNetGenesisHash,
          PowLimit = Some sigNetPowLimit, PowLimitBits = 0x1e0377ae, BIP0034Height = 1, BIP0065Height = 1,
          BIP0066Height = 1, CoinbaseMaturity = 100, SubsidyReductionInterval = 210000,
          TargetTimespan = hour * 24 * 14, TargetTimePerBlock = minutes 10, RetargetAdjustmentFactor = 4,
          ReduceMinDifficulty = False, MinDiffReductionTime = minutes 20, GenerateSupported = False,
          Checkpoints = [], RuleChangeActivationThreshold = 1916, MinerConfirmationWindow = 2016,
          Deployments =
            [deployment 28 0 0 (time_Unix 1199145601) (time_Unix 1230767999),
             deployment 22 1815 100000 zero_time zero_time,
             deployment 29 0 0 zero_time zero_time, deployment 29 0 0 zero_time zero_time],
          RelayNonStdTxs = False, Bech32HRPSegwit = ''tb'', PubKeyHashAddrID = 0x6f, ScriptHashAddrID = 0xc4,
          PrivateKeyID = 0xef, WitnessPubKeyHashAddrID = 0x03, WitnessScriptHashAddrID = 0x28,
          HDPrivateKeyID = [0x04, 0x35, 0x83, 0x94], HDPublicKeyID = [0x04, 0x35, 0x87, 0xcf], HDCoinType = 1\<rparr>)"

definition SigNetParams :: Params where
  "SigNetParams = CustomSignetParams DefaultSignetChallenge DefaultSignetDNSSeeds"

section \<open>The parameters of the program\<close>

record params =
  chain_params :: Params
  rpcPort :: string

definition mainNetParams :: params where "mainNetParams = \<lparr>chain_params = MainNetParams, rpcPort = ''8334''\<rparr>"
definition regressionNetParams :: params where "regressionNetParams = \<lparr>chain_params = RegressionNetParams, rpcPort = ''18334''\<rparr>"
definition testNet3Params :: "params result" where
  "testNet3Params = bindR TestNet3Params (\<lambda>p. Inr \<lparr>chain_params = p, rpcPort = ''18334''\<rparr>)"
definition simNetParams :: params where "simNetParams = \<lparr>chain_params = SimNetParams, rpcPort = ''18556''\<rparr>"
definition sigNetParams :: params where "sigNetParams = \<lparr>chain_params = SigNetParams, rpcPort = ''38332''\<rparr>"

definition netName :: "params \<Rightarrow> string" where
  "netName p = (if Net (chain_params p) = TestNet3 then ''testnet'' else Name (chain_params p))"

section \<open>Initialisation\<close>

text \<open>Checkpoints whose hashes are written with at most 64 digits are all parsed, in their order.\<close>

lemma checkpoints_of_ok:
  assumes "list_all (\<lambda>c. length (snd c) = 64 \<and> list_all is_hex (snd c)) cs"
  shows "\<exists>cps. checkpoints_of cs = Inr cps \<and> map cp_Height cps = map fst cs \<and>
    map (\<lambda>c. map_option hash_String (cp_Hash c)) cps = map (\<lambda>c. Some (map lower (snd c))) cs"
  using assms
proof (induction cs)
  case (Cons c cs)
  then obtain cps where "checkpoints_of cs = Inr cps" "map cp_Height cps = map fst cs"
    "map (\<lambda>c. map_option hash_String (cp_Hash c)) cps = map (\<lambda>c. Some (map lower (snd c))) cs" by auto
  moreover obtain h where "NewHashFromStr (snd c) = Inr h" "hash_String h = map lower (snd c)"
    using NewHashFromStr_text [of "snd c"] Cons.prems by auto
  ultimately show ?case by (simp add: newHashFromStr_def)
qed simp

lemma testNet3_checkpoints:
  "list_all (\<lambda>c. length (snd c) = 64 \<and> list_all is_hex (snd c)) testNet3Checkpoints"
  unfolding testNet3Checkpoints_def by code_simp

lemma testNet3_lower: "map (map lower \<circ> snd) testNet3Checkpoints = map snd testNet3Checkpoints"
  unfolding testNet3Checkpoints_def by code_simp

lemma testNet3_heights: "sorted_wrt (\<lambda>a b. sint a < sint b) (map fst testNet3Checkpoints)"
  unfolding testNet3Checkpoints_def by code_simp

section \<open>Consistent parameters\<close>

text \<open>The target that \<open>bits\<close> stands for in a header, and a hash as a number.\<close>

definition compact_target :: "uint32 \<Rightarrow> int" where
  "compact_target bits =
     (let e = unat (drop_bit 24 bits); m = uint (bits AND 0x7fffff)
      in if e \<le> 3 then m div 256 ^ (3 - e) else m * 256 ^ (e - 3))"

definition hash_number :: "hash \<Rightarrow> int" where
  "hash_number h = foldr (\<lambda>b n. uint b + 256 * n) h 0"

text \<open>
  The hash of the genesis block is the one of the parameters and below the target of the block, which
  is the easiest the network allows; the limit for targets is not below it. The threshold of a
  deployment is within the window, there are as many deployments as are defined, and the checkpoints
  are in the order of their heights and all have a hash.
\<close>

definition consistent_params :: "Params \<Rightarrow> bool" where
  "consistent_params p \<longleftrightarrow>
     (case (GenesisBlock p, GenesisHash p, PowLimit p) of
        (Some b, Some h, Some limit) \<Rightarrow>
          MsgBlock_BlockHash b = h \<and> Bits (Header b) = PowLimitBits p \<and>
          hash_number h \<le> compact_target (PowLimitBits p) \<and> compact_target (PowLimitBits p) \<le> limit
      | _ \<Rightarrow> False) \<and>
     0 < RuleChangeActivationThreshold p \<and> RuleChangeActivationThreshold p \<le> MinerConfirmationWindow p \<and>
     length (Deployments p) = DefinedDeployments \<and>
     list_all (\<lambda>d. CustomActivationThreshold d \<le> MinerConfirmationWindow p \<and> DeploymentStarter d \<noteq> None \<and> DeploymentEnder d \<noteq> None)
       (Deployments p) \<and>
     sorted_wrt (\<lambda>a b. sint (cp_Height a) < sint (cp_Height b)) (Checkpoints p) \<and>
     list_all (\<lambda>c. cp_Hash c \<noteq> None) (Checkpoints p)"

lemma targets:
  "compact_target 0x1d00ffff \<le> testNet3PowLimit" "compact_target 0x207fffff \<le> simNetPowLimit"
  "compact_target 0x1e0377ae \<le> sigNetPowLimit"
  by (simp_all add: compact_target_def testNet3PowLimit_def simNetPowLimit_def sigNetPowLimit_def bigOne_def push_bit_int_def)

lemma hash_numbers:
  "hash_number testNet3GenesisHash \<le> compact_target 0x1d00ffff"
  "hash_number simNetGenesisHash \<le> compact_target 0x207fffff"
  "hash_number sigNetGenesisHash \<le> compact_target 0x1e0377ae"
  by (simp_all add: hash_number_def compact_target_def testNet3GenesisHash_def simNetGenesisHash_def sigNetGenesisHash_def)

section \<open>The magic number of the signet network\<close>

lemma DefaultSignetChallenge_bytes:
  "DefaultSignetChallenge =
     [0x51, 0x21, 0x03, 0xad, 0x5e, 0x0e, 0xda, 0xd1, 0x8c, 0xb1, 0xf0, 0xfc, 0x0d, 0x28, 0xa3, 0xd4,
      0xf1, 0xf3, 0xe4, 0x45, 0x64, 0x03, 0x37, 0x48, 0x9a, 0xbb, 0x10, 0x40, 0x4f, 0x2d, 0x1e, 0x08,
      0x6b, 0xe4, 0x30, 0x21, 0x03, 0x59, 0xef, 0x50, 0x21, 0x96, 0x4f, 0xe2, 0x2d, 0x6f, 0x8e, 0x05,
      0xb2, 0x46, 0x3c, 0x95, 0x40, 0xce, 0x96, 0x88, 0x3f, 0xe3, 0xb2, 0x78, 0x76, 0x0f, 0x04, 0x8f,
      0x51, 0x89, 0xf2, 0xe6, 0xc4, 0x52, 0xae]"
  unfolding DefaultSignetChallenge_def by code_simp

lemma be_bytes_576: "be_bytes 8 (576 :: uint64) = [0, 0, 0, 0, 0, 0, 2, 0x40]"
  by code_simp

definition pad_72 :: bytes where
  "pad_72 = [0x80, 0, 0, 0, 0, 0, 0, 0, 0, 0, 0, 0, 0, 0, 0, 0, 0, 0, 0, 0, 0, 0, 0, 0, 0, 0, 0, 0, 0, 0, 0, 0,
     0, 0, 0, 0, 0, 0, 0, 0, 0, 0, 0, 0, 0, 0, 0, 0, 0, 0, 0, 0, 0, 0, 2, 0x40]"

lemma sha_pad_72: "length m = 72 \<Longrightarrow> sha_pad m = m @ pad_72"
  by (simp add: sha_pad_def pad_72_def be_bytes_576 replicate_numeral)

lemma signet_challenge_hash:
  "DoubleHashB ([71] @ DefaultSignetChallenge) =
     [0x0a, 0x03, 0xcf, 0x40, 0x0f, 0xc1, 0xba, 0x4f, 0x47, 0x72, 0x00, 0xd5, 0x86, 0x87, 0xea, 0x1f,
      0x12, 0x86, 0x48, 0xd7, 0xb2, 0x0a, 0xaa, 0xcf, 0x38, 0xc5, 0x90, 0xfc, 0x72, 0x84, 0x33, 0xdf]"
  unfolding DoubleHashB_def Let_def DefaultSignetChallenge_bytes
  by (rule double_digest_eqI [where n = 2, OF sha_pad_72], simp, simp add: pad_72_def,
      unfold pad_72_def append_Cons append_Nil sha_literals, code_simp)

lemma signet_net: "Net SigNetParams = 0x40cf030a"
proof -
  have l: "length DefaultSignetChallenge = 71" by (simp add: DefaultSignetChallenge_bytes)
  have "Net SigNetParams = of_le_bytes (take 4 (DoubleHashB ([71] @ DefaultSignetChallenge)))"
    by (simp add: SigNetParams_def CustomSignetParams_def l Let_def)
  then show ?thesis unfolding signet_challenge_hash by simp
qed

section \<open>Properties\<close>

lemma TestNet3Params_ok:
  obtains p where "TestNet3Params = Inr p" "GenesisBlock p = Some testNet3GenesisBlock" "GenesisHash p = Some testNet3GenesisHash"
    "PowLimit p = Some testNet3PowLimit" "PowLimitBits p = 0x1d00ffff" "RuleChangeActivationThreshold p = 1512"
    "MinerConfirmationWindow p = 2016" "Net p = TestNet3" "Name p = ''testnet3''" "DefaultPort p = ''18333''"
    "Deployments p = [deployment 28 0 0 (time_Unix 1199145601) (time_Unix 1230767999),
           deployment 22 1815 100000 zero_time zero_time,
           deployment 0 0 0 (time_Unix 1456790400) (time_Unix 1493596800),
           deployment 1 0 0 (time_Unix 1462060800) (time_Unix 1493596800)]"
    "map cp_Height (Checkpoints p) = map fst testNet3Checkpoints"
    "map (\<lambda>c. map_option hash_String (cp_Hash c)) (Checkpoints p) = map (\<lambda>c. Some (snd c)) testNet3Checkpoints"
proof -
  obtain cps where "checkpoints_of testNet3Checkpoints = Inr cps" "map cp_Height cps = map fst testNet3Checkpoints"
    "map (\<lambda>c. map_option hash_String (cp_Hash c)) cps = map (\<lambda>c. Some (map lower (snd c))) testNet3Checkpoints"
    using checkpoints_of_ok [OF testNet3_checkpoints] by blast
  moreover have "map (\<lambda>c. Some (map lower (snd c))) testNet3Checkpoints = map (\<lambda>c. Some (snd c)) testNet3Checkpoints"
    using arg_cong [OF testNet3_lower, of "map Some"] by (simp add: o_def)
  ultimately show ?thesis using that by (simp add: TestNet3Params_def)
qed

lemma sorted_heights: "sorted_wrt (\<lambda>a b. sint (f a) < sint (f b)) xs \<longleftrightarrow> sorted_wrt (\<lambda>a b. sint a < sint b) (map f xs)"
  by (simp add: sorted_wrt_map)

lemma genesis_bits:
  "Bits (Header testNet3GenesisBlock) = 0x1d00ffff" "Bits (Header simNetGenesisBlock) = 0x207fffff"
  "Bits (Header sigNetGenesisBlock) = 0x1e0377ae"
  by (simp_all add: testNet3GenesisBlock_def simNetGenesisBlock_def sigNetGenesisBlock_def)

lemmas consistency = consistent_params_def MsgBlock_BlockHash_def genesis_bits targets hash_numbers deployment_def
  testNet3GenesisBlock_hash simNetGenesisBlock_hash sigNetGenesisBlock_hash DefinedDeployments_def

lemma hashes_present:
  assumes "map (\<lambda>c. map_option hash_String (cp_Hash c)) cps = map (\<lambda>c. Some (snd c)) xs"
  shows "list_all (\<lambda>c. cp_Hash c \<noteq> None) cps"
proof -
  have "\<forall>x \<in> set (map (\<lambda>c. map_option hash_String (cp_Hash c)) cps). x \<noteq> None" unfolding assms by simp
  then show ?thesis by (auto simp: list_all_iff)
qed

lemma consistent_TestNet3: "\<exists>p. TestNet3Params = Inr p \<and> consistent_params p"
proof (rule TestNet3Params_ok)
  fix p
  assume p: "TestNet3Params = Inr p" "GenesisBlock p = Some testNet3GenesisBlock" "GenesisHash p = Some testNet3GenesisHash"
    "PowLimit p = Some testNet3PowLimit" "PowLimitBits p = 0x1d00ffff" "RuleChangeActivationThreshold p = 1512"
    "MinerConfirmationWindow p = 2016"
    "Deployments p = [deployment 28 0 0 (time_Unix 1199145601) (time_Unix 1230767999),
           deployment 22 1815 100000 zero_time zero_time,
           deployment 0 0 0 (time_Unix 1456790400) (time_Unix 1493596800),
           deployment 1 0 0 (time_Unix 1462060800) (time_Unix 1493596800)]"
    and h: "map cp_Height (Checkpoints p) = map fst testNet3Checkpoints"
    and s: "map (\<lambda>c. map_option hash_String (cp_Hash c)) (Checkpoints p) = map (\<lambda>c. Some (snd c)) testNet3Checkpoints"
  have "sorted_wrt (\<lambda>a b. sint (cp_Height a) < sint (cp_Height b)) (Checkpoints p)"
    unfolding sorted_heights [of cp_Height] h by (rule testNet3_heights)
  with hashes_present [OF s] have "consistent_params p" by (simp add: consistency p)
  then show ?thesis using p(1) by (intro exI conjI)
qed

text \<open>
  The initialisation of the package does not panic, and the parameters of the test, the simulation and
  every signet network are consistent. The default signet network has the magic number that Bitcoin
  Core gives it. The main and the regression test network are empty: their parameters are not
  consistent and both have the magic number 0.
\<close>

theorem network_parameters:
  "(\<exists>p. TestNet3Params = Inr p \<and> consistent_params p) \<and> consistent_params SimNetParams \<and>
   consistent_params (CustomSignetParams challenge seeds) \<and> Net SigNetParams = 0x40cf030a \<and>
   \<not> consistent_params MainNetParams \<and> \<not> consistent_params RegressionNetParams \<and>
   Net MainNetParams = Net RegressionNetParams"
proof -
  have "consistent_params SimNetParams"
    by (simp add: consistency SimNetParams_def)
  moreover have "consistent_params (CustomSignetParams challenge seeds)"
    by (simp add: consistency CustomSignetParams_def Let_def)
  ultimately show ?thesis
    using consistent_TestNet3 signet_net
    by (simp add: consistent_params_def MainNetParams_def RegressionNetParams_def zero_Params_def)
qed

end
