(* ===== verification/Config_Text.thy ===== *)
theory Config_Text
  imports Float64 Chaincfg "HOL-Library.List_Lexorder"
begin

text \<open>
  The text functions of the configuration (\<^verbatim>\<open>config.go\<close>, \<^verbatim>\<open>version.go\<close>, \<^verbatim>\<open>acbcutil/appdata.go\<close>) with what they
  use of packages strings, strconv, net, os and \<^verbatim>\<open>path/filepath\<close>.
\<close>

section \<open>Strings\<close>

definition contains_char :: "char \<Rightarrow> string \<Rightarrow> bool" where
  "contains_char c s \<longleftrightarrow> c \<in> set s"

text \<open>\<^verbatim>\<open>strings.Split\<close> with a separator of one byte: never empty.\<close>

primrec split_char :: "char \<Rightarrow> string \<Rightarrow> string list" where
  "split_char sep [] = [[]]"
| "split_char sep (c # s) =
     (if c = sep then [] # split_char sep s
      else (case split_char sep s of [] \<Rightarrow> [[c]] | p # ps \<Rightarrow> (c # p) # ps))"

definition has_prefix :: "string \<Rightarrow> string \<Rightarrow> bool" where
  "has_prefix s p \<longleftrightarrow> take (length p) s = p"

definition has_suffix :: "string \<Rightarrow> string \<Rightarrow> bool" where
  "has_suffix s p \<longleftrightarrow> length p \<le> length s \<and> drop (length s - length p) s = p"

primrec contains_string :: "string \<Rightarrow> string \<Rightarrow> bool" where
  "contains_string [] p \<longleftrightarrow> p = []"
| "contains_string (c # s) p \<longleftrightarrow> has_prefix (c # s) p \<or> contains_string s p"

primrec join_strings :: "string \<Rightarrow> string list \<Rightarrow> string" where
  "join_strings sep [] = []"
| "join_strings sep (s # ss) = (if ss = [] then s else s @ sep @ join_strings sep ss)"

text \<open>\<^verbatim>\<open>strconv.ParseInt(s, 10, bits)\<close>; a number out of range is an error too.\<close>

definition ParseInt10 :: "nat \<Rightarrow> string \<Rightarrow> int option" where
  "ParseInt10 bits s =
     (let (neg, ds) = (case s of
            [] \<Rightarrow> (False, [])
          | c # t \<Rightarrow> if c = CHR ''+'' then (False, t) else if c = CHR ''-'' then (True, t) else (False, s));
          n = (if neg then - digits_value ds else digits_value ds)
      in if ds \<noteq> [] \<and> list_all is_digit ds \<and> - (2 ^ (bits - 1)) \<le> n \<and> n < 2 ^ (bits - 1) then Some n else None)"

definition Atoi :: "string \<Rightarrow> int option" where
  "Atoi s = ParseInt10 64 s"

section \<open>Addresses\<close>

text \<open>The byte index of the last and of the first occurrence of a character.\<close>

definition last_index :: "char \<Rightarrow> string \<Rightarrow> nat option" where
  "last_index c s = (if c \<in> set s then Some (length s - 1 - length (takeWhile (\<lambda>d. d \<noteq> c) (rev s))) else None)"

definition first_index :: "char \<Rightarrow> string \<Rightarrow> nat option" where
  "first_index c s = (if c \<in> set s then Some (length (takeWhile (\<lambda>d. d \<noteq> c) s)) else None)"

text \<open>\<^verbatim>\<open>net.SplitHostPort\<close>, with the reason and the address of an error.\<close>

definition addr_error :: "string \<Rightarrow> string \<Rightarrow> string" where
  "addr_error why addr = (if addr = [] then why else ''address '' @ addr @ '': '' @ why)"

definition SplitHostPort_rest :: "string \<Rightarrow> nat \<Rightarrow> string \<Rightarrow> nat \<Rightarrow> nat \<Rightarrow> string + string \<times> string" where
  "SplitHostPort_rest hostport i host j k =
     (if CHR ''['' \<in> set (drop j hostport) then Inl (addr_error ''unexpected '[' in address'' hostport)
      else if CHR '']'' \<in> set (drop k hostport) then Inl (addr_error ''unexpected ']' in address'' hostport)
      else Inr (host, drop (i + 1) hostport))"

definition SplitHostPort :: "string \<Rightarrow> string + string \<times> string" where
  "SplitHostPort hostport =
     (case last_index (CHR '':'') hostport of
        None \<Rightarrow> Inl (addr_error ''missing port in address'' hostport)
      | Some i \<Rightarrow>
          if hd hostport = CHR ''['' then
            (case first_index (CHR '']'') hostport of
               None \<Rightarrow> Inl (addr_error ''missing ']' in address'' hostport)
             | Some end1 \<Rightarrow>
                 if end1 + 1 = length hostport then Inl (addr_error ''missing port in address'' hostport)
                 else if end1 + 1 = i then
                   SplitHostPort_rest hostport i (take (end1 - 1) (drop 1 hostport)) 1 (end1 + 1)
                 else if hostport ! (end1 + 1) = CHR '':'' then Inl (addr_error ''too many colons in address'' hostport)
                 else Inl (addr_error ''missing port in address'' hostport))
          else
            let host = take i hostport in
            if CHR '':'' \<in> set host then Inl (addr_error ''too many colons in address'' hostport)
            else SplitHostPort_rest hostport i host 0 0)"

definition JoinHostPort :: "string \<Rightarrow> string \<Rightarrow> string" where
  "JoinHostPort host port =
     (if CHR '':'' \<in> set host then ''['' @ host @ '']:'' @ port else host @ '':'' @ port)"

primrec removeDuplicateAddresses_loop :: "string list \<Rightarrow> string list \<Rightarrow> string set \<Rightarrow> string list" where
  "removeDuplicateAddresses_loop [] result seen = result"
| "removeDuplicateAddresses_loop (val # addrs) result seen =
     (if val \<notin> seen then removeDuplicateAddresses_loop addrs (result @ [val]) (insert val seen)
      else removeDuplicateAddresses_loop addrs result seen)"

definition removeDuplicateAddresses :: "string list \<Rightarrow> string list" where
  "removeDuplicateAddresses addrs = removeDuplicateAddresses_loop addrs [] {}"

definition normalizeAddress :: "string \<Rightarrow> string \<Rightarrow> string" where
  "normalizeAddress addr defaultPort =
     (case SplitHostPort addr of Inl err \<Rightarrow> JoinHostPort addr defaultPort | Inr _ \<Rightarrow> addr)"

definition normalizeAddresses :: "string list \<Rightarrow> string \<Rightarrow> string list" where
  "normalizeAddresses addrs defaultPort =
     removeDuplicateAddresses (map (\<lambda>addr. normalizeAddress addr defaultPort) addrs)"

section \<open>Checkpoints\<close>

definition newCheckpointFromStr :: "string \<Rightarrow> string + Checkpoint" where
  "newCheckpointFromStr checkpoint =
     (let err = (\<lambda>why. Inl (''unable to parse checkpoint '' @ fmt_q checkpoint @ why)) in
      case split_char (CHR '':'') checkpoint of
        [p0, p1] \<Rightarrow>
          (case ParseInt10 32 p0 of
             None \<Rightarrow> err '' due to malformed height''
           | Some height \<Rightarrow>
               if p1 = [] then err '' due to missing hash''
               else
                 (case NewHashFromStr p1 of
                    Inl _ \<Rightarrow> err '' due to malformed hash''
                  | Inr hash \<Rightarrow> Inr \<lparr>cp_Height = word_of_int height, cp_Hash = Some hash\<rparr>))
      | _ \<Rightarrow> err '' -- use the syntax <height>:<hash>'')"

primrec parseCheckpoints :: "string list \<Rightarrow> string + Checkpoint list" where
  "parseCheckpoints [] = Inr []"
| "parseCheckpoints (cpString # rest) =
     bindR (newCheckpointFromStr cpString) (\<lambda>checkpoint.
       bindR (parseCheckpoints rest) (\<lambda>checkpoints. Inr (checkpoint # checkpoints)))"

section \<open>Log levels\<close>

definition validLogLevel :: "string \<Rightarrow> bool" where
  "validLogLevel logLevel =
     (if logLevel = ''trace'' then True
      else if logLevel = ''debug'' then True
      else if logLevel = ''info'' then True
      else if logLevel = ''warn'' then True
      else if logLevel = ''error'' then True
      else if logLevel = ''critical'' then True
      else False)"

definition subsystem_ids :: "string list" where
  "subsystem_ids =
     [''ADXR'', ''AMGR'', ''CMGR'', ''BCDB'', ''ACBC'', ''CHAN'', ''DISC'', ''INDX'', ''MINR'', ''PEER'', ''RPCS'',
      ''SCRP'', ''SRVR'', ''SYNC'', ''TXMP'']"

text \<open>\<open>sort.Strings\<close> on the keys.\<close>

definition supportedSubsystems :: "string list" where
  "supportedSubsystems = sort subsystem_ids"

text \<open>
  The level of each logger. \<open>levelOf\<close> is \<^verbatim>\<open>btclog.LevelFromString\<close>, whose second result is ignored.
\<close>

type_synonym 'l levels = "string \<rightharpoonup> 'l"

definition setLogLevel :: "(string \<Rightarrow> 'l) \<Rightarrow> string \<Rightarrow> string \<Rightarrow> 'l levels \<Rightarrow> 'l levels" where
  "setLogLevel levelOf subsystemID logLevel loggers =
     (case loggers subsystemID of None \<Rightarrow> loggers | Some _ \<Rightarrow> loggers(subsystemID \<mapsto> levelOf logLevel))"

definition setLogLevels :: "(string \<Rightarrow> 'l) \<Rightarrow> string \<Rightarrow> 'l levels \<Rightarrow> 'l levels" where
  "setLogLevels levelOf logLevel loggers =
     fold (\<lambda>subsystemID. setLogLevel levelOf subsystemID logLevel) subsystem_ids loggers"

datatype level_error =
    InvalidLevel string
  | InvalidPair string
  | InvalidSubsystem string "string list"

text \<open>The loop leaves the levels of the pairs before the first invalid one changed.\<close>

primrec debug_level_loop :: "(string \<Rightarrow> 'l) \<Rightarrow> string list \<Rightarrow> 'l levels \<Rightarrow> level_error option \<times> 'l levels" where
  "debug_level_loop levelOf [] loggers = (None, loggers)"
| "debug_level_loop levelOf (logLevelPair # pairs) loggers =
     (if \<not> contains_char (CHR ''='') logLevelPair then (Some (InvalidPair logLevelPair), loggers)
      else
        let fields = split_char (CHR ''='') logLevelPair; subsysID = fields ! 0; logLevel = fields ! 1 in
        if loggers subsysID = None then (Some (InvalidSubsystem subsysID supportedSubsystems), loggers)
        else if \<not> validLogLevel logLevel then (Some (InvalidLevel logLevel), loggers)
        else debug_level_loop levelOf pairs (setLogLevel levelOf subsysID logLevel loggers))"

definition parseAndSetDebugLevels :: "(string \<Rightarrow> 'l) \<Rightarrow> string \<Rightarrow> 'l levels \<Rightarrow> level_error option \<times> 'l levels" where
  "parseAndSetDebugLevels levelOf debugLevel loggers =
     (if \<not> contains_char (CHR '','') debugLevel \<and> \<not> contains_char (CHR ''='') debugLevel then
        if \<not> validLogLevel debugLevel then (Some (InvalidLevel debugLevel), loggers)
        else (None, setLogLevels levelOf debugLevel loggers)
      else debug_level_loop levelOf (split_char (CHR '','') debugLevel) loggers)"

section \<open>Paths\<close>

text \<open>
  \<^verbatim>\<open>filepath.Clean\<close> and \<^verbatim>\<open>filepath.Join\<close> with slashes: empty elements and dots go, dot-dot takes the element
  before it, at the root it goes too.
\<close>

primrec clean_elements :: "bool \<Rightarrow> string list \<Rightarrow> string list \<Rightarrow> string list" where
  "clean_elements rooted out [] = rev out"
| "clean_elements rooted out (e # es) =
     (if e = [] \<or> e = ''.'' then clean_elements rooted out es
      else if e = ''..'' then
        (if out \<noteq> [] \<and> hd out \<noteq> ''..'' then clean_elements rooted (tl out) es
         else if rooted then clean_elements rooted out es
         else clean_elements rooted (''..'' # out) es)
      else clean_elements rooted (e # out) es)"

definition filepath_Clean :: "string \<Rightarrow> string" where
  "filepath_Clean path =
     (let rooted = has_prefix path ''/'';
          elements = clean_elements rooted [] (split_char (CHR ''/'') path)
      in if rooted then CHR ''/'' # join_strings ''/'' elements
         else if elements = [] then ''.'' else join_strings ''/'' elements)"

definition filepath_Join :: "string list \<Rightarrow> string" where
  "filepath_Join elem =
     (let elem = dropWhile (\<lambda>e. e = []) elem
      in if elem = [] then [] else filepath_Clean (join_strings ''/'' elem))"

text \<open>\<^verbatim>\<open>filepath.Dir\<close> is the cleaned part before the last slash.\<close>

definition filepath_Dir :: "string \<Rightarrow> string" where
  "filepath_Dir path = filepath_Clean (rev (dropWhile (\<lambda>c. c \<noteq> CHR ''/'') (rev path)))"

text \<open>\<^verbatim>\<open>os.ExpandEnv\<close>: the name behind a dollar sign, and how many bytes it takes.\<close>

definition isShellSpecialVar :: "char \<Rightarrow> bool" where
  "isShellSpecialVar c \<longleftrightarrow> c \<in> set ''*#$@!?-'' \<or> is_digit c"

definition isAlphaNum :: "char \<Rightarrow> bool" where
  "isAlphaNum c \<longleftrightarrow> c = CHR ''_'' \<or> is_digit c \<or> CHR ''a'' \<le> c \<and> c \<le> CHR ''z'' \<or> CHR ''A'' \<le> c \<and> c \<le> CHR ''Z''"

definition getShellName :: "string \<Rightarrow> string \<times> nat" where
  "getShellName s =
     (if hd s = CHR ''{'' then
        if length s > 2 \<and> isShellSpecialVar (s ! 1) \<and> s ! 2 = CHR ''}'' then ([s ! 1], 3)
        else (case first_index (CHR ''}'') s of
            None \<Rightarrow> ([], 1)
          | Some i \<Rightarrow> if i = 1 then ([], 2) else (take (i - 1) (drop 1 s), i + 1))
      else if isShellSpecialVar (hd s) then ([hd s], 1)
      else let name = takeWhile isAlphaNum s in (name, length name))"

function ExpandEnv :: "(string \<Rightarrow> string) \<Rightarrow> string \<Rightarrow> string" where
  "ExpandEnv getenv [] = []"
| "ExpandEnv getenv (c # s) =
     (if c = CHR ''$'' \<and> s \<noteq> [] then
        let (name, w) = getShellName s in
        (if name = [] \<and> w > 0 then [] else if name = [] then [c] else getenv name) @ ExpandEnv getenv (drop w s)
      else c # ExpandEnv getenv s)"
  by pat_completeness auto
termination by (relation "measure (length \<circ> snd)") (auto simp: le_imp_less_Suc)

declare ExpandEnv.simps(2) [simp del]

definition cleanAndExpandPath :: "(string \<Rightarrow> string) \<Rightarrow> string \<Rightarrow> string \<Rightarrow> string" where
  "cleanAndExpandPath getenv defaultHomeDir path =
     (let path = (if has_prefix path ''~'' then filepath_Dir defaultHomeDir @ drop 1 path else path)
      in filepath_Clean (ExpandEnv getenv path))"

text \<open>
  \<^verbatim>\<open>appDataDir\<close>: \<open>usr_home\<close> is the home directory of the current user, \<open>None\<close> when it is not known. Only the
  letters of ASCII change their case here.
\<close>

definition char_upper :: "char \<Rightarrow> char" where
  "char_upper c = (if CHR ''a'' \<le> c \<and> c \<le> CHR ''z'' then char_of (of_char c - (32 :: nat)) else c)"

definition char_lower :: "char \<Rightarrow> char" where
  "char_lower c = (if CHR ''A'' \<le> c \<and> c \<le> CHR ''Z'' then char_of (of_char c + (32 :: nat)) else c)"

definition appDataDir :: "string option \<Rightarrow> (string \<Rightarrow> string) \<Rightarrow> string \<Rightarrow> string \<Rightarrow> bool \<Rightarrow> string" where
  "appDataDir usr_home getenv goos appName roaming =
     (if appName = [] \<or> appName = ''.'' then ''.''
      else
        let appName = (if has_prefix appName ''.'' then drop 1 appName else appName);
            appNameUpper = char_upper (hd appName) # tl appName;
            appNameLower = char_lower (hd appName) # tl appName;
            homeDir = (case usr_home of None \<Rightarrow> getenv ''HOME'' | Some h \<Rightarrow> if h = [] then getenv ''HOME'' else h)
        in if goos = ''windows'' then
             let appData = getenv ''LOCALAPPDATA'';
                 appData = (if roaming \<or> appData = [] then getenv ''APPDATA'' else appData)
             in if appData \<noteq> [] then filepath_Join [appData, appNameUpper] else ''.''
           else if goos = ''darwin'' then
             if homeDir \<noteq> [] then filepath_Join [homeDir, ''Library'', ''Application Support'', appNameUpper] else ''.''
           else if goos = ''plan9'' then
             if homeDir \<noteq> [] then filepath_Join [homeDir, appNameLower] else ''.''
           else if homeDir \<noteq> [] then filepath_Join [homeDir, ''.'' @ appNameLower] else ''.'')"

section \<open>The version\<close>

definition semanticAlphabet :: string where
  "semanticAlphabet = ''0123456789ABCDEFGHIJKLMNOPQRSTUVWXYZabcdefghijklmnopqrstuvwxyz-''"

definition normalizeVerString :: "string \<Rightarrow> string" where
  "normalizeVerString str = filter (\<lambda>r. r \<in> set semanticAlphabet) str"

definition appPreRelease :: string where "appPreRelease = ''beta''"

definition version :: "string \<Rightarrow> string" where
  "version appBuild =
     (let v = fmt_d 0 @ ''.'' @ fmt_d 22 @ ''.'' @ fmt_d 0;
          preRelease = normalizeVerString appPreRelease;
          v = (if preRelease \<noteq> [] then v @ ''-'' @ preRelease else v);
          build = normalizeVerString appBuild
      in if build \<noteq> [] then v @ ''+'' @ build else v)"

section \<open>The default configuration file\<close>

text \<open>\<^verbatim>\<open>ReadString\<close> up to a line feed, with \<open>True\<close> at the end of the file.\<close>

definition ReadString_lf :: "string \<Rightarrow> string \<times> string \<times> bool" where
  "ReadString_lf s =
     (case dropWhile (\<lambda>c. c \<noteq> CHR 0x0A) s of
        [] \<Rightarrow> (s, [], True)
      | lf # rest \<Rightarrow> (takeWhile (\<lambda>c. c \<noteq> CHR 0x0A) s @ [lf], rest, False))"

definition config_line :: "string \<Rightarrow> string \<Rightarrow> string \<Rightarrow> string" where
  "config_line generatedRPCUser generatedRPCPass line =
     (if contains_string line ''rpcuser='' then ''rpcuser='' @ generatedRPCUser @ [CHR 0x0A]
      else if contains_string line ''rpcpass='' then ''rpcpass='' @ generatedRPCPass @ [CHR 0x0A]
      else line)"

function copy_config :: "string \<Rightarrow> string \<Rightarrow> string \<Rightarrow> string" where
  "copy_config user pass src =
     (let (line, rest, eof) = ReadString_lf src
      in config_line user pass line @ (if eof then [] else copy_config user pass rest))"
  by pat_completeness auto
termination
proof (relation "measure (\<lambda>(_, _, s). length s)")
  fix user pass src x line y rest eof
  assume "x = ReadString_lf src" "(line, y) = x" "(rest, eof) = y" "\<not> eof"
  then show "((user, pass, rest), (user, pass, src)) \<in> measure (\<lambda>(_, _, s). length s)"
    using length_dropWhile_le [of "\<lambda>c. c \<noteq> CHR 0x0A" src] by (auto simp: ReadString_lf_def split: list.splits)
qed simp

declare copy_config.simps [simp del]

text \<open>The content of the file from that of the sample and the two readings of 20 random bytes.\<close>

definition createDefaultConfigFile :: "bytes \<Rightarrow> bytes \<Rightarrow> string \<Rightarrow> string" where
  "createDefaultConfigFile random1 random2 sample =
     copy_config (base64_EncodeToString random1) (base64_EncodeToString random2) sample"

definition validDbType :: "string \<Rightarrow> bool" where
  "validDbType dbType \<longleftrightarrow> dbType \<in> set [''levelDB'', ''mongoDB'', ''ffldb'']"

section \<open>Splitting\<close>

lemma split_char_not_Nil [simp]: "split_char sep s \<noteq> []"
  by (cases s) (auto split: list.splits)

lemma split_char_none: "sep \<notin> set s \<Longrightarrow> split_char sep s = [s]"
  by (induction s) auto

lemma split_char_append: "sep \<notin> set s \<Longrightarrow> split_char sep (s @ sep # t) = s # split_char sep t"
  by (induction s) auto

lemma split_char_parts: "p \<in> set (split_char sep s) \<Longrightarrow> sep \<notin> set p"
proof (induction s arbitrary: p)
  case (Cons c s)
  then show ?case by (auto split: if_splits list.splits)
qed simp

lemma ParseInt10_fmt_d:
  assumes "- (2 ^ (bits - 1)) \<le> i" and "i < 2 ^ (bits - 1)"
  shows "ParseInt10 bits (fmt_d i) = Some i"
proof -
  obtain c cs where n: "fmt_nat 10 (nat i) = c # cs" "is_digit c" "list_all is_digit cs" "digits_value (c # cs) = int (nat i)"
    using fmt_nat_decimal [of "nat i"] by (cases "fmt_nat 10 (nat i)") auto
  have "c \<noteq> CHR ''+''" "c \<noteq> CHR ''-''" using n(2) by (auto simp: is_digit_def less_eq_char_def)
  then show ?thesis
    using assms n fmt_nat_decimal [of "nat (- i)"] by (auto simp: ParseInt10_def fmt_d_def)
qed

lemma fmt_d_chars: "CHR '':'' \<notin> set (fmt_d i)"
proof -
  have "\<not> is_digit (CHR '':'')" by code_simp
  then show ?thesis
    using fmt_nat_decimal [of "nat i"] fmt_nat_decimal [of "nat (- i)"] by (auto simp: fmt_d_def list_all_iff)
qed

section \<open>Facts on addresses\<close>

lemma takeWhile_until: "c \<notin> set h \<Longrightarrow> takeWhile (\<lambda>d. d \<noteq> c) (h @ c # p) = h"
  by (induction h) auto

lemma dropWhile_until: "c \<notin> set h \<Longrightarrow> dropWhile (\<lambda>d. d \<noteq> c) (h @ c # p) = c # p"
  by (induction h) auto

lemma last_index_append: "c \<notin> set p \<Longrightarrow> last_index c (h @ c # p) = Some (length h)"
  using takeWhile_until [of c "rev p" "rev h"] by (simp add: last_index_def)

definition plain_text :: "string \<Rightarrow> bool" where
  "plain_text s \<longleftrightarrow> CHR ''['' \<notin> set s \<and> CHR '']'' \<notin> set s"

definition plain_port :: "string \<Rightarrow> bool" where
  "plain_port p \<longleftrightarrow> plain_text p \<and> CHR '':'' \<notin> set p"

lemma SplitHostPort_plain:
  assumes "CHR '':'' \<notin> set host" and "plain_text host" and "plain_port port"
  shows "SplitHostPort (host @ '':'' @ port) = Inr (host, port)"
proof -
  have "hd (host @ CHR '':'' # port) \<noteq> CHR ''[''" using assms(2) by (cases host) (auto simp: plain_text_def)
  then show ?thesis
    using assms last_index_append [of "CHR '':''" port host]
    by (auto simp: SplitHostPort_def SplitHostPort_rest_def plain_text_def plain_port_def Let_def)
qed

lemma first_index_char_append: "c \<notin> set h \<Longrightarrow> first_index c (h @ c # p) = Some (length h)"
  by (simp add: first_index_def takeWhile_until)

lemma SplitHostPort_brackets:
  assumes "plain_text host" and "plain_port port"
  shows "SplitHostPort (''['' @ host @ '']:'' @ port) = Inr (host, port)"
proof -
  let ?a = "CHR ''['' # host @ CHR '']'' # CHR '':'' # port"
  have l: "last_index (CHR '':'') ?a = Some (length host + 2)"
    using last_index_append [of "CHR '':''" port "CHR ''['' # host @ '']''"] assms(2) by (simp add: plain_port_def)
  have f: "first_index (CHR '']'') ?a = Some (length host + 1)"
    using first_index_char_append [of "CHR '']''" "CHR ''['' # host" "CHR '':'' # port"] assms(1) by (simp add: plain_text_def)
  show ?thesis
    using assms by (auto simp: SplitHostPort_def l f SplitHostPort_rest_def plain_text_def plain_port_def)
qed

lemma SplitHostPort_JoinHostPort:
  "plain_text host \<Longrightarrow> plain_port port \<Longrightarrow> SplitHostPort (JoinHostPort host port) = Inr (host, port)"
  using SplitHostPort_plain SplitHostPort_brackets by (simp add: JoinHostPort_def)

lemma normalizeAddress_splits:
  assumes "plain_text addr" and "plain_port port"
  shows "\<exists>h p. SplitHostPort (normalizeAddress addr port) = Inr (h, p)"
  using SplitHostPort_JoinHostPort [OF assms] by (cases "SplitHostPort addr") (auto simp: normalizeAddress_def)

lemma removeDuplicateAddresses_loop_eq:
  "seen = set result \<Longrightarrow> distinct result \<Longrightarrow>
   distinct (removeDuplicateAddresses_loop addrs result seen) \<and>
   set (removeDuplicateAddresses_loop addrs result seen) = set result \<union> set addrs \<and>
   (distinct (result @ addrs) \<longrightarrow> removeDuplicateAddresses_loop addrs result seen = result @ addrs)"
proof (induction addrs arbitrary: result seen)
  case (Cons a addrs)
  then show ?case using Cons.IH [of "insert a seen" "result @ [a]"] Cons.IH [of seen result] by auto
qed simp

lemma removeDuplicateAddresses_eq:
  "distinct (removeDuplicateAddresses addrs)" "set (removeDuplicateAddresses addrs) = set addrs"
  "distinct addrs \<Longrightarrow> removeDuplicateAddresses addrs = addrs"
  using removeDuplicateAddresses_loop_eq [of "{}" "[]" addrs] by (simp_all add: removeDuplicateAddresses_def)

lemma normalizeAddress_idem:
  "SplitHostPort a = Inr (h, p) \<Longrightarrow> normalizeAddress a port = a"
  by (simp add: normalizeAddress_def)

text \<open>
  Addresses without brackets come out distinct, each with a host and a port, and normalizing them
  again changes nothing.
\<close>

theorem normalizeAddresses_normal:
  assumes "\<forall>a \<in> set addrs. plain_text a" and "plain_port port"
  shows "distinct (normalizeAddresses addrs port) \<and>
    set (normalizeAddresses addrs port) = (\<lambda>a. normalizeAddress a port) ` set addrs \<and>
    (\<forall>a \<in> set (normalizeAddresses addrs port). \<exists>h p. SplitHostPort a = Inr (h, p)) \<and>
    normalizeAddresses (normalizeAddresses addrs port) port = normalizeAddresses addrs port"
proof -
  let ?n = "normalizeAddresses addrs port"
  have d: "distinct ?n" and s: "set ?n = (\<lambda>a. normalizeAddress a port) ` set addrs"
    by (simp_all add: normalizeAddresses_def removeDuplicateAddresses_eq)
  have hp: "\<forall>a \<in> set ?n. \<exists>h p. SplitHostPort a = Inr (h, p)"
    unfolding s using assms normalizeAddress_splits by blast
  then have "map (\<lambda>a. normalizeAddress a port) ?n = ?n"
    by (intro map_idI) (auto dest!: normalizeAddress_idem)
  then have "normalizeAddresses ?n port = ?n"
    using d by (simp add: normalizeAddresses_def [of ?n] removeDuplicateAddresses_eq)
  with d s hp show ?thesis by blast
qed

theorem normalizeAddresses_normal_witness:
  "normalizeAddresses [''::1'', ''example.org'', ''a:1'', ''example.org:8333''] ''8333'' = [''[::1]:8333'', ''example.org:8333'', ''a:1''] \<and>
   normalizeAddresses [''[::1]:8333'', ''example.org:8333'', ''a:1''] ''8333'' = [''[::1]:8333'', ''example.org:8333'', ''a:1'']"
proof -
  have n: "normalizeAddresses [''::1'', ''example.org'', ''a:1'', ''example.org:8333''] ''8333'' =
      [''[::1]:8333'', ''example.org:8333'', ''a:1'']"
    by code_simp
  have "\<forall>a \<in> set [''::1'', ''example.org'', ''a:1'', ''example.org:8333'']. plain_text a" "plain_port ''8333''"
    by (simp_all add: plain_text_def plain_port_def)
  from normalizeAddresses_normal [OF this] show ?thesis unfolding n by blast
qed

text \<open>An IPv6 address in brackets and without a port becomes one that cannot be split.\<close>

lemma normalizeAddress_bracketed:
  "normalizeAddress ''[::1]'' ''8333'' = ''[[::1]]:8333''"
  "SplitHostPort ''[[::1]]:8333'' = Inl ''address [[::1]]:8333: missing port in address''"
  by code_simp+

section \<open>Facts on checkpoints\<close>

lemma hash_String_chars:
  assumes "wf_hash h"
  shows "CHR '':'' \<notin> set (hash_String h)" and "hash_String h \<noteq> []"
proof -
  have "set (hash_String h) \<subseteq> hex_digit ` {..<16}"
    using unat_nibble_less by (auto simp: hash_String_rev [OF assms] hex_EncodeToString_def)
  moreover have "CHR '':'' \<notin> hex_digit ` {..<16}"
  proof -
    have "list_all (\<lambda>n. hex_digit n \<noteq> CHR '':'') [0..<16]" by code_simp
    then show ?thesis by (auto simp: list_all_iff)
  qed
  ultimately show "CHR '':'' \<notin> set (hash_String h)" by blast
  show "hash_String h \<noteq> []" using length_hash_String [OF assms] by (auto simp: MaxHashStringSize_def HashSize_def)
qed

text \<open>
  A checkpoint written as its height, a colon and the text form of its hash is read back, for every
  height of 32 bits and every hash.
\<close>

theorem newCheckpointFromStr_text:
  assumes "wf_hash h"
  shows "newCheckpointFromStr (fmt_d (sint height) @ '':'' @ hash_String h) = Inr \<lparr>cp_Height = height, cp_Hash = Some h\<rparr>"
proof -
  have s: "split_char (CHR '':'') (fmt_d (sint height) @ CHR '':'' # hash_String h) = [fmt_d (sint height), hash_String h]"
    using fmt_d_chars hash_String_chars(1) [OF assms] by (simp add: split_char_append split_char_none)
  have "ParseInt10 32 (fmt_d (sint height)) = Some (sint height)"
    using sint_lt [of height] sint_ge [of height] by (intro ParseInt10_fmt_d) simp_all
  then show ?thesis
    using hash_String_chars(2) [OF assms] NewHashFromStr_String [OF assms]
    by (simp add: newCheckpointFromStr_def s Let_def)
qed

theorem newCheckpointFromStr_text_witness:
  "newCheckpointFromStr (fmt_d (sint (546 :: int32)) @ '':'' @ hash_String testNet3GenesisHash) =
     Inr \<lparr>cp_Height = 546, cp_Hash = Some testNet3GenesisHash\<rparr>"
  using newCheckpointFromStr_text [of testNet3GenesisHash 546]
  by (simp add: wf_hash_def HashSize_def testNet3GenesisHash_def)

section \<open>Facts on log levels\<close>

definition pair_subsystem :: "string \<Rightarrow> string" where "pair_subsystem p = split_char (CHR ''='') p ! 0"
definition pair_level :: "string \<Rightarrow> string" where "pair_level p = split_char (CHR ''='') p ! 1"

definition pair_error :: "'l levels \<Rightarrow> string \<Rightarrow> level_error option" where
  "pair_error loggers p =
     (if CHR ''='' \<notin> set p then Some (InvalidPair p)
      else if loggers (pair_subsystem p) = None then Some (InvalidSubsystem (pair_subsystem p) supportedSubsystems)
      else if \<not> validLogLevel (pair_level p) then Some (InvalidLevel (pair_level p))
      else None)"

definition set_pairs :: "(string \<Rightarrow> 'l) \<Rightarrow> string list \<Rightarrow> 'l levels \<Rightarrow> 'l levels" where
  "set_pairs levelOf ps loggers = fold (\<lambda>p m. m(pair_subsystem p \<mapsto> levelOf (pair_level p))) ps loggers"

lemma pair_error_dom: "dom loggers = dom loggers' \<Longrightarrow> pair_error loggers p = pair_error loggers' p"
proof -
  assume "dom loggers = dom loggers'"
  then have "loggers (pair_subsystem p) = None \<longleftrightarrow> loggers' (pair_subsystem p) = None" by (metis domIff)
  then show ?thesis by (simp add: pair_error_def)
qed

lemma debug_level_loop_eq:
  "debug_level_loop levelOf ps loggers =
     (let ok = takeWhile (\<lambda>p. pair_error loggers p = None) ps; rest = dropWhile (\<lambda>p. pair_error loggers p = None) ps
      in (if rest = [] then None else pair_error loggers (hd rest), set_pairs levelOf ok loggers))"
proof (induction ps arbitrary: loggers)
  case (Cons p ps)
  show ?case
  proof (cases "pair_error loggers p")
    case None
    then obtain l where l: "loggers (pair_subsystem p) = Some l" and "CHR ''='' \<in> set p" "validLogLevel (pair_level p)"
      by (auto simp: pair_error_def split: if_splits)
    let ?m = "loggers(pair_subsystem p \<mapsto> levelOf (pair_level p))"
    have e: "pair_error ?m = pair_error loggers" using l by (intro ext pair_error_dom) auto
    have eq: "debug_level_loop levelOf (p # ps) loggers = debug_level_loop levelOf ps ?m"
      using l \<open>CHR ''='' \<in> set p\<close> \<open>validLogLevel (pair_level p)\<close>
      by (simp add: contains_char_def setLogLevel_def Let_def pair_subsystem_def pair_level_def)
    show ?thesis unfolding eq Cons.IH [of ?m] e using None by (simp add: set_pairs_def Let_def)
  next
    case (Some e)
    then have "debug_level_loop levelOf (p # ps) loggers = (Some e, loggers)"
      by (auto simp: pair_error_def contains_char_def Let_def pair_subsystem_def pair_level_def split: if_splits)
    then show ?thesis using Some by (simp add: set_pairs_def)
  qed
qed (simp add: set_pairs_def)

lemma setLogLevel_fold:
  "set ss \<subseteq> dom m \<Longrightarrow> fold (\<lambda>s. setLogLevel levelOf s d) ss m = (\<lambda>s. if s \<in> set ss then Some (levelOf d) else m s)"
proof (induction ss arbitrary: m)
  case (Cons s ss)
  then have s: "setLogLevel levelOf s d m = m(s \<mapsto> levelOf d)" by (auto simp: setLogLevel_def)
  have "set ss \<subseteq> dom (m(s \<mapsto> levelOf d))" using Cons.prems by auto
  from Cons.IH [OF this] show ?case by (simp only: fold_simps s) auto
qed simp

text \<open>
  C31: A list of pairs sets the levels of the pairs before the first invalid one, in their order, and fails
  with the error of that one; a single level is set for every subsystem, or for none.
\<close>

theorem parseAndSetDebugLevels_spec:
  assumes "dom loggers = set subsystem_ids"
  shows "parseAndSetDebugLevels levelOf d loggers =
    (if CHR '','' \<in> set d \<or> CHR ''='' \<in> set d then
       (let ps = split_char (CHR '','') d;
            ok = takeWhile (\<lambda>p. pair_error loggers p = None) ps; rest = dropWhile (\<lambda>p. pair_error loggers p = None) ps
        in (if rest = [] then None else pair_error loggers (hd rest), set_pairs levelOf ok loggers))
     else if validLogLevel d then (None, \<lambda>s. if s \<in> set subsystem_ids then Some (levelOf d) else None)
     else (Some (InvalidLevel d), loggers))"
proof -
  have "setLogLevels levelOf d loggers = (\<lambda>s. if s \<in> set subsystem_ids then Some (levelOf d) else loggers s)"
    unfolding setLogLevels_def by (rule setLogLevel_fold) (simp add: assms)
  also have "\<dots> = (\<lambda>s. if s \<in> set subsystem_ids then Some (levelOf d) else None)"
    using assms by (intro ext) (metis domIff)
  finally show ?thesis
    by (cases "validLogLevel d"; cases "CHR '','' \<in> set d"; cases "CHR ''='' \<in> set d")
      (simp_all add: parseAndSetDebugLevels_def contains_char_def debug_level_loop_eq Let_def)
qed

definition info_levels :: "string levels" where
  "info_levels s = (if s \<in> set subsystem_ids then Some ''info'' else None)"

theorem parseAndSetDebugLevels_spec_witness:
  "parseAndSetDebugLevels id ''RPCS=debug,RPCS=trace,PEER=loud,SRVR=warn'' info_levels =
     (Some (InvalidLevel ''loud''), info_levels(''RPCS'' \<mapsto> ''trace''))"
proof -
  let ?d = "''RPCS=debug,RPCS=trace,PEER=loud,SRVR=warn''"
  have d: "dom info_levels = set subsystem_ids" by (auto simp: dom_def info_levels_def split: if_splits)
  have s: "split_char (CHR '','') ?d = [''RPCS=debug'', ''RPCS=trace'', ''PEER=loud'', ''SRVR=warn'']" by code_simp
  have e: "pair_error info_levels ''RPCS=debug'' = None" "pair_error info_levels ''RPCS=trace'' = None"
    "pair_error info_levels ''PEER=loud'' = Some (InvalidLevel ''loud'')" by code_simp+
  have p: "set_pairs id [''RPCS=debug'', ''RPCS=trace''] info_levels = info_levels(''RPCS'' \<mapsto> ''trace'')"
    by (simp add: set_pairs_def pair_subsystem_def pair_level_def)
  have c: "CHR '','' \<in> set ?d" by simp
  show ?thesis
    unfolding parseAndSetDebugLevels_spec [OF d, of id ?d]
    by (simp only: s c e p if_True if_False simp_thms Let_def takeWhile.simps dropWhile.simps list.sel list.distinct option.distinct)
qed

section \<open>Facts on the default configuration file\<close>

definition file_lines :: "string \<Rightarrow> string list" where
  "file_lines s = (let ps = split_char (CHR 0x0A) s in map (\<lambda>l. l @ [CHR 0x0A]) (butlast ps) @ [last ps])"

lemma file_lines_lf: "CHR 0x0A \<notin> set l \<Longrightarrow> file_lines (l @ CHR 0x0A # s) = (l @ [CHR 0x0A]) # file_lines s"
  by (simp add: file_lines_def split_char_append Let_def)

text \<open>The copy goes line by line; only lines with one of the two names change.\<close>

theorem copy_config_lines:
  "copy_config user pass s = concat (map (config_line user pass) (file_lines s)) \<and> concat (file_lines s) = s"
proof (induction "length s" arbitrary: s rule: less_induct)
  case less
  show ?case
  proof (cases "CHR 0x0A \<in> set s")
    case True
    then obtain l r where s: "s = l @ CHR 0x0A # r" "CHR 0x0A \<notin> set l" by (auto dest: split_list_first)
    then have "ReadString_lf s = (l @ [CHR 0x0A], r, False)"
      using takeWhile_until [of "CHR 0x0A" l r] dropWhile_until [of "CHR 0x0A" l r] by (simp add: ReadString_lf_def)
    then have "copy_config user pass s = config_line user pass (l @ [CHR 0x0A]) @ copy_config user pass r"
      by (subst copy_config.simps) simp
    moreover have "length r < length s" by (simp add: s(1))
    moreover have "file_lines s = (l @ [CHR 0x0A]) # file_lines r" unfolding s(1) by (rule file_lines_lf [OF s(2)])
    ultimately show ?thesis using less [of r] by (simp add: s(1))
  next
    case False
    then have d: "dropWhile (\<lambda>c. c \<noteq> CHR 0x0A) s = []" by (auto simp: dropWhile_eq_Nil_conv)
    have "ReadString_lf s = (s, [], True)" unfolding ReadString_lf_def d by simp
    then have "copy_config user pass s = config_line user pass s" by (subst copy_config.simps) simp
    then show ?thesis using split_char_none [OF False] by (simp add: file_lines_def)
  qed
qed

end
