(* ===== verification/Net_IP.thy ===== *)
theory Net_IP
  imports Config_Text
begin

text \<open>
  Textual IP addresses and networks as \<^verbatim>\<open>net.ParseIP\<close> and \<^verbatim>\<open>net.ParseCIDR\<close> of Go 1.17 read them; an
  \<^verbatim>\<open>net.IP\<close> is a list of 16 or 4 bytes.
\<close>

text \<open>\<^verbatim>\<open>dtoi\<close> and \<^verbatim>\<open>xtoi\<close>: the number, how many characters it takes, and whether it is one.\<close>

definition big_number :: int where "big_number = 0xFFFFFF"

definition hex_value :: "char \<Rightarrow> int option" where
  "hex_value c = map_option uint (fromHexChar c)"

definition dec_value :: "char \<Rightarrow> int option" where
  "dec_value c = (if is_digit c then Some (of_char c - 48) else None)"

primrec scan_number :: "(char \<Rightarrow> int option) \<Rightarrow> int \<Rightarrow> int \<Rightarrow> nat \<Rightarrow> string \<Rightarrow> int \<times> nat \<times> bool" where
  "scan_number val base n i [] = (if i = 0 then (0, 0, False) else (n, i, True))"
| "scan_number val base n i (c # s) =
     (case val c of
        None \<Rightarrow> if i = 0 then (0, 0, False) else (n, i, True)
      | Some d \<Rightarrow> if n * base + d \<ge> big_number then (big_number, i, False)
                   else scan_number val base (n * base + d) (i + 1) s)"

definition dtoi :: "string \<Rightarrow> int \<times> nat \<times> bool" where "dtoi s = scan_number dec_value 10 0 0 s"
definition xtoi :: "string \<Rightarrow> int \<times> nat \<times> bool" where "xtoi s = scan_number hex_value 16 0 0 s"

definition net_IPv4 :: "bytes \<Rightarrow> bytes" where
  "net_IPv4 p = replicate 10 0 @ [0xff, 0xff] @ p"

definition To4 :: "bytes \<Rightarrow> bytes option" where
  "To4 ip =
     (if length ip = 4 then Some ip
      else if length ip = 16 \<and> take 12 ip = replicate 10 0 @ [0xff, 0xff] then Some (drop 12 ip)
      else None)"

text \<open>\<open>n\<close> parts are left to read.\<close>

primrec parseIPv4_loop :: "nat \<Rightarrow> bool \<Rightarrow> string \<Rightarrow> bytes option" where
  "parseIPv4_loop 0 first s = (if s = [] then Some [] else None)"
| "parseIPv4_loop (Suc k) first s =
     (if s = [] then None
      else if \<not> first \<and> hd s \<noteq> CHR ''.'' then None
      else
        let s = (if first then s else tl s); (n, c, ok) = dtoi s in
        if \<not> ok \<or> n > 0xFF then None
        else if c > 1 \<and> hd s = CHR ''0'' then None
        else map_option (\<lambda>p. word_of_int n # p) (parseIPv4_loop k False (drop c s)))"

definition parseIPv4 :: "string \<Rightarrow> bytes option" where
  "parseIPv4 s = map_option net_IPv4 (parseIPv4_loop 4 True s)"

text \<open>
  The loop of \<^verbatim>\<open>parseIPv6\<close> on the bytes read so far, with the place of the ellipsis: the bytes, the place
  and what is left of the text.
\<close>

function parseIPv6_loop :: "bytes \<Rightarrow> nat option \<Rightarrow> string \<Rightarrow> (bytes \<times> nat option \<times> string) option" where
  "parseIPv6_loop ip ellipsis s =
     (if length ip \<ge> 16 then Some (ip, ellipsis, s)
      else
        let (n, c, ok) = xtoi s in
        if \<not> ok \<or> n > 0xFFFF then None
        else if c < length s \<and> s ! c = CHR ''.'' then
          if ellipsis = None \<and> length ip \<noteq> 12 then None
          else if length ip + 4 > 16 then None
          else (case parseIPv4 s of None \<Rightarrow> None | Some ip4 \<Rightarrow> Some (ip @ drop 12 ip4, ellipsis, []))
        else
          let ip = ip @ [word_of_int (n div 256), word_of_int (n mod 256)]; s = drop c s in
          if s = [] then Some (ip, ellipsis, s)
          else if hd s \<noteq> CHR '':'' \<or> length s = 1 then None
          else
            let s = tl s in
            if hd s = CHR '':'' then
              if ellipsis \<noteq> None then None
              else if tl s = [] then Some (ip, Some (length ip), [])
              else parseIPv6_loop ip (Some (length ip)) (tl s)
            else parseIPv6_loop ip ellipsis s)"
  by pat_completeness auto
termination by (relation "measure (\<lambda>(ip, _, _). 16 - length ip)") auto

declare parseIPv6_loop.simps [simp del]

definition parseIPv6 :: "string \<Rightarrow> bytes option" where
  "parseIPv6 s =
     (let leading = has_prefix s ''::''; s = (if leading then drop 2 s else s) in
      if leading \<and> s = [] then Some (replicate 16 0)
      else
        case parseIPv6_loop [] (if leading then Some 0 else None) s of
          None \<Rightarrow> None
        | Some (ip, ellipsis, rest) \<Rightarrow>
            if rest \<noteq> [] then None
            else if length ip < 16 then
              (case ellipsis of
                 None \<Rightarrow> None
               | Some e \<Rightarrow> Some (take e ip @ replicate (16 - length ip) 0 @ drop e ip))
            else if ellipsis \<noteq> None then None
            else Some ip)"

primrec ParseIP_scan :: "string \<Rightarrow> string \<Rightarrow> bytes option" where
  "ParseIP_scan s [] = None"
| "ParseIP_scan s (c # cs) =
     (if c = CHR ''.'' then parseIPv4 s else if c = CHR '':'' then parseIPv6 s else ParseIP_scan s cs)"

definition ParseIP :: "string \<Rightarrow> bytes option" where
  "ParseIP s = ParseIP_scan s s"

record IPNet =
  ipn_IP :: bytes
  ipn_Mask :: bytes

text \<open>\<^verbatim>\<open>CIDRMask(ones, bits)\<close> for \<open>ones \<le> bits\<close>, a multiple of eight.\<close>

definition mask_byte :: "nat \<Rightarrow> byte" where
  "mask_byte n = (if n \<ge> 8 then 0xff else NOT (drop_bit n 0xff))"

definition CIDRMask :: "nat \<Rightarrow> nat \<Rightarrow> bytes" where
  "CIDRMask ones bits = map (\<lambda>i. mask_byte (ones - 8 * i)) [0..<bits div 8]"

definition ip_Mask :: "bytes \<Rightarrow> bytes \<Rightarrow> bytes" where
  "ip_Mask ip msk =
     map2 (AND) (if length msk = 4 \<and> length ip = 16 \<and> To4 ip \<noteq> None then drop 12 ip else ip) msk"

definition ParseCIDR :: "string \<Rightarrow> IPNet option" where
  "ParseCIDR s =
     (case first_index (CHR ''/'') s of
        None \<Rightarrow> None
      | Some i \<Rightarrow>
          let addr = take i s; msk = drop (i + 1) s;
              (iplen, ip) = (case parseIPv4 addr of Some ip \<Rightarrow> (4, Some ip) | None \<Rightarrow> (16, parseIPv6 addr));
              (n, c, ok) = dtoi msk
          in case ip of
               None \<Rightarrow> None
             | Some ip \<Rightarrow>
                 if \<not> ok \<or> c \<noteq> length msk \<or> n > 8 * int iplen then None
                 else let m = CIDRMask (nat n) (8 * iplen) in Some \<lparr>ipn_IP = ip_Mask ip m, ipn_Mask = m\<rparr>)"

text \<open>Some addresses.\<close>

lemma ParseIP_examples:
  "ParseIP ''192.168.1.20'' = Some (net_IPv4 [192, 168, 1, 20])"
  "ParseIP ''2001:db8::1:2'' = Some [0x20, 1, 0x0d, 0xb8, 0, 0, 0, 0, 0, 0, 0, 0, 0, 1, 0, 2]"
  "ParseIP ''::ffff:1.2.3.4'' = Some (net_IPv4 [1, 2, 3, 4])"
  "ParseIP ''1.2.3.04'' = None"
  "ParseIP ''localhost'' = None"
  "ParseCIDR ''10.1.2.3/12'' = Some \<lparr>ipn_IP = [10, 0, 0, 0], ipn_Mask = [0xff, 0xf0, 0, 0]\<rparr>"
  by code_simp+

end
