(* ===== verification/Config.thy ===== *)
theory Config
  imports Net_IP Rpcserver
begin

text \<open>
  The configuration of the program (\<^verbatim>\<open>config.go\<close>): its options, their defaults and the checks of
  \<^verbatim>\<open>loadConfig\<close> in the order of the source. Reading the command line and the file is the third-party
  package flags; it, the environment, the name resolution and the log rotation are arguments.
\<close>

section \<open>The options\<close>

text \<open>The functions to dial and to look up names, by what they were built from.\<close>

datatype dial_fn =
    DialTimeout
  | ProxyDial string string string bool
  | TorDisabled

datatype lookup_fn = LookupIP | TorLookupIP string

record config =
  AddCheckpoints :: "string list"
  AddPeers :: "string list"
  AddrIndex :: bool
  AgentBlacklist :: "string list"
  AgentWhitelist :: "string list"
  BanDuration :: int
  BanThreshold :: uint32
  BlockMaxSize :: uint32
  BlockMinSize :: uint32
  BlockMaxWeight :: uint32
  BlockMinWeight :: uint32
  BlockPrioritySize :: uint32
  BlocksOnly :: bool
  ConfigFile :: string
  ConnectPeers :: "string list"
  CPUProfile :: string
  DataDir :: string
  DbType :: string
  DebugLevel :: string
  DropAddrIndex :: bool
  DropCfIndex :: bool
  DropTxIndex :: bool
  ExternalIPs :: "string list"
  Generate :: bool
  FreeTxRelayLimit :: float64
  Listeners :: "string list"
  LogDir :: string
  MaxOrphanTxs :: int
  MaxPeers :: int
  MiningAddrs :: "string list"
  MinRelayTxFee :: "float64 option"
  DisableBanning :: bool
  NoCFilters :: bool
  DisableCheckpoints :: bool
  DisableDNSSeed :: bool
  DisableListen :: bool
  NoOnion :: bool
  NoPeerBloomFilters :: bool
  NoRelayPriority :: bool
  NoWinService :: bool
  DisableRPC :: bool
  DisableStallHandler :: bool
  DisableTLS :: bool
  OnionProxy :: string
  OnionProxyPass :: string
  OnionProxyUser :: string
  Profile :: string
  Proxy :: string
  ProxyPass :: string
  ProxyUser :: string
  RegressionTest :: bool
  RejectNonStd :: bool
  RejectReplacement :: bool
  RelayNonStd :: bool
  RPCCert :: string
  RPCKey :: string
  RPCLimitPass :: string
  RPCLimitUser :: string
  RPCListeners :: "string list"
  RPCMaxClients :: int
  RPCMaxConcurrentReqs :: int
  RPCMaxWebsockets :: int
  RPCQuirks :: bool
  RPCPass :: string
  RPCUser :: string
  SigCacheMaxSize :: int
  opt_SimNet :: bool
  SigNet :: bool
  SigNetChallenge :: string
  SigNetSeedNode :: "string list"
  opt_TestNet3 :: bool
  TorIsolation :: bool
  TrickleInterval :: int
  TxIndex :: bool
  UserAgentComments :: "string list"
  Upnp :: bool
  ShowVersion :: bool
  Whitelists :: "string list"
  cfg_lookup :: lookup_fn
  cfg_oniondial :: dial_fn
  cfg_dial :: dial_fn
  addCheckpoints :: "Checkpoint list"
  minRelayTxFee :: Amount
  whitelists :: "IPNet list"

text \<open>The part the RPC server reads.\<close>

definition rpc_settings :: "config \<Rightarrow> rpc_config" where
  "rpc_settings cfg =
     \<lparr>rpc_config.RPCUser = RPCUser cfg, RPCPass = RPCPass cfg, RPCLimitUser = RPCLimitUser cfg,
      RPCLimitPass = RPCLimitPass cfg, RPCMaxClients = RPCMaxClients cfg, RPCMaxWebsockets = RPCMaxWebsockets cfg,
      RPCMaxConcurrentReqs = RPCMaxConcurrentReqs cfg, RPCQuirks = RPCQuirks cfg\<rparr>"

section \<open>Errors\<close>

text \<open>One constructor for each message of \<^verbatim>\<open>loadConfig\<close>, with what it prints; \<open>Exit\<close> ends the process.\<close>

datatype load_error =
    Exit int
  | ParserError string
  | NoHomeDir string
  | BadSigNetChallenge goerr
  | SeveralNetworks
  | StallHandlerOnMainNet
  | RelayNonStdConflict
  | BadDebugLevel level_error
  | BadDbType string
  | BadProfilePort
  | ShortBanDuration int
  | BadWhitelist string
  | PeersConflict
  | SameUsername
  | SamePassword
  | LookupFailed string
  | NegativeConcurrentReqs int
  | BadMinRelayTxFee goerr
  | BadBlockMaxSize uint32
  | BadBlockMaxWeight uint32
  | NegativeOrphans int
  | BadUserAgentComment
  | TxIndexConflict
  | AddrIndexConflict
  | AddrTxIndexConflict
  | NoMiningAddress
  | BadRPCListener string string
  | NoTLSRemote string
  | OnionConflict
  | BadCheckpoints string
  | TorIsolationWithoutProxy
  | BadProxy string string
  | BadOnionProxy string string

section \<open>Defaults\<close>

definition second :: int where "second = 1000000000"

definition blockMaxSizeMin :: uint32 where "blockMaxSizeMin = 1000"
definition blockMaxSizeMax :: uint32 where "blockMaxSizeMax = word_of_nat MaxBlockBaseSize - 1000"
definition blockMaxWeightMin :: uint32 where "blockMaxWeightMin = 4000"
definition blockMaxWeightMax :: uint32 where "blockMaxWeightMax = word_of_nat MaxBlockWeight - 4000"
definition defaultBlockMaxSize :: uint32 where "defaultBlockMaxSize = 750000"
definition defaultBlockMaxWeight :: uint32 where "defaultBlockMaxWeight = 3000000"
definition DefaultMinRelayTxFee :: Amount where "DefaultMinRelayTxFee = 1000"
definition DefaultBlockPrioritySize :: uint32 where "DefaultBlockPrioritySize = 50000"
definition DefaultTrickleInterval :: int where "DefaultTrickleInterval = 10 * second"

definition minUint32 :: "uint32 \<Rightarrow> uint32 \<Rightarrow> uint32" where
  "minUint32 a b = (if a < b then a else b)"

text \<open>The paths below the home directory, and the literal of \<^verbatim>\<open>loadConfig\<close>; options not named there have the zero value.\<close>

definition default_config :: "string \<Rightarrow> config" where
  "default_config homeDir =
     \<lparr>AddCheckpoints = [], AddPeers = [], AddrIndex = False, AgentBlacklist = [], AgentWhitelist = [],
      BanDuration = 24 * hour, BanThreshold = 100, BlockMaxSize = defaultBlockMaxSize, BlockMinSize = 0,
      BlockMaxWeight = defaultBlockMaxWeight, BlockMinWeight = 0, BlockPrioritySize = DefaultBlockPrioritySize,
      BlocksOnly = False, ConfigFile = filepath_Join [homeDir, ''sample-acbc.conf''], ConnectPeers = [], CPUProfile = [],
      DataDir = filepath_Join [homeDir, ''data''], DbType = ''ffldb'', DebugLevel = ''info'', DropAddrIndex = False,
      DropCfIndex = False, DropTxIndex = False, ExternalIPs = [], Generate = False, FreeTxRelayLimit = 15,
      Listeners = [], LogDir = filepath_Join [homeDir, ''logs''], MaxOrphanTxs = 100, MaxPeers = 125, MiningAddrs = [],
      MinRelayTxFee = ToBTC DefaultMinRelayTxFee, DisableBanning = False, NoCFilters = False,
      DisableCheckpoints = False, DisableDNSSeed = False, DisableListen = False, NoOnion = False,
      NoPeerBloomFilters = False, NoRelayPriority = False, NoWinService = False, DisableRPC = False,
      DisableStallHandler = False, DisableTLS = False, OnionProxy = [], OnionProxyPass = [], OnionProxyUser = [],
      Profile = [], Proxy = [], ProxyPass = [], ProxyUser = [], RegressionTest = False, RejectNonStd = False,
      RejectReplacement = False, RelayNonStd = False, RPCCert = filepath_Join [homeDir, ''rpc.cert''],
      RPCKey = filepath_Join [homeDir, ''rpc.key''], RPCLimitPass = [], RPCLimitUser = [], RPCListeners = [],
      RPCMaxClients = 10, RPCMaxConcurrentReqs = 20, RPCMaxWebsockets = 25, RPCQuirks = False,
      RPCPass = ''12345678'', RPCUser = ''jiajimeidou'', SigCacheMaxSize = 100000, opt_SimNet = False,
      SigNet = False, SigNetChallenge = [], SigNetSeedNode = [], opt_TestNet3 = False, TorIsolation = False,
      TrickleInterval = DefaultTrickleInterval, TxIndex = False, UserAgentComments = [], Upnp = False,
      ShowVersion = False, Whitelists = [], cfg_lookup = LookupIP, cfg_oniondial = DialTimeout,
      cfg_dial = DialTimeout, addCheckpoints = [], minRelayTxFee = 0, whitelists = []\<rparr>"

section \<open>The network\<close>

text \<open>
  The flags in the order of the source: how many were given, the network of the last one and the
  options. The signet network gets its challenge and its seeds from the options.
\<close>

definition signet_challenge :: "config \<Rightarrow> load_error + bytes" where
  "signet_challenge cfg =
     (if SigNetChallenge cfg \<noteq> [] then
        (case hex_DecodeString (SigNetChallenge cfg) of
           (challenge, None) \<Rightarrow> Inr challenge
         | (_, Some err) \<Rightarrow> Inl (BadSigNetChallenge err))
      else Inr DefaultSignetChallenge)"

definition signet_seeds :: "config \<Rightarrow> DNSSeed list" where
  "signet_seeds cfg =
     (if SigNetSeedNode cfg \<noteq> [] then map (\<lambda>seed. \<lparr>seed_Host = seed, HasFiltering = False\<rparr>) (SigNetSeedNode cfg)
      else DefaultSignetDNSSeeds)"

definition select_network :: "params \<Rightarrow> config \<Rightarrow> load_error + nat \<times> params \<times> config" where
  "select_network testnet cfg =
     (let (numNets, net) = (0, mainNetParams);
          (numNets, net) = (if opt_TestNet3 cfg then (numNets + 1, testnet) else (numNets, net));
          (numNets, net) = (if RegressionTest cfg then (numNets + 1, regressionNetParams) else (numNets, net));
          (numNets, net, cfg) =
            (if opt_SimNet cfg then (numNets + 1, simNetParams, cfg\<lparr>DisableDNSSeed := True\<rparr>) else (numNets, net, cfg))
      in if SigNet cfg then
           bindR (signet_challenge cfg) (\<lambda>challenge.
             Inr (numNets + 1, sigNetParams\<lparr>chain_params := CustomSignetParams challenge (signet_seeds cfg)\<rparr>, cfg))
         else Inr (numNets, net, cfg))"

definition check_network :: "nat \<Rightarrow> params \<Rightarrow> config \<Rightarrow> load_error + config" where
  "check_network numNets net cfg =
     (if numNets > 1 then Inl SeveralNetworks
      else if Net (chain_params net) = MainNet \<and> DisableStallHandler cfg then Inl StallHandlerOnMainNet
      else if RelayNonStd cfg \<and> RejectNonStd cfg then Inl RelayNonStdConflict
      else
        let relayNonStd = RelayNonStdTxs (chain_params net);
            relayNonStd = (if RejectNonStd cfg then False else if RelayNonStd cfg then True else relayNonStd)
        in Inr (cfg\<lparr>RelayNonStd := relayNonStd\<rparr>))"

section \<open>Directories, logging, database\<close>

definition namespace_dirs :: "(string \<Rightarrow> string) \<Rightarrow> string \<Rightarrow> params \<Rightarrow> config \<Rightarrow> config" where
  "namespace_dirs getenv homeDir net cfg =
     cfg\<lparr>DataDir := filepath_Join [cleanAndExpandPath getenv homeDir (DataDir cfg), netName net],
        LogDir := filepath_Join [cleanAndExpandPath getenv homeDir (LogDir cfg), netName net]\<rparr>"

definition configure_logging :: "bool \<Rightarrow> (string \<Rightarrow> 'l) \<Rightarrow> 'l levels \<Rightarrow> config \<Rightarrow> load_error + 'l levels" where
  "configure_logging rotator_ok levelOf loggers cfg =
     (if DebugLevel cfg = ''show'' then Inl (Exit 0)
      else if \<not> rotator_ok then Inl (Exit 1)
      else case parseAndSetDebugLevels levelOf (DebugLevel cfg) loggers of
             (Some err, _) \<Rightarrow> Inl (BadDebugLevel err)
           | (None, loggers) \<Rightarrow> Inr loggers)"

definition check_options :: "config \<Rightarrow> load_error + unit" where
  "check_options cfg =
     (if \<not> validDbType (DbType cfg) then Inl (BadDbType (DbType cfg))
      else if Profile cfg \<noteq> [] \<and>
        (case Atoi (Profile cfg) of None \<Rightarrow> True | Some profilePort \<Rightarrow> profilePort < 1024 \<or> profilePort > 65535)
      then Inl BadProfilePort
      else if BanDuration cfg < second then Inl (ShortBanDuration (BanDuration cfg))
      else Inr ())"

primrec parse_whitelists :: "string list \<Rightarrow> load_error + IPNet list" where
  "parse_whitelists [] = Inr []"
| "parse_whitelists (addr # addrs) =
     bindR
       (case ParseCIDR addr of
          Some ipnet \<Rightarrow> Inr ipnet
        | None \<Rightarrow>
            (case ParseIP addr of
               None \<Rightarrow> Inl (BadWhitelist addr)
             | Some ip \<Rightarrow>
                 let bits = (if To4 ip = None then 128 else 32)
                 in Inr \<lparr>ipn_IP = ip, ipn_Mask = CIDRMask bits bits\<rparr>))
       (\<lambda>ipnet. bindR (parse_whitelists addrs) (\<lambda>ipnets. Inr (ipnet # ipnets)))"

section \<open>Listeners and credentials\<close>

definition configure_peers :: "params \<Rightarrow> config \<Rightarrow> load_error + config" where
  "configure_peers net cfg =
     (if AddPeers cfg \<noteq> [] \<and> ConnectPeers cfg \<noteq> [] then Inl PeersConflict
      else
        let cfg = (if (Proxy cfg \<noteq> [] \<or> ConnectPeers cfg \<noteq> []) \<and> Listeners cfg = [] then cfg\<lparr>DisableListen := True\<rparr> else cfg);
            cfg = (if ConnectPeers cfg \<noteq> [] then cfg\<lparr>DisableDNSSeed := True\<rparr> else cfg);
            cfg = (if Listeners cfg = []
                   then cfg\<lparr>Listeners := [JoinHostPort [] (DefaultPort (chain_params net))]\<rparr> else cfg)
        in Inr cfg)"

definition check_credentials :: "config \<Rightarrow> load_error + config" where
  "check_credentials cfg =
     (if RPCUser cfg = RPCLimitUser cfg \<and> RPCUser cfg \<noteq> [] then Inl SameUsername
      else if RPCPass cfg = RPCLimitPass cfg \<and> RPCPass cfg \<noteq> [] then Inl SamePassword
      else if (RPCUser cfg = [] \<or> RPCPass cfg = []) \<and> (RPCLimitUser cfg = [] \<or> RPCLimitPass cfg = [])
      then Inr (cfg\<lparr>DisableRPC := True\<rparr>)
      else Inr cfg)"

definition default_rpc_listeners :: "string + string list \<Rightarrow> params \<Rightarrow> config \<Rightarrow> load_error + config" where
  "default_rpc_listeners localhost net cfg =
     (if \<not> DisableRPC cfg \<and> RPCListeners cfg = [] then
        (case localhost of
           Inl err \<Rightarrow> Inl (LookupFailed err)
         | Inr addrs \<Rightarrow> Inr (cfg\<lparr>RPCListeners := map (\<lambda>addr. JoinHostPort addr (rpcPort net)) addrs\<rparr>))
      else Inr cfg)"

section \<open>Policies\<close>

definition check_fees :: "config \<Rightarrow> load_error + config" where
  "check_fees cfg =
     (if RPCMaxConcurrentReqs cfg < 0 then Inl (NegativeConcurrentReqs (RPCMaxConcurrentReqs cfg))
      else case NewAmount (MinRelayTxFee cfg) of
             Inl err \<Rightarrow> Inl (BadMinRelayTxFee err)
           | Inr fee \<Rightarrow> Inr (cfg\<lparr>minRelayTxFee := fee\<rparr>))"

definition check_block_limits :: "config \<Rightarrow> load_error + config" where
  "check_block_limits cfg =
     (if BlockMaxSize cfg < blockMaxSizeMin \<or> BlockMaxSize cfg > blockMaxSizeMax then Inl (BadBlockMaxSize (BlockMaxSize cfg))
      else if BlockMaxWeight cfg < blockMaxWeightMin \<or> BlockMaxWeight cfg > blockMaxWeightMax
      then Inl (BadBlockMaxWeight (BlockMaxWeight cfg))
      else if MaxOrphanTxs cfg < 0 then Inl (NegativeOrphans (MaxOrphanTxs cfg))
      else
        let cfg = cfg\<lparr>BlockPrioritySize := minUint32 (BlockPrioritySize cfg) (BlockMaxSize cfg),
              BlockMinSize := minUint32 (BlockMinSize cfg) (BlockMaxSize cfg),
              BlockMinWeight := minUint32 (BlockMinWeight cfg) (BlockMaxWeight cfg)\<rparr>
        in Inr
            (if BlockMaxSize cfg = defaultBlockMaxSize \<and> BlockMaxWeight cfg \<noteq> defaultBlockMaxWeight
             then cfg\<lparr>BlockMaxSize := word_of_nat MaxBlockBaseSize - 1000\<rparr>
             else if BlockMaxSize cfg \<noteq> defaultBlockMaxSize \<and> BlockMaxWeight cfg = defaultBlockMaxWeight
             then cfg\<lparr>BlockMaxWeight := BlockMaxSize cfg * word_of_nat WitnessScaleFactor\<rparr>
             else cfg))"

definition check_conflicts :: "config \<Rightarrow> load_error + unit" where
  "check_conflicts cfg =
     (if list_ex (\<lambda>uaComment. list_ex (\<lambda>c. c \<in> set uaComment) ''/:()'') (UserAgentComments cfg) then Inl BadUserAgentComment
      else if TxIndex cfg \<and> DropTxIndex cfg then Inl TxIndexConflict
      else if AddrIndex cfg \<and> DropAddrIndex cfg then Inl AddrIndexConflict
      else if AddrIndex cfg \<and> DropTxIndex cfg then Inl AddrTxIndexConflict
      else if Generate cfg \<and> MiningAddrs cfg = [] then Inl NoMiningAddress
      else Inr ())"

section \<open>Addresses\<close>

definition normalize_listeners :: "params \<Rightarrow> config \<Rightarrow> config" where
  "normalize_listeners net cfg =
     cfg\<lparr>Listeners := normalizeAddresses (Listeners cfg) (DefaultPort (chain_params net)),
        RPCListeners := normalizeAddresses (RPCListeners cfg) (rpcPort net)\<rparr>"

definition allowedTLSListeners :: "string set" where
  "allowedTLSListeners = {''localhost'', ''127.0.0.1'', ''::1''}"

primrec check_tls :: "string list \<Rightarrow> load_error + unit" where
  "check_tls [] = Inr ()"
| "check_tls (addr # addrs) =
     (case SplitHostPort addr of
        Inl err \<Rightarrow> Inl (BadRPCListener addr err)
      | Inr (host, _) \<Rightarrow> if host \<notin> allowedTLSListeners then Inl (NoTLSRemote addr) else check_tls addrs)"

definition check_rpc_listeners :: "config \<Rightarrow> load_error + unit" where
  "check_rpc_listeners cfg =
     (if \<not> DisableRPC cfg \<and> DisableTLS cfg then check_tls (RPCListeners cfg) else Inr ())"

definition finish_peers :: "params \<Rightarrow> config \<Rightarrow> load_error + config" where
  "finish_peers net cfg =
     (let cfg = cfg\<lparr>AddPeers := normalizeAddresses (AddPeers cfg) (DefaultPort (chain_params net)),
            ConnectPeers := normalizeAddresses (ConnectPeers cfg) (DefaultPort (chain_params net))\<rparr>
      in if NoOnion cfg \<and> OnionProxy cfg \<noteq> [] then Inl OnionConflict
         else case parseCheckpoints (AddCheckpoints cfg) of
                Inl err \<Rightarrow> Inl (BadCheckpoints err)
              | Inr cps \<Rightarrow>
                  let cfg = cfg\<lparr>addCheckpoints := cps\<rparr>
                  in if TorIsolation cfg \<and> Proxy cfg = [] \<and> OnionProxy cfg = [] then Inl TorIsolationWithoutProxy
                     else Inr cfg)"

section \<open>Dialing\<close>

definition configure_proxy :: "config \<Rightarrow> load_error + config" where
  "configure_proxy cfg =
     (let cfg = cfg\<lparr>cfg_dial := DialTimeout, cfg_lookup := LookupIP\<rparr> in
      if Proxy cfg \<noteq> [] then
        (case SplitHostPort (Proxy cfg) of
           Inl err \<Rightarrow> Inl (BadProxy (Proxy cfg) err)
         | Inr _ \<Rightarrow>
             let torIsolation = (TorIsolation cfg \<and> OnionProxy cfg = [] \<and> (ProxyUser cfg \<noteq> [] \<or> ProxyPass cfg \<noteq> []));
                 cfg = cfg\<lparr>cfg_dial := ProxyDial (Proxy cfg) (ProxyUser cfg) (ProxyPass cfg) torIsolation\<rparr>
             in Inr (if \<not> NoOnion cfg \<and> OnionProxy cfg = [] then cfg\<lparr>cfg_lookup := TorLookupIP (Proxy cfg)\<rparr> else cfg))
      else Inr cfg)"

definition configure_onion :: "config \<Rightarrow> load_error + config" where
  "configure_onion cfg =
     bindR
       (if OnionProxy cfg \<noteq> [] then
          (case SplitHostPort (OnionProxy cfg) of
             Inl err \<Rightarrow> Inl (BadOnionProxy (OnionProxy cfg) err)
           | Inr _ \<Rightarrow>
               let cfg = cfg\<lparr>cfg_oniondial := ProxyDial (OnionProxy cfg) (OnionProxyUser cfg) (OnionProxyPass cfg) (TorIsolation cfg)\<rparr>
               in Inr (if Proxy cfg \<noteq> [] then cfg\<lparr>cfg_lookup := TorLookupIP (OnionProxy cfg)\<rparr> else cfg))
        else Inr (cfg\<lparr>cfg_oniondial := cfg_dial cfg\<rparr>))
       (\<lambda>cfg. Inr (if NoOnion cfg then cfg\<lparr>cfg_oniondial := TorDisabled\<rparr> else cfg))"

section \<open>Loading\<close>

text \<open>
  What the process finds outside: the environment, the home directory of the program, the outcome of
  making it, the rotator of the log, the addresses of localhost, the files, two times 20 random bytes
  and the parsers of the flags package, which change the options and may fail. \<open>levelOf\<close> is
  \<^verbatim>\<open>btclog.LevelFromString\<close>.
\<close>

datatype parse_error = HelpError string | FilePathError string | OtherParseError string

record 'l config_env =
  env_getenv :: "string \<Rightarrow> string"
  env_homeDir :: string
  env_mkdir :: "string option"
  env_rotator_ok :: bool
  env_localhost :: "string + string list"
  env_config_file :: "string \<Rightarrow> string option"
  env_sample_file :: "string option"
  env_random :: "bytes \<times> bytes"
  env_levelOf :: "string \<Rightarrow> 'l"
  env_pre_parse :: "config \<Rightarrow> config \<times> parse_error option"
  env_ini_parse :: "string \<Rightarrow> config \<Rightarrow> config \<times> parse_error option"
  env_cli_parse :: "config \<Rightarrow> config \<times> parse_error option \<times> string list"

text \<open>
  The options as the command line and the file give them: the command line is read for the name of the
  file, then the file, then the command line again. A missing file is made from the sample.
\<close>

definition config_content :: "'l config_env \<Rightarrow> string \<Rightarrow> string option" where
  "config_content env path =
     (case env_config_file env path of
        Some content \<Rightarrow> Some content
      | None \<Rightarrow> map_option (createDefaultConfigFile (fst (env_random env)) (snd (env_random env))) (env_sample_file env))"

definition read_ini :: "'l config_env \<Rightarrow> config \<Rightarrow> config \<Rightarrow> load_error + config" where
  "read_ini env preCfg cfg =
     (if \<not> (RegressionTest preCfg \<or> opt_SimNet preCfg \<or> SigNet preCfg) \<or>
        ConfigFile preCfg \<noteq> filepath_Join [env_homeDir env, ''sample-acbc.conf''] then
        (case config_content env (ConfigFile preCfg) of
           None \<Rightarrow> Inr cfg
         | Some content \<Rightarrow>
             (case env_ini_parse env content cfg of
                (cfg, None) \<Rightarrow> Inr cfg
              | (cfg, Some (FilePathError _)) \<Rightarrow> Inr cfg
              | (cfg, Some (HelpError e)) \<Rightarrow> Inl (ParserError e)
              | (cfg, Some (OtherParseError e)) \<Rightarrow> Inl (ParserError e)))
      else Inr cfg)"

definition parse_options :: "'l config_env \<Rightarrow> load_error + config \<times> string list" where
  "parse_options env =
     (let cfg = default_config (env_homeDir env); (preCfg, err) = env_pre_parse env cfg in
      case err of
        Some (HelpError e) \<Rightarrow> Inl (ParserError e)
      | _ \<Rightarrow>
          if ShowVersion preCfg then Inl (Exit 0)
          else
            bindR (read_ini env preCfg cfg) (\<lambda>cfg.
              let cfg = (if RegressionTest preCfg \<and> AddPeers cfg \<noteq> [] then cfg\<lparr>AddPeers := []\<rparr> else cfg) in
              case env_cli_parse env cfg of
                (cfg, Some (HelpError e), _) \<Rightarrow> Inl (ParserError e)
              | (cfg, Some (FilePathError e), _) \<Rightarrow> Inl (ParserError e)
              | (cfg, Some (OtherParseError e), _) \<Rightarrow> Inl (ParserError e)
              | (cfg, None, remainingArgs) \<Rightarrow>
                  (case env_mkdir env of Some e \<Rightarrow> Inl (NoHomeDir e) | None \<Rightarrow> Inr (cfg, remainingArgs))))"

text \<open>The checks and completions behind the parsing, in their order.\<close>

definition complete_config ::
  "'l config_env \<Rightarrow> params \<Rightarrow> 'l levels \<Rightarrow> config \<Rightarrow> load_error + params \<times> config \<times> 'l levels" where
  "complete_config env testnet loggers cfg =
     bindR (select_network testnet cfg) (\<lambda>(numNets, net, cfg).
     bindR (check_network numNets net cfg) (\<lambda>cfg.
       let cfg = namespace_dirs (env_getenv env) (env_homeDir env) net cfg in
     bindR (configure_logging (env_rotator_ok env) (env_levelOf env) loggers cfg) (\<lambda>loggers.
     bindR (check_options cfg) (\<lambda>_.
     bindR (parse_whitelists (Whitelists cfg)) (\<lambda>nets.
       let cfg = cfg\<lparr>whitelists := nets\<rparr> in
     bindR (configure_peers net cfg) (\<lambda>cfg.
     bindR (check_credentials cfg) (\<lambda>cfg.
     bindR (default_rpc_listeners (env_localhost env) net cfg) (\<lambda>cfg.
     bindR (check_fees cfg) (\<lambda>cfg.
     bindR (check_block_limits cfg) (\<lambda>cfg.
     bindR (check_conflicts cfg) (\<lambda>_.
       let cfg = normalize_listeners net cfg in
     bindR (check_rpc_listeners cfg) (\<lambda>_.
     bindR (finish_peers net cfg) (\<lambda>cfg.
     bindR (configure_proxy cfg) (\<lambda>cfg.
     bindR (configure_onion cfg) (\<lambda>cfg.
       Inr (net, cfg, loggers))))))))))))))))"

definition loadConfig ::
  "'l config_env \<Rightarrow> params \<Rightarrow> 'l levels \<Rightarrow> load_error + params \<times> config \<times> 'l levels \<times> string list" where
  "loadConfig env testnet loggers =
     bindR (parse_options env) (\<lambda>(cfg, remainingArgs).
       bindR (complete_config env testnet loggers cfg) (\<lambda>(net, cfg, loggers). Inr (net, cfg, loggers, remainingArgs)))"

text \<open>The dial and lookup functions that the rest of the program calls.\<close>

definition acbcDial :: "config \<Rightarrow> string \<Rightarrow> dial_fn" where
  "acbcDial cfg addr = (if contains_string addr ''.onion:'' then cfg_oniondial cfg else cfg_dial cfg)"

definition acbcLookup :: "config \<Rightarrow> string \<Rightarrow> string + lookup_fn" where
  "acbcLookup cfg host =
     (if has_suffix host ''.onion'' then Inl (''attempt to resolve tor address '' @ host) else Inr (cfg_lookup cfg))"

section \<open>What each part leaves alone\<close>

definition rpc_fields :: "config \<Rightarrow> (string \<times> string \<times> string \<times> string) \<times> bool \<times> bool" where
  "rpc_fields cfg = ((RPCUser cfg, RPCPass cfg, RPCLimitUser cfg, RPCLimitPass cfg), DisableRPC cfg, DisableTLS cfg)"

definition block_fields :: "config \<Rightarrow> uint32 \<times> uint32 \<times> uint32 \<times> uint32 \<times> uint32 \<times> int" where
  "block_fields cfg =
     (BlockMaxSize cfg, BlockMinSize cfg, BlockPrioritySize cfg, BlockMaxWeight cfg, BlockMinWeight cfg, MaxOrphanTxs cfg)"

definition proxy_fields :: "config \<Rightarrow> (string \<times> string \<times> string) \<times> (string \<times> string \<times> string) \<times> bool \<times> bool" where
  "proxy_fields cfg =
     ((Proxy cfg, ProxyUser cfg, ProxyPass cfg), (OnionProxy cfg, OnionProxyUser cfg, OnionProxyPass cfg), NoOnion cfg, TorIsolation cfg)"

lemmas fields_defs = rpc_fields_def block_fields_def proxy_fields_def

named_theorems config_frame \<open>fields a part of the loading keeps\<close>

lemma configure_onion_frame [config_frame]:
  assumes "configure_onion cfg = Inr cfg'"
  shows "rpc_fields cfg' = rpc_fields cfg" "RPCListeners cfg' = RPCListeners cfg" "block_fields cfg' = block_fields cfg"
    "proxy_fields cfg' = proxy_fields cfg" "RPCMaxConcurrentReqs cfg' = RPCMaxConcurrentReqs cfg"
  using assms by (auto simp: configure_onion_def fields_defs Let_def bindR_Inr_conv split: if_splits sum.splits prod.splits)

lemma configure_proxy_frame [config_frame]:
  assumes "configure_proxy cfg = Inr cfg'"
  shows "rpc_fields cfg' = rpc_fields cfg" "RPCListeners cfg' = RPCListeners cfg" "block_fields cfg' = block_fields cfg"
    "proxy_fields cfg' = proxy_fields cfg" "RPCMaxConcurrentReqs cfg' = RPCMaxConcurrentReqs cfg"
  using assms by (auto simp: configure_proxy_def fields_defs Let_def split: if_splits sum.splits prod.splits)

lemma finish_peers_frame [config_frame]:
  assumes "finish_peers net cfg = Inr cfg'"
  shows "rpc_fields cfg' = rpc_fields cfg" "RPCListeners cfg' = RPCListeners cfg" "block_fields cfg' = block_fields cfg"
    "proxy_fields cfg' = proxy_fields cfg" "RPCMaxConcurrentReqs cfg' = RPCMaxConcurrentReqs cfg"
  using assms by (auto simp: finish_peers_def fields_defs Let_def split: if_splits sum.splits)

lemma normalize_listeners_frame [config_frame]:
  "rpc_fields (normalize_listeners net cfg) = rpc_fields cfg" "block_fields (normalize_listeners net cfg) = block_fields cfg"
  "proxy_fields (normalize_listeners net cfg) = proxy_fields cfg"
  "RPCMaxConcurrentReqs (normalize_listeners net cfg) = RPCMaxConcurrentReqs cfg"
  by (simp_all add: normalize_listeners_def fields_defs)

lemma check_block_limits_frame [config_frame]:
  assumes "check_block_limits cfg = Inr cfg'"
  shows "rpc_fields cfg' = rpc_fields cfg" "proxy_fields cfg' = proxy_fields cfg"
    "RPCMaxConcurrentReqs cfg' = RPCMaxConcurrentReqs cfg"
  using assms by (auto simp: check_block_limits_def fields_defs Let_def split: if_splits)

lemma check_fees_frame [config_frame]:
  assumes "check_fees cfg = Inr cfg'"
  shows "rpc_fields cfg' = rpc_fields cfg" "proxy_fields cfg' = proxy_fields cfg"
  using assms by (auto simp: check_fees_def fields_defs split: if_splits sum.splits)

lemma default_rpc_listeners_frame [config_frame]:
  assumes "default_rpc_listeners localhost net cfg = Inr cfg'"
  shows "rpc_fields cfg' = rpc_fields cfg" "proxy_fields cfg' = proxy_fields cfg"
  using assms by (auto simp: default_rpc_listeners_def fields_defs split: if_splits sum.splits)

lemma check_credentials_frame [config_frame]:
  assumes "check_credentials cfg = Inr cfg'"
  shows "proxy_fields cfg' = proxy_fields cfg" "fst (rpc_fields cfg') = fst (rpc_fields cfg)"
  using assms by (auto simp: check_credentials_def fields_defs split: if_splits)

lemma complete_config_steps:
  assumes "complete_config env testnet loggers cfg = Inr (net, cfg', loggers')"
  obtains n c1 c2 c3 nets c4 c5 c6 c7 c8 c9 c10 where
    "select_network testnet cfg = Inr (n, net, c1)" "check_network n net c1 = Inr c2"
    "c3 = namespace_dirs (env_getenv env) (env_homeDir env) net c2" "check_options c3 = Inr ()"
    "configure_logging (env_rotator_ok env) (env_levelOf env) loggers c3 = Inr loggers'"
    "parse_whitelists (Whitelists c3) = Inr nets"
    "configure_peers net (c3\<lparr>whitelists := nets\<rparr>) = Inr c4" "check_credentials c4 = Inr c5"
    "default_rpc_listeners (env_localhost env) net c5 = Inr c6" "check_fees c6 = Inr c7"
    "check_block_limits c7 = Inr c8" "check_conflicts c8 = Inr ()"
    "check_rpc_listeners (normalize_listeners net c8) = Inr ()"
    "finish_peers net (normalize_listeners net c8) = Inr c9" "configure_proxy c9 = Inr c10" "configure_onion c10 = Inr cfg'"
  using assms unfolding complete_config_def Let_def by (clarsimp simp: bindR_Inr_conv)

lemma loadConfig_completed:
  assumes "loadConfig env testnet loggers = Inr (net, cfg, loggers', args)"
  obtains cfg0 where "parse_options env = Inr (cfg0, args)" "complete_config env testnet loggers cfg0 = Inr (net, cfg, loggers')"
  using assms by (auto simp: loadConfig_def bindR_Inr_conv)

text \<open>A run without options: the defaults on the main network.\<close>

definition sample_env :: "string config_env" where
  "sample_env =
     \<lparr>env_getenv = (\<lambda>_. []), env_homeDir = ''/home/u/.acbc'', env_mkdir = None, env_rotator_ok = True,
      env_localhost = Inr [''127.0.0.1'', ''::1''], env_config_file = Map.empty, env_sample_file = None,
      env_random = ([], []), env_levelOf = id, env_pre_parse = (\<lambda>cfg. (cfg, None)),
      env_ini_parse = (\<lambda>_ cfg. (cfg, None)), env_cli_parse = (\<lambda>cfg. (cfg, None, []))\<rparr>"

lemma sample_options: "parse_options sample_env = Inr (default_config ''/home/u/.acbc'', [])"
  by (simp add: parse_options_def sample_env_def read_ini_def config_content_def default_config_def)

definition sample_levels :: "string levels" where
  "sample_levels s = (if s \<in> set subsystem_ids then Some ''info'' else None)"

lemma default_fee: "NewAmount (ToBTC DefaultMinRelayTxFee) = Inr DefaultMinRelayTxFee"
proof -
  have rep: "rnd (of_int SatoshiPerBitcoin) = 10 ^ 8" "rnd (pow10 8) = 10 ^ 8"
    using rnd_of_int [of "10 ^ 8"] by (simp_all add: SatoshiPerBitcoin_def pow10_def)
  have "rnd (of_int 1000) = of_int 1000" by (rule rnd_of_int) simp
  then have b: "ToBTC DefaultMinRelayTxFee = Some (rnd (of_int 1000 / 10 ^ 8))"
    by (simp add: ToBTC_def ToUnit_def AmountBTC_def float64_of_int_def DefaultMinRelayTxFee_def rep)
  have "amount_round (rnd (rnd (of_int 1000 / 10 ^ 8) * 10 ^ 8)) = word_of_int 1000"
    by (rule amount_back) (simp add: MaxSatoshi_def SatoshiPerBitcoin_def)
  then show ?thesis unfolding b NewAmount_def rep option.case by (simp add: DefaultMinRelayTxFee_def)
qed

lemma sample_normalized:
  "JoinHostPort [] [] = '':''" "normalizeAddresses ['':''] [] = ['':'']" "normalizeAddresses [] p = []"
  "JoinHostPort ''127.0.0.1'' ''8334'' = ''127.0.0.1:8334''" "JoinHostPort ''::1'' ''8334'' = ''[::1]:8334''"
  "normalizeAddresses [''127.0.0.1:8334'', ''[::1]:8334''] ''8334'' = [''127.0.0.1:8334'', ''[::1]:8334'']"
  by (code_simp | simp add: normalizeAddresses_def removeDuplicateAddresses_def)+

lemma sample_addresses:
  "SplitHostPort ''127.0.0.1:8334'' = Inr (''127.0.0.1'', ''8334'')" "SplitHostPort ''[::1]:8334'' = Inr (''::1'', ''8334'')"
  by code_simp+

lemma plain_completed:
  "\<exists>cfg lv. complete_config (sample_env\<lparr>env_cli_parse := f\<rparr>) testnet sample_levels
       ((default_config ''/home/u/.acbc'')\<lparr>DisableTLS := tls, MaxPeers := n\<rparr>) = Inr (mainNetParams, cfg, lv) \<and>
     rpc_fields cfg = ((''jiajimeidou'', ''12345678'', [], []), False, tls) \<and> MaxPeers cfg = n \<and>
     RPCListeners cfg = [''127.0.0.1:8334'', ''[::1]:8334''] \<and>
     block_fields cfg = (defaultBlockMaxSize, 0, DefaultBlockPrioritySize, defaultBlockMaxWeight, 0, 100)"
proof -
  let ?c = "(default_config ''/home/u/.acbc'')\<lparr>DisableTLS := tls, MaxPeers := n\<rparr>"
  have s: "select_network testnet ?c = Inr (0, mainNetParams, ?c)"
    by (simp add: select_network_def default_config_def)
  show ?thesis
    unfolding complete_config_def s bindR_simps case_prod_conv
    by (simp add: check_network_def default_config_def mainNetParams_def MainNetParams_def zero_Params_def MainNet_def
        namespace_dirs_def configure_logging_def sample_env_def parseAndSetDebugLevels_def contains_char_def validLogLevel_def
        check_options_def validDbType_def second_def hour_def configure_peers_def sample_normalized check_credentials_def
        default_rpc_listeners_def check_fees_def default_fee check_block_limits_def blockMaxSizeMin_def blockMaxSizeMax_def
        blockMaxWeightMin_def blockMaxWeightMax_def MaxBlockBaseSize_def MaxBlockWeight_def minUint32_def check_conflicts_def
        normalize_listeners_def check_rpc_listeners_def sample_addresses allowedTLSListeners_def finish_peers_def
        configure_proxy_def configure_onion_def defaultBlockMaxSize_def defaultBlockMaxWeight_def DefaultBlockPrioritySize_def
        fields_defs Let_def)
qed

lemma sample_loaded:
  "\<exists>cfg lv. loadConfig sample_env testnet sample_levels = Inr (mainNetParams, cfg, lv, []) \<and>
     rpc_fields cfg = ((''jiajimeidou'', ''12345678'', [], []), False, False) \<and>
     RPCListeners cfg = [''127.0.0.1:8334'', ''[::1]:8334''] \<and>
     block_fields cfg = (defaultBlockMaxSize, 0, DefaultBlockPrioritySize, defaultBlockMaxWeight, 0, 100)"
proof -
  have c: "(default_config ''/home/u/.acbc'')\<lparr>DisableTLS := False, MaxPeers := 125\<rparr> = default_config ''/home/u/.acbc''"
    by (simp add: default_config_def)
  have e: "sample_env\<lparr>env_cli_parse := env_cli_parse sample_env\<rparr> = sample_env" by (simp add: sample_env_def)
  obtain cfg lv where "complete_config sample_env testnet sample_levels (default_config ''/home/u/.acbc'') = Inr (mainNetParams, cfg, lv)"
    "rpc_fields cfg = ((''jiajimeidou'', ''12345678'', [], []), False, False)"
    "RPCListeners cfg = [''127.0.0.1:8334'', ''[::1]:8334'']"
    "block_fields cfg = (defaultBlockMaxSize, 0, DefaultBlockPrioritySize, defaultBlockMaxWeight, 0, 100)"
    using plain_completed [where f = "env_cli_parse sample_env" and testnet = testnet and tls = False and n = 125] unfolding c e by blast
  then show ?thesis by (simp add: loadConfig_def sample_options)
qed

section \<open>Properties\<close>

lemma check_block_limits_ok:
  assumes "check_block_limits cfg = Inr cfg'"
  shows "unat (BlockMaxSize cfg') \<in> {1000..999000} \<and> unat (BlockMaxWeight cfg') \<in> {4000..3996000} \<and>
    BlockMinSize cfg' \<le> BlockMaxSize cfg' \<and> BlockPrioritySize cfg' \<le> BlockMaxSize cfg' \<and> 0 \<le> MaxOrphanTxs cfg'"
proof -
  have l: "unat (BlockMaxSize cfg) \<in> {1000..999000}" "unat (BlockMaxWeight cfg) \<in> {4000..3996000}" "0 \<le> MaxOrphanTxs cfg"
    using assms by (auto simp: check_block_limits_def blockMaxSizeMin_def blockMaxSizeMax_def blockMaxWeightMin_def
        blockMaxWeightMax_def MaxBlockBaseSize_def MaxBlockWeight_def word_less_nat_alt split: if_splits)
  have w: "unat (BlockMaxSize cfg * 4) = unat (BlockMaxSize cfg) * 4" using l(1) by (simp add: unat_word_ariths)
  have m: "minUint32 a b \<le> b" for a b by (auto simp: minUint32_def)
  have g: "minUint32 a b \<le> 999000" if "b = 750000" for a b using m [of a b] that by (auto simp: word_le_nat_alt)
  show ?thesis
    using assms l w m g by (auto simp: check_block_limits_def WitnessScaleFactor_def MaxBlockBaseSize_def defaultBlockMaxSize_def
        Let_def split: if_splits)
qed


text \<open>The limit below the maximal weight is not kept: the maximum may be lowered behind it.\<close>

lemma min_weight_above_max:
  "\<exists>cfg cfg'. check_block_limits cfg = Inr cfg' \<and> BlockMinWeight cfg = 3000000 \<and> BlockMaxSize cfg = 1000 \<and>
     BlockMinWeight cfg' > BlockMaxWeight cfg'"
  by (rule exI [of _ "(default_config [])\<lparr>BlockMinWeight := 3000000, BlockMaxSize := 1000\<rparr>"])
    (simp add: check_block_limits_def default_config_def blockMaxSizeMin_def blockMaxSizeMax_def blockMaxWeightMin_def
      blockMaxWeightMax_def MaxBlockBaseSize_def MaxBlockWeight_def minUint32_def defaultBlockMaxSize_def
      defaultBlockMaxWeight_def WitnessScaleFactor_def)


lemma check_tls_iff:
  "check_tls addrs = Inr () \<longleftrightarrow> (\<forall>addr \<in> set addrs. \<exists>host port. SplitHostPort addr = Inr (host, port) \<and> host \<in> allowedTLSListeners)"
  by (induction addrs) (auto split: sum.splits)

lemma check_credentials_ok:
  assumes "check_credentials cfg = Inr cfg'" and "\<not> DisableRPC cfg'"
  shows "(RPCUser cfg' \<noteq> [] \<and> RPCPass cfg' \<noteq> [] \<or> RPCLimitUser cfg' \<noteq> [] \<and> RPCLimitPass cfg' \<noteq> []) \<and>
    (RPCUser cfg' = RPCLimitUser cfg' \<longrightarrow> RPCUser cfg' = []) \<and> (RPCPass cfg' = RPCLimitPass cfg' \<longrightarrow> RPCPass cfg' = [])"
  using assms by (auto simp: check_credentials_def split: if_splits)

lemma loadConfig_credentials:
  assumes "loadConfig env testnet loggers = Inr (net, cfg, loggers', args)" and "\<not> DisableRPC cfg"
  shows "(RPCUser cfg \<noteq> [] \<and> RPCPass cfg \<noteq> [] \<or> RPCLimitUser cfg \<noteq> [] \<and> RPCLimitPass cfg \<noteq> []) \<and>
    (RPCUser cfg = RPCLimitUser cfg \<longrightarrow> RPCUser cfg = []) \<and> (RPCPass cfg = RPCLimitPass cfg \<longrightarrow> RPCPass cfg = [])"
proof -
  obtain cfg0 where "complete_config env testnet loggers cfg0 = Inr (net, cfg, loggers')"
    using assms(1) by (rule loadConfig_completed)
  then show ?thesis
  proof (rule complete_config_steps)
    fix c4 c5 c6 c7 c8 c9 c10
    assume c: "check_credentials c4 = Inr c5" "default_rpc_listeners (env_localhost env) net c5 = Inr c6" "check_fees c6 = Inr c7"
      "check_block_limits c7 = Inr c8" "finish_peers net (normalize_listeners net c8) = Inr c9" "configure_proxy c9 = Inr c10"
      "configure_onion c10 = Inr cfg"
    have "rpc_fields cfg = rpc_fields c5"
      using c(2-7) configure_onion_frame configure_proxy_frame finish_peers_frame normalize_listeners_frame
        check_block_limits_frame check_fees_frame default_rpc_listeners_frame by simp
    then have r: "RPCUser cfg = RPCUser c5" "RPCPass cfg = RPCPass c5" "RPCLimitUser cfg = RPCLimitUser c5"
      "RPCLimitPass cfg = RPCLimitPass c5" "DisableRPC cfg = DisableRPC c5" by (simp_all add: rpc_fields_def)
    show ?thesis using check_credentials_ok [OF c(1)] assms(2) unfolding r by simp
  qed
qed

text \<open>
  The RPC server of an accepted configuration is never reachable without TLS from another machine, and
  it runs only with a full set of credentials.
\<close>

theorem loadConfig_rpc:
  assumes "loadConfig env testnet loggers = Inr (net, cfg, loggers', args)" and "\<not> DisableRPC cfg"
  shows "(DisableTLS cfg \<longrightarrow> (\<forall>addr \<in> set (RPCListeners cfg). \<exists>host port.
        SplitHostPort addr = Inr (host, port) \<and> host \<in> {''localhost'', ''127.0.0.1'', ''::1''})) \<and>
    distinct (RPCListeners cfg) \<and>
    (RPCUser cfg \<noteq> [] \<and> RPCPass cfg \<noteq> [] \<or> RPCLimitUser cfg \<noteq> [] \<and> RPCLimitPass cfg \<noteq> []) \<and>
    (RPCUser cfg = RPCLimitUser cfg \<longrightarrow> RPCUser cfg = []) \<and> (RPCPass cfg = RPCLimitPass cfg \<longrightarrow> RPCPass cfg = [])"
proof -
  obtain cfg0 where "complete_config env testnet loggers cfg0 = Inr (net, cfg, loggers')"
    using assms(1) by (rule loadConfig_completed)
  then show ?thesis
  proof (rule complete_config_steps)
    fix c8 c9 c10
    assume c: "check_rpc_listeners (normalize_listeners net c8) = Inr ()"
      "finish_peers net (normalize_listeners net c8) = Inr c9" "configure_proxy c9 = Inr c10" "configure_onion c10 = Inr cfg"
    have f: "rpc_fields cfg = rpc_fields (normalize_listeners net c8)" "RPCListeners cfg = RPCListeners (normalize_listeners net c8)"
      using c(2-4) configure_onion_frame configure_proxy_frame finish_peers_frame by simp_all
    then have "DisableTLS cfg \<longrightarrow> check_tls (RPCListeners cfg) = Inr ()"
      using c(1) assms(2) by (auto simp: check_rpc_listeners_def rpc_fields_def)
    moreover have "distinct (RPCListeners cfg)"
      unfolding f by (simp add: normalize_listeners_def normalizeAddresses_def removeDuplicateAddresses_eq)
    ultimately show ?thesis
      using loadConfig_credentials [OF assms] by (simp add: check_tls_iff allowedTLSListeners_def)
  qed
qed

theorem loadConfig_rpc_witness:
  "\<exists>cfg lv. loadConfig sample_env regressionNetParams sample_levels = Inr (mainNetParams, cfg, lv, []) \<and>
     \<not> DisableRPC cfg \<and> distinct (RPCListeners cfg) \<and> RPCUser cfg \<noteq> RPCLimitUser cfg"
proof -
  obtain cfg lv where c: "loadConfig sample_env regressionNetParams sample_levels = Inr (mainNetParams, cfg, lv, [])"
    and r: "rpc_fields cfg = ((''jiajimeidou'', ''12345678'', [], []), False, False)" using sample_loaded by blast
  then have "\<not> DisableRPC cfg" "RPCUser cfg \<noteq> []" by (simp_all add: rpc_fields_def)
  with c loadConfig_rpc [OF c] show ?thesis by blast
qed

text \<open>The credentials of the sample configuration of the repository are rejected.\<close>

lemma sample_file_rejected:
  assumes "RPCUser cfg = ''jajimeidou''" "RPCPass cfg = ''12345678''" "RPCLimitUser cfg = ''jiajimeidoulimit''"
    "RPCLimitPass cfg = ''12345678''"
  shows "check_credentials cfg = Inl SamePassword"
  unfolding check_credentials_def assms by simp

section \<open>Proxies\<close>


definition proxy_env :: "string config_env" where
  "proxy_env = sample_env\<lparr>env_cli_parse := (\<lambda>cfg. (cfg\<lparr>Proxy := ''127.0.0.1:9050'', TorIsolation := True\<rparr>, None, []))\<rparr>"

lemma proxy_loaded:
  "\<exists>cfg lv. loadConfig proxy_env testnet sample_levels = Inr (mainNetParams, cfg, lv, []) \<and>
     proxy_fields cfg = ((''127.0.0.1:9050'', [], []), ([], [], []), False, True)"
proof -
  let ?c = "(default_config ''/home/u/.acbc'')\<lparr>Proxy := ''127.0.0.1:9050'', TorIsolation := True\<rparr>"
  have s: "select_network testnet ?c = Inr (0, mainNetParams, ?c)"
    by (simp add: select_network_def default_config_def)
  have o: "parse_options proxy_env = Inr (?c, [])"
    by (simp add: parse_options_def sample_env_def proxy_env_def read_ini_def config_content_def default_config_def)
  have p: "SplitHostPort ''127.0.0.1:9050'' = Inr (''127.0.0.1'', ''9050'')" by code_simp
  show ?thesis
    unfolding loadConfig_def o bindR_simps case_prod_conv complete_config_def s
    by (simp add: check_network_def default_config_def mainNetParams_def MainNetParams_def zero_Params_def MainNet_def
        namespace_dirs_def configure_logging_def sample_env_def proxy_env_def parseAndSetDebugLevels_def contains_char_def validLogLevel_def
        check_options_def validDbType_def second_def hour_def configure_peers_def sample_normalized check_credentials_def
        default_rpc_listeners_def check_fees_def default_fee check_block_limits_def blockMaxSizeMin_def blockMaxSizeMax_def
        blockMaxWeightMin_def blockMaxWeightMax_def MaxBlockBaseSize_def MaxBlockWeight_def minUint32_def check_conflicts_def
        normalize_listeners_def check_rpc_listeners_def finish_peers_def configure_proxy_def configure_onion_def p
        defaultBlockMaxSize_def defaultBlockMaxWeight_def DefaultBlockPrioritySize_def fields_defs Let_def)
qed


end
