(* ===== verification/Credentials.thy ===== *)
theory Credentials
  imports Config Sha256_Bits
begin

text \<open>
  From the credentials \<^verbatim>\<open>loadConfig\<close> accepts to what \<^verbatim>\<open>checkAuth\<close> of the RPC server lets in: the
  composition of \<^verbatim>\<open>config.go\<close> and \<^verbatim>\<open>rpcserver.go\<close>.
\<close>

section \<open>Headers\<close>

text \<open>The base 64 encoding is injective, and so is a header whose user has no colon.\<close>

lemma b64_eq_iff: "b64 m = b64 n \<longleftrightarrow> m mod 64 = n mod 64"
proof -
  have "distinct base64_alphabet" "length base64_alphabet = 64" by code_simp+
  then show ?thesis by (simp add: b64_def nth_eq_iff_index_eq)
qed

lemma b64_not_pad [simp]: "b64 n \<noteq> CHR ''=''" "CHR ''='' \<noteq> b64 n"
proof -
  have "CHR ''='' \<notin> set base64_alphabet" "length base64_alphabet = 64" by code_simp+
  moreover have "b64 n \<in> set base64_alphabet" using calculation(2) by (simp add: b64_def)
  ultimately show "b64 n \<noteq> CHR ''=''" "CHR ''='' \<noteq> b64 n" by auto
qed

lemma digits_64:
  assumes "m < 16777216" "n < (16777216 :: nat)" "m div 262144 mod 64 = n div 262144 mod 64" "m div 4096 mod 64 = n div 4096 mod 64"
    "m div 64 mod 64 = n div 64 mod 64" "m mod 64 = n mod 64"
  shows "m = n"
proof -
  have d: "k = 262144 * (k div 262144 mod 64) + 4096 * (k div 4096 mod 64) + 64 * (k div 64 mod 64) + k mod 64" if "k < 16777216" for k :: nat
  proof -
    define q1 q2 q3 where "q1 = k div 64" and "q2 = q1 div 64" and "q3 = q2 div 64"
    have q: "k div 4096 = q2" "k div 262144 = q3" by (simp_all add: q1_def q2_def q3_def flip: div_mult2_eq)
    have "q3 < 64" using that unfolding q(2) [symmetric] by (simp add: less_mult_imp_div_less)
    moreover have "k = 64 * q1 + k mod 64" "q1 = 64 * q2 + q1 mod 64" "q2 = 64 * q3 + q2 mod 64"
      by (simp_all add: q1_def q2_def q3_def)
    ultimately show ?thesis unfolding q q1_def [symmetric] by simp
  qed
  have "m = 262144 * (n div 262144 mod 64) + 4096 * (n div 4096 mod 64) + 64 * (n div 64 mod 64) + n mod 64"
    using d [OF assms(1)] unfolding assms(3-6) .
  also have "\<dots> = n" using d [OF assms(2)] by (rule sym)
  finally show ?thesis .
qed

lemma horner_256: "a * 256 + c = b * 256 + d \<Longrightarrow> c < 256 \<Longrightarrow> d < (256 :: nat) \<Longrightarrow> a = b \<and> c = d"
proof -
  assume e: "a * 256 + c = b * 256 + d" and l: "c < 256" "d < 256"
  have "(a * 256 + c) div 256 = a" "(b * 256 + d) div 256 = b" using l by simp_all
  with e show ?thesis by simp
qed

lemma mod_64_zero: "(a * 65536 + b * 256) mod 64 = (0 :: nat)"
proof -
  have "a * 65536 + b * 256 = (a * 1024 + b * 4) * 64" by simp
  then show ?thesis by (simp only: mod_mult_self2_is_0)
qed

lemma byte_less: "unat (b :: byte) < 256"
  using unsigned_less [of b, where 'a = nat] by simp

lemma three_bytes_less: "unat (a :: byte) * 65536 + unat (b :: byte) * 256 + unat (c :: byte) < 16777216"
  using byte_less [of a] byte_less [of b] byte_less [of c] by simp

lemma three_bytes_inject:
  assumes "unat (a :: byte) * 65536 + unat (b :: byte) * 256 + unat (c :: byte) = unat (d :: byte) * 65536 + unat (e :: byte) * 256 + unat (f :: byte)"
  shows "a = d \<and> b = e \<and> c = f"
proof -
  have "(unat a * 256 + unat b) * 256 + unat c = (unat d * 256 + unat e) * 256 + unat f" using assms by simp
  then have "unat a * 256 + unat b = unat d * 256 + unat e" "unat c = unat f" using horner_256 byte_less by blast+
  then have "unat a = unat d" "unat b = unat e" "unat c = unat f" using horner_256 byte_less by blast+
  then show ?thesis by (simp add: word_unat_eq_iff)
qed

lemma base64_quads:
  assumes "b64 (m div 262144) = b64 (n div 262144)" "b64 (m div 4096) = b64 (n div 4096)"
    "b64 (m div 64) = b64 (n div 64)" "b64 m = b64 n" "m < 16777216" "n < 16777216"
  shows "m = n"
  using assms(1-4) unfolding b64_eq_iff by (rule digits_64 [OF assms(5,6)])

lemma base64_three: "base64_EncodeToString (a # b # c # bs) = base64_EncodeToString (d # e # f # es) \<Longrightarrow>
    a = d \<and> b = e \<and> c = f \<and> base64_EncodeToString bs = base64_EncodeToString es"
  unfolding base64_EncodeToString.simps Let_def list.inject
  by (elim conjE) (drule (3) base64_quads [OF _ _ _ _ three_bytes_less three_bytes_less], drule three_bytes_inject, simp)

lemma base64_two: "base64_EncodeToString [a, b] = base64_EncodeToString [d, e] \<Longrightarrow> a = d \<and> b = e"
proof -
  assume p: "base64_EncodeToString [a, b] = base64_EncodeToString [d, e]"
  let ?m = "unat a * 65536 + unat b * 256" and ?n = "unat d * 65536 + unat e * 256"
  have z: "b64 ?m = b64 ?n" unfolding b64_eq_iff mod_64_zero ..
  have l: "?m < 16777216" "?n < 16777216" using three_bytes_less [of a b 0] three_bytes_less [of d e 0] by simp_all
  have "?m = ?n"
    using p z unfolding base64_EncodeToString.simps Let_def list.inject by (intro base64_quads [OF _ _ _ _ l]; blast)
  then show ?thesis using three_bytes_inject [of a b 0 d e 0] by simp
qed

lemma base64_one: "base64_EncodeToString [a] = base64_EncodeToString [d] \<Longrightarrow> a = d"
proof -
  assume p: "base64_EncodeToString [a] = base64_EncodeToString [d]"
  let ?m = "unat a * 65536" and ?n = "unat d * 65536"
  have z: "b64 ?m = b64 ?n" unfolding b64_eq_iff using mod_64_zero [of "unat a" 0] mod_64_zero [of "unat d" 0] by simp
  have "?m div 64 mod 64 = 0" "?n div 64 mod 64 = 0"
    using mod_64_zero [of 0 "unat a * 4"] mod_64_zero [of 0 "unat d * 4"] by (simp_all add: mult.assoc)
  then have z2: "b64 (?m div 64) = b64 (?n div 64)" unfolding b64_eq_iff by simp
  have l: "?m < 16777216" "?n < 16777216" using three_bytes_less [of a 0 0] three_bytes_less [of d 0 0] by simp_all
  have "?m = ?n"
    using p z z2 unfolding base64_EncodeToString.simps Let_def list.inject by (intro base64_quads [OF _ _ _ _ l]; blast)
  then show ?thesis using three_bytes_inject [of a 0 0 d 0 0] by simp
qed

lemma base64_inject: "base64_EncodeToString xs = base64_EncodeToString ys \<Longrightarrow> xs = ys"
proof (induction xs arbitrary: ys rule: base64_EncodeToString.induct)
  case 1
  then show ?case by (cases ys rule: base64_EncodeToString.cases) (auto simp: Let_def)
next
  case (2 a)
  then obtain d where ys: "ys = [d]" by (cases ys rule: base64_EncodeToString.cases) (auto simp: Let_def)
  show ?case using base64_one [OF "2.prems" [unfolded ys]] by (simp add: ys)
next
  case (3 a b)
  then obtain d e where ys: "ys = [d, e]" by (cases ys rule: base64_EncodeToString.cases) (auto simp: Let_def)
  show ?case using base64_two [OF "3.prems" [unfolded ys]] by (simp add: ys)
next
  case (4 a b c bs)
  then obtain d e f es where ys: "ys = d # e # f # es" by (cases ys rule: base64_EncodeToString.cases) (auto simp: Let_def)
  show ?case using base64_three [OF "4.prems" [unfolded ys]] "4.IH" by (simp add: ys)
qed

lemma string_bytes_inject: "string_bytes s = string_bytes t \<longleftrightarrow> s = t"
  by (metis bytes_string_bytes)

lemma basic_auth_inject:
  assumes "CHR '':'' \<notin> set u" and "CHR '':'' \<notin> set v"
  shows "basic_auth u p = basic_auth v q \<longleftrightarrow> u = v \<and> p = q"
proof
  assume "basic_auth u p = basic_auth v q"
  then have "u @ CHR '':'' # p = v @ CHR '':'' # q"
    using base64_inject [of "string_bytes (u @ CHR '':'' # p)" "string_bytes (v @ CHR '':'' # q)"]
    by (simp add: basic_auth_def string_bytes_inject Let_def)
  then have e: "u @ CHR '':'' # p = v @ CHR '':'' # q" .
  have "u # split_char (CHR '':'') p = v # split_char (CHR '':'') q"
    using arg_cong [OF e, of "split_char (CHR '':'')"] unfolding split_char_append [OF assms(1)] split_char_append [OF assms(2)] .
  then have "u = v" by simp
  with e show "u = v \<and> p = q" by simp
qed simp

section \<open>What the server lets in\<close>

abbreviation header_digest :: "string \<Rightarrow> bytes" where "header_digest h \<equiv> Sum256 (string_bytes h)"

lemma checkAuth_header:
  "checkAuth s (h # hdrs) require =
     (if header_digest h = limitauthsha s then (True, False, None)
      else if header_digest h = authsha s then (True, True, None) else (False, False, Some ''auth failure''))"
  by (simp add: checkAuth_def ConstantTimeCompare_eq Let_def)

text \<open>
  C7: With an accepted configuration whose users have no colon, and as far as the digest tells the headers
  concerned apart, a client gets in exactly with one of the configured pairs of user and password, with
  the rights of an administrator exactly for the administrator's pair.
\<close>

theorem accepted_credentials:
  assumes "loadConfig env testnet loggers = Inr (net, cfg, loggers', args)" and "\<not> DisableRPC cfg"
    and "CHR '':'' \<notin> set (RPCUser cfg)" "CHR '':'' \<notin> set (RPCLimitUser cfg)" "CHR '':'' \<notin> set u"
    and "inj_on (\<lambda>h. Sum256 (string_bytes h))
      {basic_auth u p, basic_auth (RPCUser cfg) (RPCPass cfg), basic_auth (RPCLimitUser cfg) (RPCLimitPass cfg)}"
    and "Sum256 (string_bytes (basic_auth u p)) \<noteq> replicate 32 0"
  shows "checkAuth (newRPCServer (rpc_settings cfg) lns) (basic_auth u p # hdrs) require =
    (if u \<noteq> [] \<and> p \<noteq> [] \<and> (u, p) = (RPCUser cfg, RPCPass cfg) then (True, True, None)
     else if u \<noteq> [] \<and> p \<noteq> [] \<and> (u, p) = (RPCLimitUser cfg, RPCLimitPass cfg) then (True, False, None)
     else (False, False, Some ''auth failure''))"
proof -
  have d: "header_digest (basic_auth u p) = header_digest (basic_auth (RPCUser cfg) (RPCPass cfg)) \<longleftrightarrow>
      u = RPCUser cfg \<and> p = RPCPass cfg"
    "header_digest (basic_auth u p) = header_digest (basic_auth (RPCLimitUser cfg) (RPCLimitPass cfg)) \<longleftrightarrow>
      u = RPCLimitUser cfg \<and> p = RPCLimitPass cfg"
    "header_digest (basic_auth (RPCUser cfg) (RPCPass cfg)) = header_digest (basic_auth (RPCLimitUser cfg) (RPCLimitPass cfg)) \<longleftrightarrow>
      RPCUser cfg = RPCLimitUser cfg \<and> RPCPass cfg = RPCLimitPass cfg"
    using inj_on_eq_iff [OF assms(6)] basic_auth_inject [OF assms(5,3)] basic_auth_inject [OF assms(5,4)]
      basic_auth_inject [OF assms(3,4)] by simp_all
  show ?thesis
    using loadConfig_credentials [OF assms(1,2)] assms(7)
    by (auto simp: checkAuth_header newRPCServer_def rpc_settings_def d)
qed

text \<open>
  Users with a colon are accepted, and then two different pairs may share a header: the administrator
  only gets the rights of the limited user.
\<close>

lemma colon_users:
  assumes "cfg = (default_config home)\<lparr>RPCUser := ''a:b'', RPCPass := ''c'', RPCLimitUser := ''a'', RPCLimitPass := ''b:c''\<rparr>"
  shows "check_credentials cfg = Inr cfg \<and>
    checkAuth (newRPCServer (rpc_settings cfg) lns) [basic_auth (RPCUser cfg) (RPCPass cfg)] True = (True, False, None)"
proof -
  have "basic_auth ''a:b'' ''c'' = basic_auth ''a'' ''b:c''" by (simp add: basic_auth_def)
  then show ?thesis
    unfolding assms by (simp add: check_credentials_def default_config_def checkAuth_header newRPCServer_def rpc_settings_def)
qed

section \<open>Witness\<close>

text \<open>The digests of a header of the sample run and of a header with a wrong password.\<close>

lemma digest_eqI:
  assumes "sha_pad m = p" and "length p = 64 * n"
    and "digest_bits (map bits_of sha_K) (map bits_of sha_H0) n (map bits_of p) = map bits_of d"
  shows "Sum256 m = d"
proof -
  have "map bits_of (Sum256 m) = map bits_of d"
    using digest_bits_of [of m n] assms by simp
  moreover have "inj (bits_of :: byte \<Rightarrow> bool list)" by (rule injI) simp
  ultimately show ?thesis by (simp only: inj_map_eq_map)
qed

lemma sample_headers:
  "string_bytes (basic_auth ''jiajimeidou'' ''12345678'') =
    [0x42, 0x61, 0x73, 0x69, 0x63, 0x20, 0x61, 0x6d, 0x6c, 0x68, 0x61, 0x6d, 0x6c, 0x74, 0x5a, 0x57,
     0x6c, 0x6b, 0x62, 0x33, 0x55, 0x36, 0x4d, 0x54, 0x49, 0x7a, 0x4e, 0x44, 0x55, 0x32, 0x4e, 0x7a,
     0x67, 0x3d]"
  "string_bytes (basic_auth ''jiajimeidou'' ''wrong'') =
    [0x42, 0x61, 0x73, 0x69, 0x63, 0x20, 0x61, 0x6d, 0x6c, 0x68, 0x61, 0x6d, 0x6c, 0x74, 0x5a, 0x57,
     0x6c, 0x6b, 0x62, 0x33, 0x55, 0x36, 0x64, 0x33, 0x4a, 0x76, 0x62, 0x6d, 0x63, 0x3d]"
  "string_bytes (basic_auth [] []) = [0x42, 0x61, 0x73, 0x69, 0x63, 0x20, 0x4f, 0x67, 0x3d, 0x3d]"
  by (simp_all add: basic_auth_def string_bytes_def base64_EncodeToString.simps b64_def base64_alphabet_def Let_def)

lemma be_bytes_lengths: "be_bytes 8 (272 :: uint64) = [0, 0, 0, 0, 0, 0, 1, 16]" "be_bytes 8 (240 :: uint64) = [0, 0, 0, 0, 0, 0, 0, 240]"
  "be_bytes 8 (80 :: uint64) = [0, 0, 0, 0, 0, 0, 0, 80]"
  by code_simp+

definition pad_34 :: bytes where
  "pad_34 = [0x80, 0, 0, 0, 0, 0, 0, 0, 0, 0, 0, 0, 0, 0, 0, 0,
     0, 0, 0, 0, 0, 0, 0, 0, 0, 0, 0, 0, 1, 0x10]"

definition pad_30 :: bytes where
  "pad_30 = [0x80, 0, 0, 0, 0, 0, 0, 0, 0, 0, 0, 0, 0, 0, 0, 0,
     0, 0, 0, 0, 0, 0, 0, 0, 0, 0, 0, 0, 0, 0, 0, 0,
     0, 0xf0]"

definition pad_10 :: bytes where
  "pad_10 = [0x80, 0, 0, 0, 0, 0, 0, 0, 0, 0, 0, 0, 0, 0, 0, 0,
     0, 0, 0, 0, 0, 0, 0, 0, 0, 0, 0, 0, 0, 0, 0, 0,
     0, 0, 0, 0, 0, 0, 0, 0, 0, 0, 0, 0, 0, 0, 0, 0,
     0, 0, 0, 0, 0, 0x50]"

lemma sha_pads: "length m = 34 \<Longrightarrow> sha_pad m = m @ pad_34" "length m = 30 \<Longrightarrow> sha_pad m = m @ pad_30"
  "length m = 10 \<Longrightarrow> sha_pad m = m @ pad_10"
  by (simp_all add: sha_pad_def be_bytes_lengths replicate_numeral pad_34_def pad_30_def pad_10_def)

lemma header_lengths: "length (basic_auth ''jiajimeidou'' ''12345678'') = 34" "length (basic_auth ''jiajimeidou'' ''wrong'') = 30"
  "length (basic_auth [] []) = 10"
  using sample_headers [THEN arg_cong, of length] by simp_all

lemma right_digest:
  "Sum256 (string_bytes (basic_auth ''jiajimeidou'' ''12345678'')) =
    [0x8f, 0x96, 0x1f, 3, 0x1d, 0x66, 0x37, 0x3d, 0x2b, 0xa6, 0xde, 0x8e, 0xd7, 0xf9, 0x78, 0xa5,
     0xb7, 0xd4, 0xfe, 0x22, 0x7c, 0x2b, 0x86, 0x80, 0x6d, 0x16, 0xd8, 0xd6, 0x3c, 0xe5, 0xbe, 0x77]"
  by (rule digest_eqI [where n = 1, OF sha_pads(1)], simp add: header_lengths, simp add: header_lengths pad_34_def,
      simp only: sample_headers pad_34_def append_Cons append_Nil sha_literals, code_simp)

lemma wrong_digest:
  "Sum256 (string_bytes (basic_auth ''jiajimeidou'' ''wrong'')) =
    [0xbd, 0x2b, 0xb6, 0xee, 0x0f, 0x57, 0x63, 0xa9, 0x89, 0x5b, 0x60, 0x28, 0x29, 0x50, 0x7a, 0x76,
     0x2a, 0x8c, 0x4c, 0x40, 0x94, 0x4b, 0x31, 0x87, 0x7b, 0x6f, 0x49, 0x2a, 0x97, 0x29, 0x60, 0x62]"
  by (rule digest_eqI [where n = 1, OF sha_pads(2)], simp add: header_lengths, simp add: header_lengths pad_30_def,
      simp only: sample_headers pad_30_def append_Cons append_Nil sha_literals, code_simp)

lemma empty_digest:
  "Sum256 (string_bytes (basic_auth [] [])) =
    [0xd9, 0xfa, 0x29, 0x1e, 0xfa, 0x0c, 0x92, 0x48, 0x51, 0xf3, 0xea, 0x14, 0xe7, 0x3b, 0x18, 0x47,
     0x50, 0x6a, 0xb4, 0x51, 0xfb, 0x83, 0x4b, 0x71, 1, 0xe5, 0xa1, 0xa8, 0x8f, 0x94, 0xf5, 0]"
  by (rule digest_eqI [where n = 1, OF sha_pads(3)], simp add: header_lengths, simp add: header_lengths pad_10_def,
      simp only: sample_headers pad_10_def append_Cons append_Nil sha_literals, code_simp)

lemma sample_digests:
  "inj_on (\<lambda>h. Sum256 (string_bytes h))
     {basic_auth ''jiajimeidou'' ''wrong'', basic_auth ''jiajimeidou'' ''12345678'', basic_auth [] []}"
  "Sum256 (string_bytes (basic_auth ''jiajimeidou'' ''wrong'')) \<noteq> replicate 32 0"
  unfolding inj_on_def ball_simps(5,7) right_digest wrong_digest empty_digest by (simp_all add: replicate_numeral)

theorem accepted_credentials_witness:
  "\<exists>cfg lv. loadConfig sample_env regressionNetParams sample_levels = Inr (mainNetParams, cfg, lv, []) \<and>
     checkAuth (newRPCServer (rpc_settings cfg) []) [basic_auth ''jiajimeidou'' ''wrong''] True = (False, False, Some ''auth failure'')"
proof -
  obtain cfg lv where c: "loadConfig sample_env regressionNetParams sample_levels = Inr (mainNetParams, cfg, lv, [])"
    and "rpc_fields cfg = ((''jiajimeidou'', ''12345678'', [], []), False, False)" using sample_loaded by blast
  then have r: "RPCUser cfg = ''jiajimeidou''" "RPCPass cfg = ''12345678''" "RPCLimitUser cfg = []" "RPCLimitPass cfg = []"
    "\<not> DisableRPC cfg" by (simp_all add: rpc_fields_def)
  have "checkAuth (newRPCServer (rpc_settings cfg) []) [basic_auth ''jiajimeidou'' ''wrong''] True = (False, False, Some ''auth failure'')"
    using accepted_credentials [OF c r(5), of "''jiajimeidou''" "''wrong''"] sample_digests by (simp add: r)
  with c show ?thesis by blast
qed

end
