(* ===== verification/Certs.thy ===== *)
theory Certs
  imports Net_IP
begin

text \<open>
  The certificate the RPC server makes for itself: \<^verbatim>\<open>acbcutil/certgen.go\<close> and \<^verbatim>\<open>genCertPair\<close> of
  \<^verbatim>\<open>rpcserver.go\<close>. Keys, random numbers, the encoding of certificates and the addresses of the machine
  are arguments.
\<close>

section \<open>Addresses of the standard library\<close>

text \<open>\<^verbatim>\<open>IP.Equal\<close>, and the first result of \<^verbatim>\<open>net.ParseCIDR\<close>.\<close>

definition v4InV6Prefix :: bytes where "v4InV6Prefix = replicate 10 0 @ [0xff, 0xff]"

definition ip_Equal :: "bytes \<Rightarrow> bytes \<Rightarrow> bool" where
  "ip_Equal ip x =
     (if length ip = length x then ip = x
      else if length ip = 4 \<and> length x = 16 then take 12 x = v4InV6Prefix \<and> ip = drop 12 x
      else if length ip = 16 \<and> length x = 4 then take 12 ip = v4InV6Prefix \<and> drop 12 ip = x
      else False)"

definition ParseCIDR_IP :: "string \<Rightarrow> bytes option" where
  "ParseCIDR_IP s =
     (case (ParseCIDR s, first_index (CHR ''/'') s) of
        (Some _, Some i) \<Rightarrow>
          (case parseIPv4 (take i s) of Some ip \<Rightarrow> Some ip | None \<Rightarrow> parseIPv6 (take i s))
      | _ \<Rightarrow> None)"

text \<open>\<^verbatim>\<open>pem.Encode\<close> without headers: lines of 64 characters.\<close>

function pem_lines :: "string \<Rightarrow> string" where
  "pem_lines s = (if s = [] then [] else take 64 s @ CHR 0x0A # pem_lines (drop 64 s))"
  by pat_completeness auto
termination by (relation "measure length") auto

declare pem_lines.simps [simp del]

definition pem_Encode :: "string \<Rightarrow> bytes \<Rightarrow> string" where
  "pem_Encode typ bs =
     ''-----BEGIN '' @ typ @ ''-----'' @ [CHR 0x0A] @ pem_lines (base64_EncodeToString bs) @
     ''-----END '' @ typ @ ''-----'' @ [CHR 0x0A]"

section \<open>Certificates\<close>

text \<open>Times are in nanoseconds.\<close>

definition hours :: "int \<Rightarrow> int" where "hours n = n * 3600 * 10 ^ 9"

text \<open>The last second of 2049 since 1970.\<close>

definition endOfTime :: int where "endOfTime = 2524607999 * 10 ^ 9"

definition KeyUsage_server :: nat where "KeyUsage_server = 4 + 1 + 32"

record cert_template =
  SerialNumber :: int
  Organization :: "string list"
  CommonName :: string
  NotBefore :: int
  NotAfter :: int
  KeyUsage :: nat
  IsCA :: bool
  BasicConstraintsValid :: bool
  DNSNames :: "string list"
  IPAddresses :: "bytes list"

record 'k cert_env =
  ce_now :: int
  ce_key :: "string + 'k"
  ce_serial :: "string + int"
  ce_hostname :: "string + string"
  ce_addrs :: "string + string list"
  ce_create :: "cert_template \<Rightarrow> 'k \<Rightarrow> string + bytes"
  ce_marshal :: "'k \<Rightarrow> string + bytes"

definition addIP :: "bytes \<Rightarrow> bytes list \<Rightarrow> bytes list" where
  "addIP ipAddr ips = (if list_ex (\<lambda>ip. ip_Equal ip ipAddr) ips then ips else ips @ [ipAddr])"

definition addHost :: "string \<Rightarrow> string list \<Rightarrow> string list" where
  "addHost host names = (if list_ex (\<lambda>dnsName. host = dnsName) names then names else names @ [host])"

definition add_interface :: "string \<Rightarrow> bytes list \<Rightarrow> bytes list" where
  "add_interface a ips = (case ParseCIDR_IP a of None \<Rightarrow> ips | Some ipAddr \<Rightarrow> addIP ipAddr ips)"

definition extra_host :: "string \<Rightarrow> string" where
  "extra_host hostStr = (case SplitHostPort hostStr of Inl _ \<Rightarrow> hostStr | Inr (host, _) \<Rightarrow> host)"

definition add_extra :: "string \<Rightarrow> string list \<times> bytes list \<Rightarrow> string list \<times> bytes list" where
  "add_extra hostStr =
     (\<lambda>(names, ips).
       let host = extra_host hostStr in
       case ParseIP host of Some ip \<Rightarrow> (names, addIP ip ips) | None \<Rightarrow> (addHost host names, ips))"

definition loopback4 :: bytes where "loopback4 = net_IPv4 [127, 0, 0, 1]"
definition loopback6 :: bytes where "loopback6 = replicate 15 0 @ [1]"

definition cert_names :: "string \<Rightarrow> string list \<Rightarrow> string list \<Rightarrow> string list \<times> bytes list" where
  "cert_names host addrs extraHosts =
     (let ips = [loopback4, loopback6];
          names = (if host \<noteq> ''localhost'' then [host, ''localhost''] else [host])
      in fold add_extra extraHosts (names, fold add_interface addrs ips))"

definition prefix_error :: "string \<Rightarrow> string + 'a \<Rightarrow> string + 'a" where
  "prefix_error msg m = (case m of Inl err \<Rightarrow> Inl (msg @ err) | Inr a \<Rightarrow> Inr a)"

definition NewTLSCertPair :: "'k cert_env \<Rightarrow> string \<Rightarrow> int \<Rightarrow> string list \<Rightarrow> string + string \<times> string" where
  "NewTLSCertPair env org validUntil extraHosts =
     (if validUntil < ce_now env then Inl ''validUntil would create an already-expired certificate''
      else
        bindR (ce_key env) (\<lambda>priv.
          let validUntil = (if validUntil > endOfTime then endOfTime else validUntil) in
        bindR (prefix_error ''failed to generate serial number: '' (ce_serial env)) (\<lambda>serialNumber.
        bindR (ce_hostname env) (\<lambda>host.
        bindR (ce_addrs env) (\<lambda>addrs.
          let (dnsNames, ipAddresses) = cert_names host addrs extraHosts;
              template = \<lparr>SerialNumber = serialNumber, Organization = [org], CommonName = host,
                NotBefore = ce_now env + - hours 24, NotAfter = validUntil, KeyUsage = KeyUsage_server,
                IsCA = True, BasicConstraintsValid = True, DNSNames = dnsNames, IPAddresses = ipAddresses\<rparr> in
        bindR (prefix_error ''failed to create certificate: '' (ce_create env template priv)) (\<lambda>derBytes.
        bindR (prefix_error ''failed to marshal private key: '' (ce_marshal env priv)) (\<lambda>keybytes.
          Inr (pem_Encode ''CERTIFICATE'' derBytes, pem_Encode ''EC PRIVATE KEY'' keybytes))))))))"

text \<open>
  Files by their paths. Writing one is an argument, as it may fail after changing the file; removing one
  is taken to work, as its error is not looked at.
\<close>

type_synonym files = "string \<rightharpoonup> string"
type_synonym write_file = "string \<Rightarrow> string \<Rightarrow> files \<Rightarrow> string option \<times> files"

definition cert_lifetime :: int where "cert_lifetime = hours (10 * 365 * 24)"

definition genCertPair :: "'k cert_env \<Rightarrow> write_file \<Rightarrow> string \<Rightarrow> string \<Rightarrow> files \<Rightarrow> string option \<times> files" where
  "genCertPair env write certFile keyFile fs =
     (case NewTLSCertPair env ''btcd autogenerated cert'' (ce_now env + cert_lifetime) [] of
        Inl err \<Rightarrow> (Some err, fs)
      | Inr (cert, key) \<Rightarrow>
          (case write certFile cert fs of
             (Some err, fs) \<Rightarrow> (Some err, fs)
           | (None, fs) \<Rightarrow>
               (case write keyFile key fs of
                  (Some err, fs) \<Rightarrow> (Some err, fs(certFile := None))
                | (None, fs) \<Rightarrow> (None, fs))))"

section \<open>Properties\<close>

lemma prefix_error_Inr: "prefix_error msg m = Inr a \<longleftrightarrow> m = Inr a"
  by (auto simp: prefix_error_def split: sum.splits)

lemma ParseIP_loopback: "ParseIP ''127.0.0.1'' = Some loopback4" "ParseIP ''::1'' = Some loopback6"
  by code_simp+

definition covered :: "bytes list \<Rightarrow> bytes \<Rightarrow> bool" where
  "covered ips ip \<longleftrightarrow> (\<exists>x \<in> set ips. ip_Equal x ip)"

definition distinct_ips :: "bytes list \<Rightarrow> bool" where
  "distinct_ips ips \<longleftrightarrow> sorted_wrt (\<lambda>x y. \<not> ip_Equal x y) ips"

lemma ip_Equal_refl [simp]: "ip_Equal ip ip"
  by (simp add: ip_Equal_def)

lemma addIP_props:
  "set ips \<subseteq> set (addIP ip ips)" "covered (addIP ip ips) ip" "distinct_ips ips \<Longrightarrow> distinct_ips (addIP ip ips)"
  by (auto simp: addIP_def covered_def distinct_ips_def sorted_wrt_append list_ex_iff)

lemma addHost_props:
  "set (addHost h names) = insert h (set names)" "distinct names \<Longrightarrow> distinct (addHost h names)"
  by (auto simp: addHost_def list_ex_iff)

lemma covered_mono: "set ips \<subseteq> set ips' \<Longrightarrow> covered ips ip \<Longrightarrow> covered ips' ip"
  by (auto simp: covered_def)

lemma add_interfaces:
  "distinct_ips ips \<Longrightarrow> distinct_ips (fold add_interface addrs ips) \<and> set ips \<subseteq> set (fold add_interface addrs ips) \<and>
     (\<forall>a \<in> set addrs. \<forall>ip. ParseCIDR_IP a = Some ip \<longrightarrow> covered (fold add_interface addrs ips) ip)"
proof (induction addrs arbitrary: ips)
  case (Cons a addrs)
  let ?ips = "add_interface a ips"
  have s: "distinct_ips ?ips" "set ips \<subseteq> set ?ips" "\<forall>ip. ParseCIDR_IP a = Some ip \<longrightarrow> covered ?ips ip"
    using Cons.prems addIP_props by (auto simp: add_interface_def split: option.splits)
  from Cons.IH [OF s(1)] s(2,3) show ?case by (auto intro: covered_mono)
qed simp

definition extra_covered :: "string list \<times> bytes list \<Rightarrow> string \<Rightarrow> bool" where
  "extra_covered ni h \<longleftrightarrow>
     (case ParseIP (extra_host h) of Some ip \<Rightarrow> covered (snd ni) ip | None \<Rightarrow> extra_host h \<in> set (fst ni))"

lemma add_extras:
  "distinct (fst ni) \<Longrightarrow> distinct_ips (snd ni) \<Longrightarrow>
     distinct (fst (fold add_extra hs ni)) \<and> distinct_ips (snd (fold add_extra hs ni)) \<and>
     set (fst ni) \<subseteq> set (fst (fold add_extra hs ni)) \<and> set (snd ni) \<subseteq> set (snd (fold add_extra hs ni)) \<and>
     (\<forall>h \<in> set hs. extra_covered (fold add_extra hs ni) h)"
proof (induction hs arbitrary: ni)
  case (Cons h hs)
  let ?ni = "add_extra h ni"
  have s: "distinct (fst ?ni)" "distinct_ips (snd ?ni)" "set (fst ni) \<subseteq> set (fst ?ni)" "set (snd ni) \<subseteq> set (snd ?ni)" "extra_covered ?ni h"
    using Cons.prems addIP_props(1) [where ips = "snd ni", THEN subsetD] addIP_props(3) [where ips = "snd ni"] addIP_props(2) addHost_props [where names = "fst ni"]
    by (auto simp: add_extra_def extra_covered_def Let_def split: prod.splits option.splits dest: subsetD)
  have "extra_covered ni' h" if "set (fst ?ni) \<subseteq> set (fst ni')" "set (snd ?ni) \<subseteq> set (snd ni')" for ni'
    using s(5) that by (auto simp: extra_covered_def intro: covered_mono split: option.splits)
  with Cons.IH [OF s(1,2)] s(3,4) show ?case by auto
qed simp

text \<open>
  C28: A certificate is made for the machine: its names are different and include the host and \<open>localhost\<close>,
  its addresses are different, include both loopback addresses and cover every interface and the hosts
  asked for, which are among the names when they are not addresses; it is valid from a day ago until the
  time asked for, cut at the end of the ASN.1 times. The first result encodes it, the second the key.
\<close>

theorem NewTLSCertPair_covers:
  assumes "NewTLSCertPair env org validUntil extraHosts = Inr (cert, key)"
  shows "\<exists>template priv der host addrs. ce_key env = Inr priv \<and> ce_create env template priv = Inr der \<and>
    cert = pem_Encode ''CERTIFICATE'' der \<and> ce_hostname env = Inr host \<and> ce_addrs env = Inr addrs \<and>
    NotAfter template = min validUntil endOfTime \<and> ce_now env \<le> validUntil \<and> NotBefore template = ce_now env - hours 24 \<and>
    distinct (DNSNames template) \<and> {host, ''localhost''} \<subseteq> set (DNSNames template) \<and>
    sorted_wrt (\<lambda>x y. \<not> ip_Equal x y) (IPAddresses template) \<and> {loopback4, loopback6} \<subseteq> set (IPAddresses template) \<and>
    (\<forall>a \<in> set addrs. \<forall>ip. ParseCIDR_IP a = Some ip \<longrightarrow> (\<exists>x \<in> set (IPAddresses template). ip_Equal x ip)) \<and>
    (\<forall>h \<in> set extraHosts. case ParseIP (extra_host h) of
       Some ip \<Rightarrow> \<exists>x \<in> set (IPAddresses template). ip_Equal x ip
     | None \<Rightarrow> extra_host h \<in> set (DNSNames template))"
proof -
  obtain priv serial host addrs where e: "ce_now env \<le> validUntil" "ce_key env = Inr priv" "ce_serial env = Inr serial"
    "ce_hostname env = Inr host" "ce_addrs env = Inr addrs"
    using assms by (auto simp: NewTLSCertPair_def bindR_Inr_conv prefix_error_Inr Let_def split: if_splits)
  obtain names ips where n: "cert_names host addrs extraHosts = (names, ips)" by fastforce
  define template where "template = \<lparr>SerialNumber = serial, Organization = [org], CommonName = host,
    NotBefore = ce_now env + - hours 24, NotAfter = (if validUntil > endOfTime then endOfTime else validUntil),
    KeyUsage = KeyUsage_server, IsCA = True, BasicConstraintsValid = True, DNSNames = names, IPAddresses = ips\<rparr>"
  obtain der where d: "ce_create env template priv = Inr der" "cert = pem_Encode ''CERTIFICATE'' der"
    using assms e n by (auto simp: NewTLSCertPair_def template_def bindR_Inr_conv prefix_error_Inr Let_def)
  let ?names = "if host \<noteq> ''localhost'' then [host, ''localhost''] else [host]"
  let ?ips = "fold add_interface addrs [loopback4, loopback6]"
  have "\<not> ip_Equal loopback4 loopback6" by code_simp
  then have l: "distinct_ips [loopback4, loopback6]" by (simp add: distinct_ips_def)
  from add_interfaces [OF this, of addrs]
  have i: "distinct_ips ?ips" "{loopback4, loopback6} \<subseteq> set ?ips"
    "\<forall>a \<in> set addrs. \<forall>ip. ParseCIDR_IP a = Some ip \<longrightarrow> covered ?ips ip" by auto
  have f: "fold add_extra extraHosts (?names, ?ips) = (names, ips)" using n by (simp add: cert_names_def)
  have "distinct names \<and> distinct_ips ips \<and> set ?names \<subseteq> set names \<and> set ?ips \<subseteq> set ips \<and>
      (\<forall>h \<in> set extraHosts. extra_covered (names, ips) h)"
    using add_extras [of "(?names, ?ips)" extraHosts] i(1) unfolding f by (simp split: if_splits)
  then have x: "distinct names" "distinct_ips ips" "{host, ''localhost''} \<subseteq> set names" "set ?ips \<subseteq> set ips"
    "\<forall>h \<in> set extraHosts. extra_covered (names, ips) h" by (auto split: if_splits)
  have c: "\<forall>a \<in> set addrs. \<forall>ip. ParseCIDR_IP a = Some ip \<longrightarrow> covered ips ip"
    using i(3) x(4) by (blast intro: covered_mono)
  have t: "DNSNames template = names" "IPAddresses template = ips" "NotAfter template = min validUntil endOfTime"
    "NotBefore template = ce_now env - hours 24"
    by (simp_all add: template_def min_def)
  have lo: "loopback4 \<in> set ips" "loopback6 \<in> set ips" using i(2) x(4) by auto
  have h: "\<forall>h \<in> set extraHosts. case ParseIP (extra_host h) of Some ip \<Rightarrow> covered ips ip | None \<Rightarrow> extra_host h \<in> set names"
    using x(5) unfolding extra_covered_def fst_conv snd_conv .
  show ?thesis
    using e d x(1-3) lo h c unfolding distinct_ips_def covered_def
    by (intro exI [of _ template] exI [of _ priv] exI [of _ der] exI [of _ host] exI [of _ addrs], unfold t) simp
qed

definition sample_cert_env :: "unit cert_env" where
  "sample_cert_env =
     \<lparr>ce_now = 0, ce_key = Inr (), ce_serial = Inr 7, ce_hostname = Inr ''node'', ce_addrs = Inr [''10.0.0.5/8'', ''127.0.0.1/8''],
      ce_create = (\<lambda>_ _. Inr [1, 2, 3]), ce_marshal = (\<lambda>_. Inr [4])\<rparr>"

lemma sample_cert: "NewTLSCertPair sample_cert_env ''o'' 5 [''example.org:80''] = Inr (pem_Encode ''CERTIFICATE'' [1, 2, 3], pem_Encode ''EC PRIVATE KEY'' [4])"
  by (simp add: NewTLSCertPair_def sample_cert_env_def prefix_error_def split: prod.splits)

theorem NewTLSCertPair_covers_witness:
  "\<exists>template. ce_create sample_cert_env template () = Inr [1, 2, 3] \<and> {''node'', ''localhost'', ''example.org''} \<subseteq> set (DNSNames template) \<and>
     (\<exists>x \<in> set (IPAddresses template). ip_Equal x (net_IPv4 [10, 0, 0, 5]))"
proof -
  have e: "extra_host ''example.org:80'' = ''example.org''" "ParseIP ''example.org'' = None"
    "ParseCIDR_IP ''10.0.0.5/8'' = Some (net_IPv4 [10, 0, 0, 5])" by code_simp+
  from NewTLSCertPair_covers [OF sample_cert] show ?thesis
    by (auto simp: e sample_cert_env_def)
qed

text \<open>
  If the key cannot be written, the certificate is removed again, so that the next start makes both;
  here writing changes only the file written, even when it fails.
\<close>

theorem genCertPair_all_or_nothing:
  assumes "\<forall>path text fs. \<forall>p. p \<noteq> path \<longrightarrow> snd (write path text fs) p = fs p"
    and "\<forall>path text fs. fst (write path text fs) = None \<longrightarrow> snd (write path text fs) path = Some text"
    and "certFile \<noteq> keyFile" and "genCertPair env write certFile keyFile fs = (err, fs')"
  shows "(err = None \<longrightarrow> (\<exists>cert key. NewTLSCertPair env ''btcd autogenerated cert'' (ce_now env + cert_lifetime) [] = Inr (cert, key) \<and>
      fs' certFile = Some cert \<and> fs' keyFile = Some key)) \<and>
    (err \<noteq> None \<longrightarrow> fs' certFile = None \<or> fs' keyFile = fs keyFile) \<and>
    (\<forall>p. p \<noteq> certFile \<and> p \<noteq> keyFile \<longrightarrow> fs' p = fs p)"
proof -
  show ?thesis
  proof (cases "NewTLSCertPair env ''btcd autogenerated cert'' (ce_now env + cert_lifetime) []")
    case (Inl e)
    then show ?thesis using assms(4) by (auto simp: genCertPair_def)
  next
    case (Inr ck)
    obtain cert key where ck: "ck = (cert, key)" by (cases ck)
    obtain e1 fs1 where w1: "write certFile cert fs = (e1, fs1)" by fastforce
    obtain e2 fs2 where w2: "write keyFile key fs1 = (e2, fs2)" by fastforce
    have f1: "\<forall>p. p \<noteq> certFile \<longrightarrow> fs1 p = fs p" "e1 = None \<longrightarrow> fs1 certFile = Some cert"
      using assms(1) [rule_format, of _ certFile cert fs] assms(2) [rule_format, of certFile cert fs] by (simp_all add: w1)
    have f2: "\<forall>p. p \<noteq> keyFile \<longrightarrow> fs2 p = fs1 p" "e2 = None \<longrightarrow> fs2 keyFile = Some key"
      using assms(1) [rule_format, of _ keyFile key fs1] assms(2) [rule_format, of keyFile key fs1] by (simp_all add: w2)
    show ?thesis
      using assms(3,4) f1 f2 by (auto simp: genCertPair_def Inr ck w1 w2 split: option.splits)
  qed
qed

end
