(* ===== verification/Connmgr.thy ===== *)
theory Connmgr
  imports Net_IP
begin

text \<open>
  The helpers of \<^verbatim>\<open>connmgr\<close>: the ban score of a peer with its decaying part
  (\<^verbatim>\<open>dynamicbanscore.go\<close>) and looking up a name through Tor (\<^verbatim>\<open>tor.go\<close>).
\<close>

section \<open>Ban scores\<close>

text \<open>
  \<open>Exp\<close> is \<^verbatim>\<open>math.Exp\<close>, whose last bits depend on the processor. The constant of the source is
  exact and rounded where it is used.
\<close>

definition Ln2 :: rat where "Ln2 = 0.693147180559945309417232121458176568075500134360255254120680009"
definition Halflife :: int where "Halflife = 60"
definition lambda :: float64 where "lambda = rnd (Ln2 / of_int Halflife)"
definition Lifetime :: int where "Lifetime = 1800"
definition precomputedLen :: int where "precomputedLen = 64"

definition decay_exp :: "(float64 \<Rightarrow> float64) \<Rightarrow> int \<Rightarrow> float64" where
  "decay_exp Exp t = Exp (rnd (rnd (- 1 * float64_of_int t) * lambda))"

definition precomputedFactor :: "(float64 \<Rightarrow> float64) \<Rightarrow> float64 list" where
  "precomputedFactor Exp = map (\<lambda>i. decay_exp Exp (int i)) [0..<nat precomputedLen]"

text \<open>\<open>None\<close> is the panic of an index out of range.\<close>

definition decayFactor :: "(float64 \<Rightarrow> float64) \<Rightarrow> int \<Rightarrow> float64 option" where
  "decayFactor Exp t =
     (if t < precomputedLen then (if 0 \<le> t then Some (precomputedFactor Exp ! nat t) else None)
      else Some (decay_exp Exp t))"

record DynamicBanScore =
  lastUnix :: int64
  transient :: float64
  persistent :: uint32

definition zero_score :: DynamicBanScore where
  "zero_score = \<lparr>lastUnix = 0, transient = 0, persistent = 0\<rparr>"

definition float64_of_uint32 :: "uint32 \<Rightarrow> float64" where
  "float64_of_uint32 n = rnd (of_nat (unat n))"

definition float64_uint32 :: "float64 \<Rightarrow> uint32" where
  "float64_uint32 f = ucast (float64_int64 f)"

text \<open>The time is in seconds, differences wrap around. The methods below take the time they read from the clock.\<close>

definition int_score :: "(float64 \<Rightarrow> float64) \<Rightarrow> DynamicBanScore \<Rightarrow> int64 \<Rightarrow> uint32 option" where
  "int_score Exp s t =
     (let dt = sint (t - lastUnix s) in
      if transient s < 1 \<or> dt < 0 \<or> Lifetime < dt then Some (persistent s)
      else map_option (\<lambda>f. persistent s + float64_uint32 (rnd (transient s * f))) (decayFactor Exp dt))"

definition increase ::
  "(float64 \<Rightarrow> float64) \<Rightarrow> DynamicBanScore \<Rightarrow> uint32 \<Rightarrow> uint32 \<Rightarrow> int64 \<Rightarrow> (uint32 \<times> DynamicBanScore) option" where
  "increase Exp s p tr t =
     (let s = s\<lparr>persistent := persistent s + p\<rparr>; tu = t; dt = sint (tu - lastUnix s);
          s' = (if tr > 0 then
                  map_option (\<lambda>f. s\<lparr>transient := rnd (f + float64_of_uint32 tr), lastUnix := tu\<rparr>)
                    (if Lifetime < dt then Some 0
                     else if transient s > 1 \<and> dt > 0 then map_option (\<lambda>f. rnd (transient s * f)) (decayFactor Exp dt)
                     else Some (transient s))
                else Some s)
      in map_option (\<lambda>s. (persistent s + float64_uint32 (transient s), s)) s')"

definition Reset :: "DynamicBanScore \<Rightarrow> DynamicBanScore" where
  "Reset s = s\<lparr>persistent := 0, transient := 0, lastUnix := 0\<rparr>"

definition score_Int :: "(float64 \<Rightarrow> float64) \<Rightarrow> DynamicBanScore \<Rightarrow> int64 \<Rightarrow> uint32 option" where
  "score_Int Exp s now = int_score Exp s now"

definition Increase ::
  "(float64 \<Rightarrow> float64) \<Rightarrow> DynamicBanScore \<Rightarrow> uint32 \<Rightarrow> uint32 \<Rightarrow> int64 \<Rightarrow> (uint32 \<times> DynamicBanScore) option" where
  "Increase Exp s p tr now = increase Exp s p tr now"

text \<open>A history of increases with their times.\<close>

primrec increases :: "(float64 \<Rightarrow> float64) \<Rightarrow> (uint32 \<times> uint32 \<times> int64) list \<Rightarrow> DynamicBanScore \<Rightarrow> DynamicBanScore option" where
  "increases Exp [] s = Some s"
| "increases Exp (o1 # os) s =
     (case Increase Exp s (fst o1) (fst (snd o1)) (snd (snd o1)) of None \<Rightarrow> None | Some (_, s) \<Rightarrow> increases Exp os s)"

section \<open>Rounding is monotone\<close>

lemma round_even_mono: "a \<le> b \<Longrightarrow> round_even a \<le> round_even b"
proof -
  assume ab: "a \<le> b"
  have lo: "\<lfloor>r\<rfloor> \<le> round_even r" and hi: "round_even r \<le> \<lfloor>r\<rfloor> + 1" for r :: rat
    by (auto simp: round_even_def Let_def)
  show ?thesis
  proof (cases "\<lfloor>a\<rfloor> = \<lfloor>b\<rfloor>")
    case True
    then show ?thesis using ab by (auto simp: round_even_def Let_def)
  next
    case False
    then have "\<lfloor>a\<rfloor> + 1 \<le> \<lfloor>b\<rfloor>" using floor_mono [OF ab] by linarith
    then show ?thesis using hi [of a] lo [of b] by linarith
  qed
qed

lemma round_even_le_of_int: "r \<le> of_int m \<Longrightarrow> round_even r \<le> m" and of_int_le_round_even: "of_int m \<le> r \<Longrightarrow> m \<le> round_even r"
  using round_even_mono [of r "of_int m"] round_even_mono [of "of_int m" r] by simp_all

lemma rnd_nonneg: "0 \<le> r \<Longrightarrow> 0 \<le> rnd r"
  using of_int_le_round_even [of 0 "r / ulp r"] by (simp add: rnd_def less_imp_le)

lemma pow2_split: "e \<le> k \<Longrightarrow> pow2 k = of_int (2 ^ nat (k - e)) * pow2 e"
  using pow2_add [of "k - e" e] by (simp add: pow2_def [of "k - e"])

lemma rnd_le_pow2:
  assumes "0 < a" "a \<le> pow2 k" "max (ilog2 a - 52) (- 1074) \<le> k"
  shows "rnd a \<le> pow2 k"
proof -
  let ?e = "max (ilog2 a - 52) (- 1074)"
  have u: "ulp a = pow2 ?e" using assms(1) by (simp add: ulp_def abs_of_pos)
  have k: "pow2 k = of_int (2 ^ nat (k - ?e)) * pow2 ?e" using assms(3) by (rule pow2_split)
  have "a / pow2 ?e \<le> of_int (2 ^ nat (k - ?e))" using assms(2) unfolding k by (simp add: pos_divide_le_eq)
  then have "round_even (a / pow2 ?e) \<le> 2 ^ nat (k - ?e)" by (rule round_even_le_of_int)
  then have "(of_int (round_even (a / pow2 ?e)) :: rat) \<le> of_int (2 ^ nat (k - ?e))" by (simp only: of_int_le_iff)
  then show ?thesis unfolding rnd_def u k using assms(1) by (simp add: mult_right_mono less_imp_le)
qed

lemma pow2_le_rnd:
  assumes "pow2 k \<le> b" "max (ilog2 b - 52) (- 1074) \<le> k"
  shows "pow2 k \<le> rnd b"
proof -
  let ?e = "max (ilog2 b - 52) (- 1074)"
  have b: "0 < b" using assms(1) pow2_pos [of k] by linarith
  then have u: "ulp b = pow2 ?e" by (simp add: ulp_def abs_of_pos)
  have k: "pow2 k = of_int (2 ^ nat (k - ?e)) * pow2 ?e" using assms(2) by (rule pow2_split)
  have "of_int (2 ^ nat (k - ?e)) \<le> b / pow2 ?e" using assms(1) unfolding k by (simp add: pos_le_divide_eq)
  then have "2 ^ nat (k - ?e) \<le> round_even (b / pow2 ?e)" by (rule of_int_le_round_even)
  then have "of_int (2 ^ nat (k - ?e)) \<le> (of_int (round_even (b / pow2 ?e)) :: rat)" by (simp only: of_int_le_iff)
  then show ?thesis unfolding rnd_def u k using b by (simp add: mult_right_mono less_imp_le)
qed

lemma rnd_mono:
  assumes "0 \<le> a" "a \<le> b"
  shows "rnd a \<le> rnd b"
proof (cases "a = 0")
  case True
  then show ?thesis using rnd_nonneg [of b] assms by simp
next
  case False
  then have a: "0 < a" and b: "0 < b" using assms by simp_all
  let ?ea = "max (ilog2 a - 52) (- 1074)" and ?eb = "max (ilog2 b - 52) (- 1074)"
  have "pow2 (ilog2 a) < pow2 (ilog2 b + 1)" using ilog2(1) [OF a] ilog2(2) [OF b] assms(2) by linarith
  then have k: "ilog2 a \<le> ilog2 b" by (simp add: pow2_less_iff)
  show ?thesis
  proof (cases "?ea = ?eb")
    case True
    then have u: "ulp a = pow2 ?eb" "ulp b = pow2 ?eb" using a b by (simp_all add: ulp_def abs_of_pos)
    have "round_even (a / pow2 ?eb) \<le> round_even (b / pow2 ?eb)"
      using assms(2) by (intro round_even_mono divide_right_mono) simp_all
    then show ?thesis using a b by (simp add: rnd_def u mult_right_mono less_imp_le)
  next
    case False
    then have e: "ilog2 a < ilog2 b" "?ea \<le> ilog2 b" "?eb \<le> ilog2 b" using k by auto
    have "pow2 (ilog2 a + 1) \<le> pow2 (ilog2 b)" using e(1) by (intro pow2_mono) simp
    then have "a \<le> pow2 (ilog2 b)" using ilog2(2) [OF a] by linarith
    then show ?thesis using rnd_le_pow2 [OF a _ e(2)] pow2_le_rnd [OF ilog2(1) [OF b] e(3)] by linarith
  qed
qed

lemma rnd_of_nat: "n \<le> 2 ^ 53 \<Longrightarrow> rnd (of_nat n) = of_nat n"
  using rnd_of_int [of "int n"] by simp

lemma rnd_le_of_nat: "0 \<le> r \<Longrightarrow> r \<le> of_nat n \<Longrightarrow> n \<le> 2 ^ 53 \<Longrightarrow> rnd r \<le> of_nat n"
  using rnd_mono [of r "of_nat n"] rnd_of_nat [of n] by simp

section \<open>The score\<close>

text \<open>The factors precomputed at the start are those the exponential gives.\<close>

lemma decayFactor_eq: "decayFactor Exp t = (if t < 0 then None else Some (decay_exp Exp t))"
  by (auto simp: decayFactor_def precomputedFactor_def precomputedLen_def)

definition exp_bounded :: "(float64 \<Rightarrow> float64) \<Rightarrow> bool" where
  "exp_bounded Exp \<longleftrightarrow> (\<forall>x \<le> 0. 0 \<le> Exp x \<and> Exp x \<le> 1)"

lemma lambda_nonneg: "0 \<le> lambda"
  unfolding lambda_def by (rule rnd_nonneg) (simp add: Ln2_def Halflife_def)

lemma decay_argument:
  assumes "0 \<le> i" "i \<le> j"
  shows "rnd (rnd (- 1 * float64_of_int j) * lambda) \<le> rnd (rnd (- 1 * float64_of_int i) * lambda)"
    "rnd (rnd (- 1 * float64_of_int j) * lambda) \<le> 0"
proof -
  have n: "0 \<le> rnd (of_int k)" if "0 \<le> k" for k :: int by (rule rnd_nonneg) (simp add: that)
  have r: "rnd (rnd (- 1 * float64_of_int k) * lambda) = - rnd (rnd (rnd (of_int k)) * lambda)" for k
    by (simp add: float64_of_int_def rnd_minus)
  have "rnd (rnd (rnd (of_int i)) * lambda) \<le> rnd (rnd (rnd (of_int j)) * lambda)"
    using assms n lambda_nonneg by (intro rnd_mono mult_nonneg_nonneg mult_right_mono rnd_nonneg) simp_all
  then show "rnd (rnd (- 1 * float64_of_int j) * lambda) \<le> rnd (rnd (- 1 * float64_of_int i) * lambda)"
    unfolding r by (rule le_imp_neg_le)
  show "rnd (rnd (- 1 * float64_of_int j) * lambda) \<le> 0"
    unfolding r using assms n lambda_nonneg by (simp add: rnd_nonneg)
qed

lemma decay_exp_bounds: "exp_bounded Exp \<Longrightarrow> 0 \<le> t \<Longrightarrow> 0 \<le> decay_exp Exp t \<and> decay_exp Exp t \<le> 1"
  using decay_argument(2) [of 0 t] by (simp add: exp_bounded_def decay_exp_def)

lemma decayed_bounds:
  assumes "exp_bounded Exp" "0 \<le> t" "0 \<le> x" "x \<le> of_nat n" "n \<le> 2 ^ 53"
  shows "0 \<le> rnd (x * decay_exp Exp t)" "rnd (x * decay_exp Exp t) \<le> of_nat n"
proof -
  have d: "0 \<le> decay_exp Exp t" "decay_exp Exp t \<le> 1" using decay_exp_bounds assms(1,2) by simp_all
  then have "x * decay_exp Exp t \<le> x" "0 \<le> x * decay_exp Exp t" using assms(3) by (simp_all add: mult_left_le)
  then show "0 \<le> rnd (x * decay_exp Exp t)" "rnd (x * decay_exp Exp t) \<le> of_nat n"
    using assms(4,5) by (auto intro: rnd_nonneg rnd_le_of_nat)
qed

lemma float64_uint32_eq:
  assumes "0 \<le> f" "f < 2 ^ 32"
  shows "unat (float64_uint32 f) = nat \<lfloor>f\<rfloor>"
proof -
  have f: "0 \<le> \<lfloor>f\<rfloor>" "\<lfloor>f\<rfloor> < 2 ^ 32" using assms by (simp_all add: floor_less_iff)
  then have "float64_uint32 f = word_of_int \<lfloor>f\<rfloor>"
    using assms by (simp add: float64_uint32_def float64_int64_def float64_trunc_def ucast_eq uint_word_of_int Let_def)
  then show ?thesis using f by (simp add: unat_eq_nat_uint uint_word_of_int)
qed

lemma nat_floor_le: "0 \<le> y \<Longrightarrow> of_nat (nat \<lfloor>y\<rfloor>) \<le> (y :: rat)"
  by (simp add: of_nat_nat)

lemma increase_step:
  assumes "exp_bounded Exp" "0 \<le> transient s" "transient s \<le> of_nat n" "n + unat tr \<le> 2 ^ 53"
  shows "\<exists>s'. Increase Exp s p tr t = Some (persistent s' + float64_uint32 (transient s'), s') \<and> persistent s' = persistent s + p \<and>
    0 \<le> transient s' \<and> transient s' \<le> of_nat (n + unat tr)"
proof -
  have e: "float64_of_uint32 tr = of_nat (unat tr)" unfolding float64_of_uint32_def using assms(4) by (intro rnd_of_nat) simp
  have a: "0 \<le> rnd (x + of_nat (unat tr)) \<and> rnd (x + of_nat (unat tr)) \<le> of_nat n + of_nat (unat tr)"
    if "0 \<le> x" "x \<le> of_nat n" for x
    using rnd_nonneg [of "x + of_nat (unat tr)"] rnd_le_of_nat [of "x + of_nat (unat tr)" "n + unat tr"]
      of_nat_0_le_iff [of "unat tr", where 'a = rat] that assms(4) by simp
  define y where "y = (if Lifetime < sint (t - lastUnix s) then 0
    else if transient s > 1 \<and> sint (t - lastUnix s) > 0 then rnd (transient s * decay_exp Exp (sint (t - lastUnix s)))
    else transient s)"
  have "0 \<le> y" "y \<le> of_nat n"
    using decayed_bounds [OF assms(1) _ assms(2,3), of "sint (t - lastUnix s)"] assms(2-4) by (auto simp: y_def)
  note y = a [OF this]
  show ?thesis
  proof (cases "tr > 0")
    case True
    then have "Increase Exp s p tr t =
        Some (persistent s + p + float64_uint32 (rnd (y + of_nat (unat tr))),
          s\<lparr>persistent := persistent s + p, transient := rnd (y + of_nat (unat tr)), lastUnix := t\<rparr>)"
      by (simp add: Increase_def increase_def decayFactor_eq e y_def Let_def)
    then show ?thesis using y by (intro exI [of _ "s\<lparr>persistent := persistent s + p, transient := rnd (y + of_nat (unat tr)), lastUnix := t\<rparr>"]) simp
  next
    case False
    then have "tr = 0" by (simp add: word_gt_0)
    then show ?thesis using assms(2,3) by (simp add: Increase_def increase_def Let_def)
  qed
qed

lemma increases_bounds:
  assumes "exp_bounded Exp" "0 \<le> transient s" "transient s \<le> of_nat n" "n + (\<Sum>x \<leftarrow> os. unat (fst (snd x))) \<le> 2 ^ 53"
  shows "\<exists>s'. increases Exp os s = Some s' \<and> persistent s' = persistent s + (\<Sum>x \<leftarrow> os. fst x) \<and>
    0 \<le> transient s' \<and> transient s' \<le> of_nat (n + (\<Sum>x \<leftarrow> os. unat (fst (snd x))))"
  using assms
proof (induction os arbitrary: s n)
  case (Cons o1 os)
  obtain p tr t where o1: "o1 = (p, tr, t)" by (cases o1)
  have l: "n + unat tr \<le> 2 ^ 53" using Cons.prems(4) by (simp add: o1)
  obtain s1 where s1: "Increase Exp s p tr t = Some (persistent s1 + float64_uint32 (transient s1), s1)"
    "persistent s1 = persistent s + p" "0 \<le> transient s1" "transient s1 \<le> of_nat (n + unat tr)"
    using increase_step [OF Cons.prems(1-3) l] by blast
  have "n + unat tr + (\<Sum>x \<leftarrow> os. unat (fst (snd x))) \<le> 2 ^ 53" using Cons.prems(4) by (simp add: o1)
  from Cons.IH [OF Cons.prems(1) s1(3,4) this] obtain s' where
    "increases Exp os s1 = Some s'" "persistent s' = persistent s1 + (\<Sum>x \<leftarrow> os. fst x)"
    "0 \<le> transient s'" "transient s' \<le> of_nat (n + unat tr + (\<Sum>x \<leftarrow> os. unat (fst (snd x))))" by blast
  then show ?case by (simp add: o1 s1(1,2) add.assoc)
qed simp

lemma int_score_cases:
  assumes "exp_bounded Exp" "0 \<le> transient s" "transient s \<le> of_nat n" "n \<le> 2 ^ 53"
  obtains "int_score Exp s t = Some (persistent s)"
  | "0 \<le> sint (t - lastUnix s)" "sint (t - lastUnix s) \<le> Lifetime" "1 \<le> transient s"
    "int_score Exp s t = Some (persistent s + float64_uint32 (rnd (transient s * decay_exp Exp (sint (t - lastUnix s)))))"
    "0 \<le> rnd (transient s * decay_exp Exp (sint (t - lastUnix s)))"
    "rnd (transient s * decay_exp Exp (sint (t - lastUnix s))) \<le> of_nat n"
proof (cases "transient s < 1 \<or> sint (t - lastUnix s) < 0 \<or> Lifetime < sint (t - lastUnix s)")
  case True
  then show ?thesis by (intro that(1)) (auto simp: int_score_def Let_def)
next
  case False
  then have d: "0 \<le> sint (t - lastUnix s)" "sint (t - lastUnix s) \<le> Lifetime" "1 \<le> transient s" by simp_all
  have i: "int_score Exp s t = Some (persistent s + float64_uint32 (rnd (transient s * decay_exp Exp (sint (t - lastUnix s)))))"
    using False d(1) by (simp add: int_score_def decayFactor_eq Let_def)
  show ?thesis by (rule that(2) [OF d i decayed_bounds [OF assms(1) d(1) assms(2-4)]])
qed

lemma unat_sum_list: "(\<Sum>x \<leftarrow> xs. unat (f x)) < 2 ^ 32 \<Longrightarrow> unat ((\<Sum>x \<leftarrow> xs. f x) :: uint32) = (\<Sum>x \<leftarrow> xs. unat (f x))"
  by (induction xs) (simp_all add: unat_word_ariths)

text \<open>
  C26: A peer starts with no score. As long as all the penalties together are below \<open>2 ^ 32\<close>, no sequence
  of increases, whatever the clock does in between, panics or wraps around: the score at any time is at
  least the sum of the persistent penalties and at most the sum of all penalties. The exponential is
  only assumed to be between 0 and 1 up to 0.
\<close>

theorem ban_score_bounded:
  assumes "\<forall>x \<le> 0. 0 \<le> Exp x \<and> Exp x \<le> 1"
    and "(\<Sum>x \<leftarrow> os. unat (fst x)) + (\<Sum>x \<leftarrow> os. unat (fst (snd x))) < 2 ^ 32"
  shows "\<exists>s. increases Exp os zero_score = Some s \<and>
    (\<forall>now. \<exists>score. score_Int Exp s now = Some score \<and> (\<Sum>x \<leftarrow> os. unat (fst x)) \<le> unat score \<and>
      unat score \<le> (\<Sum>x \<leftarrow> os. unat (fst x)) + (\<Sum>x \<leftarrow> os. unat (fst (snd x))))"
proof -
  let ?p = "\<Sum>x \<leftarrow> os. unat (fst x)" and ?t = "\<Sum>x \<leftarrow> os. unat (fst (snd x))"
  have e: "exp_bounded Exp" using assms(1) by (simp add: exp_bounded_def)
  have t: "0 + ?t \<le> 2 ^ 53" using assms(2) by simp
  obtain s where s: "increases Exp os zero_score = Some s" "persistent s = (\<Sum>x \<leftarrow> os. fst x)"
    "0 \<le> transient s" "transient s \<le> of_nat ?t"
    using increases_bounds [OF e _ _ t, of zero_score] by (auto simp: zero_score_def)
  have p: "unat (persistent s) = ?p"
    unfolding s(2) using unat_sum_list [of fst os] assms(2) by simp
  have "\<exists>score. score_Int Exp s now = Some score \<and> ?p \<le> unat score \<and> unat score \<le> ?p + ?t" for now
    using e s(3,4) t [unfolded add_0]
  proof (cases rule: int_score_cases [where t = now, consumes 4])
    case 1
    then show ?thesis by (simp add: score_Int_def p)
  next
    case 2
    let ?f = "rnd (transient s * decay_exp Exp (sint (now - lastUnix s)))"
    have f: "?f < 2 ^ 32" using 2(6) assms(2) by (rule_tac le_less_trans [of _ "of_nat ?t"]) simp_all
    have "unat (float64_uint32 ?f) \<le> ?t"
      unfolding float64_uint32_eq [OF 2(5) f] using 2(6) by (simp add: floor_le_iff nat_le_iff)
    then show ?thesis using 2(4) p assms(2) by (simp add: score_Int_def unat_word_ariths)
  qed
  with s(1) show ?thesis by blast
qed

definition sample_Exp :: "float64 \<Rightarrow> float64" where "sample_Exp x = 1 / (1 - x)"

lemma sample_Exp: "\<forall>x \<le> 0. 0 \<le> sample_Exp x \<and> sample_Exp x \<le> 1" "mono_on {..0} sample_Exp"
  by (auto simp: sample_Exp_def divide_le_eq_1 frac_le intro!: mono_onI)

theorem ban_score_bounded_witness:
  "\<exists>s. increases sample_Exp [(10, 50, 1000), (0, 20, 1030), (5, 0, 1031)] zero_score = Some s \<and>
     (\<forall>now. \<exists>score. score_Int sample_Exp s now = Some score \<and> 15 \<le> unat score \<and> unat score \<le> 85)"
  using ban_score_bounded [OF sample_Exp(1), of "[(10, 50, 1000), (0, 20, 1030), (5, 0, 1031)]"] by simp

text \<open>
  The score decays: between two increases it never grows with time, and it is the persistent part alone
  as soon as the lifetime of the transient part is over.
\<close>

theorem ban_score_decays:
  assumes "\<forall>x \<le> 0. 0 \<le> Exp x \<and> Exp x \<le> 1" and "mono_on {..0} Exp"
    and "0 \<le> transient s" "rnd (transient s) = transient s" "of_nat (unat (persistent s)) + transient s < 2 ^ 32"
    and "0 \<le> sint (lastUnix s)" "sint (lastUnix s) \<le> sint now1" "sint now1 \<le> sint now2"
  shows "\<exists>score1 score2. score_Int Exp s now1 = Some score1 \<and> score_Int Exp s now2 = Some score2 \<and>
    persistent s \<le> score2 \<and> score2 \<le> score1 \<and> of_nat (unat score1) \<le> of_nat (unat (persistent s)) + transient s \<and>
    (sint now2 > sint (lastUnix s) + Lifetime \<longrightarrow> score2 = persistent s)"
proof -
  have e: "exp_bounded Exp" using assms(1) by (simp add: exp_bounded_def)
  let ?x = "\<lambda>dt. if transient s < 1 \<or> Lifetime < dt then 0 else rnd (transient s * decay_exp Exp dt)"
  have x: "0 \<le> ?x dt" "?x dt \<le> transient s" if "0 \<le> dt" for dt
    using decay_exp_bounds [OF e that] rnd_mono [of "transient s * decay_exp Exp dt" "transient s"] assms(3,4)
    by (auto intro: rnd_nonneg simp: mult_left_le)
  have anti: "?x b \<le> ?x a" if "0 \<le> a" "a \<le> b" for a b
  proof -
    have "decay_exp Exp b \<le> decay_exp Exp a"
      unfolding decay_exp_def using that decay_argument [of a b] decay_argument(2) [of 0 a]
      by (intro mono_onD [OF assms(2)]) auto
    then have "rnd (transient s * decay_exp Exp b) \<le> rnd (transient s * decay_exp Exp a)"
      using decay_exp_bounds [OF e, of b] that assms(3) by (intro rnd_mono mult_left_mono) auto
    then show ?thesis using that x(1) [of a] by auto
  qed
  have u: "unat (float64_uint32 (?x dt)) = nat \<lfloor>?x dt\<rfloor>" "unat (persistent s) + nat \<lfloor>?x dt\<rfloor> < 2 ^ 32"
    "of_nat (nat \<lfloor>?x dt\<rfloor>) \<le> transient s" if "0 \<le> dt" for dt
  proof -
    have p: "0 \<le> (of_nat (unat (persistent s)) :: rat)" by (rule of_nat_0_le_iff)
    show "unat (float64_uint32 (?x dt)) = nat \<lfloor>?x dt\<rfloor>"
      using x [OF that] assms(5) p by (intro float64_uint32_eq) linarith+
    show f: "of_nat (nat \<lfloor>?x dt\<rfloor>) \<le> transient s"
      using nat_floor_le [OF x(1) [OF that]] x(2) [OF that] by (rule order_trans)
    have "(of_nat (unat (persistent s) + nat \<lfloor>?x dt\<rfloor>) :: rat) < of_nat (2 ^ 32)"
      using f assms(5) by (simp only: of_nat_add of_nat_power of_nat_numeral)
    then show "unat (persistent s) + nat \<lfloor>?x dt\<rfloor> < 2 ^ 32" by (simp only: of_nat_less_iff)
  qed
  have sc: "score_Int Exp s now = Some (persistent s + float64_uint32 (?x (sint now - sint (lastUnix s))))"
    if "sint (lastUnix s) \<le> sint now" for now
  proof -
    have "sint now < 2 ^ 63" using sint_lt [of now] by simp
    then have "sint (now - lastUnix s) = sint now - sint (lastUnix s)"
      using that assms(6) by (subst sint_word_ariths(2)) (simp add: signed_take_bit_int_eq_self)
    moreover have "float64_uint32 0 = 0" by (simp add: float64_uint32_def float64_int64_def float64_trunc_def)
    ultimately show ?thesis using that by (auto simp: score_Int_def int_score_def decayFactor_eq Let_def)
  qed
  let ?a = "sint now1 - sint (lastUnix s)" and ?b = "sint now2 - sint (lastUnix s)"
  have ab: "0 \<le> ?a" "?a \<le> ?b" "0 \<le> ?b" using assms(7,8) by simp_all
  have s: "unat (persistent s + float64_uint32 (?x dt)) = unat (persistent s) + nat \<lfloor>?x dt\<rfloor>" if "0 \<le> dt" for dt
    using u(1,2) [OF that] by (subst unat_add_lem [THEN iffD1]) simp_all
  have "nat \<lfloor>?x ?b\<rfloor> \<le> nat \<lfloor>?x ?a\<rfloor>" using anti [OF ab(1,2)] by (intro nat_mono floor_mono)
  then have "persistent s \<le> persistent s + float64_uint32 (?x ?b)"
    "persistent s + float64_uint32 (?x ?b) \<le> persistent s + float64_uint32 (?x ?a)"
    "of_nat (unat (persistent s + float64_uint32 (?x ?a))) \<le> of_nat (unat (persistent s)) + transient s"
    unfolding word_le_nat_alt s [OF ab(1)] s [OF ab(3)] using u(3) [OF ab(1)] by simp_all
  moreover have "sint now2 > sint (lastUnix s) + Lifetime \<longrightarrow> persistent s + float64_uint32 (?x ?b) = persistent s"
    by (simp add: float64_uint32_def float64_int64_def float64_trunc_def)
  ultimately show ?thesis using sc [OF assms(7)] sc [of now2] assms(7,8) by auto
qed

theorem ban_score_decays_witness:
  "\<exists>score1 score2. score_Int sample_Exp \<lparr>lastUnix = 1000, transient = 50, persistent = 7\<rparr> 1010 = Some score1 \<and>
     score_Int sample_Exp \<lparr>lastUnix = 1000, transient = 50, persistent = 7\<rparr> 5000 = Some score2 \<and>
     7 \<le> score2 \<and> score2 \<le> score1 \<and> unat score1 \<le> 57 \<and> score2 = 7"
proof -
  have "rnd (50 :: rat) = 50" using rnd_of_int [of 50] by simp
  then have "\<exists>score1 score2. score_Int sample_Exp \<lparr>lastUnix = 1000, transient = 50, persistent = 7\<rparr> 1010 = Some score1 \<and>
     score_Int sample_Exp \<lparr>lastUnix = 1000, transient = 50, persistent = 7\<rparr> 5000 = Some score2 \<and>
     7 \<le> score2 \<and> score2 \<le> score1 \<and> of_nat (unat score1) \<le> (57 :: rat) \<and> score2 = 7"
    using ban_score_decays [OF sample_Exp, of "\<lparr>lastUnix = 1000, transient = 50, persistent = 7\<rparr>" 1010 5000]
    by (simp add: Lifetime_def)
  moreover have "of_nat (unat w) \<le> (57 :: rat) \<Longrightarrow> unat w \<le> 57" for w :: uint32
    using of_nat_le_iff [of "unat w" 57, where 'a = rat] by (simp only: of_nat_numeral)
  ultimately show ?thesis by blast
qed

text \<open>When the clock goes back behind the last increase, the transient part does not count.\<close>

lemma score_before_increase: "sint (now - lastUnix s) < 0 \<Longrightarrow> score_Int Exp s now = Some (persistent s)"
  by (simp add: score_Int_def int_score_def)

section \<open>Names looked up through Tor\<close>

definition torGeneralError :: byte where "torGeneralError = 0x01"

definition ErrTorInvalidAddressResponse :: string where
  "ErrTorInvalidAddressResponse = ''invalid address response''"

definition ErrTorInvalidProxyResponse :: string where
  "ErrTorInvalidProxyResponse = ''invalid proxy response''"

definition ErrTorUnrecognizedAuthMethod :: string where
  "ErrTorUnrecognizedAuthMethod = ''invalid proxy authentication method''"

definition torStatusErrors :: "string list" where
  "torStatusErrors =
     [''tor succeeded'', ''tor general error'', ''tor not allowed'', ''tor network is unreachable'',
      ''tor host is unreachable'', ''tor connection refused'', ''tor TTL expired'',
      ''tor command not supported'', ''tor address type not supported'']"

text \<open>
  What the proxy sends arrives in fragments, among them errors of the connection; one \<^verbatim>\<open>Read\<close> gives at
  most what is left of the first. The buffer keeps its zeros behind that.
\<close>

type_synonym fragments = "(string + bytes) list"

fun conn_Read :: "nat \<Rightarrow> fragments \<Rightarrow> string + bytes \<times> nat \<times> fragments" where
  "conn_Read n [] = Inl ''EOF''"
| "conn_Read n (Inl err # fs) = Inl err"
| "conn_Read n (Inr bs # fs) =
     Inr (take n bs @ replicate (n - length bs) 0, min n (length bs), if n < length bs then Inr (drop n bs) # fs else fs)"

definition tor_greeting :: bytes where "tor_greeting = [0x05, 0x01, 0x00]"

definition tor_request :: "string \<Rightarrow> bytes" where
  "tor_request host = [5, 0xF0, 0, 3, word_of_nat (length host)] @ string_bytes host @ [0]"

text \<open>The errors of dialing and of the two writes are arguments.\<close>

definition TorLookupIP :: "string option \<Rightarrow> string option \<Rightarrow> string option \<Rightarrow> fragments \<Rightarrow> string + bytes list" where
  "TorLookupIP dial_err write1_err write2_err fs =
     (case dial_err of Some err \<Rightarrow> Inl err | None \<Rightarrow>
     (case write1_err of Some err \<Rightarrow> Inl err | None \<Rightarrow>
     (case conn_Read 2 fs of Inl err \<Rightarrow> Inl err | Inr (buf, _, fs) \<Rightarrow>
      if buf ! 0 \<noteq> 0x05 then Inl ErrTorInvalidProxyResponse
      else if buf ! 1 \<noteq> 0x00 then Inl ErrTorUnrecognizedAuthMethod
      else
     (case write2_err of Some err \<Rightarrow> Inl err | None \<Rightarrow>
     (case conn_Read 4 fs of Inl err \<Rightarrow> Inl err | Inr (buf, _, fs) \<Rightarrow>
      if buf ! 0 \<noteq> 5 then Inl ErrTorInvalidProxyResponse
      else if buf ! 1 \<noteq> 0 then
        (if unat (buf ! 1) \<ge> length torStatusErrors then Inl ErrTorInvalidProxyResponse
         else Inl (torStatusErrors ! unat (buf ! 1)))
      else if buf ! 3 \<noteq> 1 then Inl (torStatusErrors ! unat torGeneralError)
      else
     (case conn_Read 4 fs of Inl err \<Rightarrow> Inl err | Inr (buf, n, _) \<Rightarrow>
      if n \<noteq> 4 then Inl ErrTorInvalidAddressResponse
      else
        let r = of_be_bytes buf :: uint32
        in Inr [net_IPv4 [ucast (drop_bit 24 r), ucast (drop_bit 16 r), ucast (drop_bit 8 r), ucast r]]))))))"

lemma be_uint32_bytes:
  fixes r :: uint32
  assumes "r = of_be_bytes [a, b, c, d]"
  shows "[ucast (drop_bit 24 r), ucast (drop_bit 16 r), ucast (drop_bit 8 r), ucast r] = [a, b, c, d]"
  using be_bytes_of_be_bytes [of "[a, b, c, d]", where 'a = 32] assms
  by (simp add: be_bytes_def numeral_eq_Suc drop_bit_drop_bit)

lemma conn_Read_stream:
  assumes "conn_Read n (map Inr bss) = Inr (buf, k, fs)"
  obtains bss' where "fs = map Inr bss'" "k \<le> n" "buf = take k (concat bss) @ replicate (n - k) 0" "concat bss' = drop k (concat bss)"
proof (cases bss)
  case Nil
  then show ?thesis using assms by simp
next
  case (Cons bs rest)
  show ?thesis
  proof (cases "n < length bs")
    case True
    then have "fs = map Inr (drop n bs # rest)" "k = n" "buf = take n bs" using assms by (auto simp: Cons)
    with True show ?thesis by (intro that [of "drop n bs # rest"]) (simp_all add: Cons)
  next
    case False
    then have "fs = map Inr rest" "k = length bs" "buf = bs @ replicate (n - length bs) 0" using assms by (auto simp: Cons)
    with False show ?thesis by (intro that [of rest]) (simp_all add: Cons)
  qed
qed

text \<open>
  C25: A proxy that accepts and answers with an address, whatever follows: however the connection cuts its
  answers into fragments, the lookup never gives another address, and it gives this one if each answer
  arrives in one piece.
\<close>

theorem TorLookupIP_answer:
  assumes "concat bss = [5, 0, 5, 0, x, 1, a, b, c, d] @ rest"
  shows "(\<forall>ips. TorLookupIP None None None (map Inr bss) = Inr ips \<longrightarrow> ips = [net_IPv4 [a, b, c, d]]) \<and>
    (bss = [[5, 0], [5, 0, x, 1, a, b, c, d] @ rest] \<longrightarrow> TorLookupIP None None None (map Inr bss) = Inr [net_IPv4 [a, b, c, d]])"
proof (intro conjI allI impI)
  fix ips assume r: "TorLookupIP None None None (map Inr bss) = Inr ips"
  then obtain buf1 n1 fs1 where r1: "conn_Read 2 (map Inr bss) = Inr (buf1, n1, fs1)" "buf1 ! 0 = 5" "buf1 ! 1 = 0"
    by (auto simp: TorLookupIP_def split: sum.splits if_splits)
  obtain bss1 where b1: "fs1 = map Inr bss1" "n1 \<le> 2" "buf1 = take n1 (concat bss) @ replicate (2 - n1) 0" "concat bss1 = drop n1 (concat bss)"
    using r1(1) by (rule conn_Read_stream)
  from r r1 obtain buf2 n2 fs2 where r2: "conn_Read 4 (map Inr bss1) = Inr (buf2, n2, fs2)" "buf2 ! 0 = 5" "buf2 ! 1 = 0" "buf2 ! 3 = 1"
    by (auto simp: TorLookupIP_def b1(1) split: sum.splits if_splits)
  obtain bss2 where b2: "fs2 = map Inr bss2" "n2 \<le> 4" "buf2 = take n2 (concat bss1) @ replicate (4 - n2) 0" "concat bss2 = drop n2 (concat bss1)"
    using r2(1) by (rule conn_Read_stream)
  from r r1 r2 obtain buf3 n3 fs3 where r3: "conn_Read 4 (map Inr bss2) = Inr (buf3, n3, fs3)" "n3 = 4"
    by (auto simp: TorLookupIP_def b1(1) b2(1) split: sum.splits if_splits)
  obtain bss3 where b3: "buf3 = take n3 (concat bss2) @ replicate (4 - n3) 0"
    using r3(1) by (rule conn_Read_stream)
  have "n1 \<in> {0, 1, 2}" using b1(2) by auto
  then have n1: "n1 = 2"
    using r1(2) r2(2) b1(3,4) b2(3) assms by (cases n2) auto
  have "n2 \<in> {0, 1, 2, 3, 4}" using b2(2) by auto
  then have n2: "n2 = 4" using r2(2,4) b2(3) b1(4) by (auto simp: assms n1 numeral_eq_Suc)
  have "buf3 = [a, b, c, d]" unfolding b3 r3(2) b2(4) b1(4) assms n1 n2 by simp
  then show "ips = [net_IPv4 [a, b, c, d]]"
    using r r1 r2 r3 be_uint32_bytes [OF refl, of a b c d] by (simp add: TorLookupIP_def b1(1) b2(1) Let_def)
next
  assume "bss = [[5, 0], [5, 0, x, 1, a, b, c, d] @ rest]"
  then show "TorLookupIP None None None (map Inr bss) = Inr [net_IPv4 [a, b, c, d]]"
    using be_uint32_bytes [OF refl, of a b c d] by (simp add: TorLookupIP_def Let_def)
qed

theorem TorLookupIP_answer_witness:
  "TorLookupIP None None None (map Inr [[5, 0], [5, 0, 0, 1, 93, 184, 216, 34] @ [0, 0]]) = Inr [net_IPv4 [93, 184, 216, 34]]"
proof -
  have "concat [[5, 0], [5, 0, 0, 1, 93, 184, 216, 34] @ [0, 0]] = [5, 0, 5, 0, 0, 1, 93, 184, 216, 34] @ [0, 0 :: byte]"
    by (simp only: concat.simps append_Cons append_Nil append_Nil2)
  from TorLookupIP_answer [OF this] show ?thesis by blast
qed

text \<open>But the same answer is refused when its first byte arrives alone: the number of bytes read is not looked at.\<close>

lemma TorLookupIP_fragmented:
  "TorLookupIP None None None [Inr [5], Inr [0, 5, 0, 0, 1, 93, 184, 216, 34, 0, 0]] = Inl ErrTorInvalidProxyResponse"
  by (simp add: TorLookupIP_def)

text \<open>
  The request has one byte behind the name, where a request of SOCKS 5 has a port of two, and the length
  of the name is cut to a byte.
\<close>

lemma tor_request_length: "length (tor_request host) = 6 + length host" "length host = 256 \<Longrightarrow> tor_request host ! 4 = 0"
  by (simp_all add: tor_request_def)

end
