(* ===== verification/Server.thy ===== *)
theory Server
  imports Credentials Certs Connmgr Rpcserver_Conn
begin

text \<open>
  The process: the listeners of the RPC server and the life of the server (\<^verbatim>\<open>server.go\<close>), the
  interrupts (\<^verbatim>\<open>signal.go\<close>), \<^verbatim>\<open>acbcMain\<close> (\<^verbatim>\<open>acbc.go\<close>) and the peers as the RPC server sees them
  (\<^verbatim>\<open>rpcadapters.go\<close>). The peer-to-peer part of the server is commented out in the sources.
\<close>

section \<open>Listeners\<close>

record simpleAddr =
  sa_net :: string
  sa_addr :: string

definition strip_zone :: "string \<Rightarrow> string" where
  "strip_zone host =
     (case last_index (CHR ''%'') host of
        Some zoneIndex \<Rightarrow> if zoneIndex > 0 then take zoneIndex host else host
      | None \<Rightarrow> host)"

text \<open>\<open>plan9\<close> is whether the program runs on that system.\<close>

primrec parseListeners :: "bool \<Rightarrow> string list \<Rightarrow> string + simpleAddr list" where
  "parseListeners plan9 [] = Inr []"
| "parseListeners plan9 (addr # addrs) =
     bindR
       (case SplitHostPort addr of
          Inl err \<Rightarrow> Inl err
        | Inr (host, _) \<Rightarrow>
            if host = [] \<or> (host = ''*'' \<and> plan9)
            then Inr [\<lparr>sa_net = ''tcp4'', sa_addr = addr\<rparr>, \<lparr>sa_net = ''tcp6'', sa_addr = addr\<rparr>]
            else
              let host = strip_zone host in
              case ParseIP host of
                None \<Rightarrow> Inl ([CHR 0x27] @ host @ [CHR 0x27] @ '' is not a valid IP address'')
              | Some ip \<Rightarrow>
                  if To4 ip = None then Inr [\<lparr>sa_net = ''tcp6'', sa_addr = addr\<rparr>]
                  else Inr [\<lparr>sa_net = ''tcp4'', sa_addr = addr\<rparr>])
       (\<lambda>nas. bindR (parseListeners plan9 addrs) (\<lambda>rest. Inr (nas @ rest)))"

text \<open>
  What the start finds outside: for certificates, writing files, whether a pair of a certificate and a
  key can be loaded, and listening with or without TLS, which fails or gives a listener, that is, what
  closing it will return.
\<close>

record 'k server_env =
  se_plan9 :: bool
  se_cert :: "'k cert_env"
  se_write :: write_file
  se_load_pair :: "string option \<Rightarrow> string option \<Rightarrow> string option"
  se_listen :: "bool \<Rightarrow> string \<Rightarrow> string \<Rightarrow> string + string option"

definition fileExists :: "files \<Rightarrow> string \<Rightarrow> bool" where
  "fileExists fs name = (fs name \<noteq> None)"

primrec open_listeners :: "'k server_env \<Rightarrow> bool \<Rightarrow> simpleAddr list \<Rightarrow> string option list" where
  "open_listeners env tls [] = []"
| "open_listeners env tls (a # as) =
     (case se_listen env tls (sa_net a) (sa_addr a) of
        Inl _ \<Rightarrow> open_listeners env tls as
      | Inr listener \<Rightarrow> listener # open_listeners env tls as)"

definition setup_tls :: "'k server_env \<Rightarrow> config \<Rightarrow> files \<Rightarrow> string option \<times> files" where
  "setup_tls env cfg fs =
     (if \<not> DisableTLS cfg then
        (let (err, fs) =
           (if \<not> fileExists fs (RPCKey cfg) \<and> \<not> fileExists fs (RPCCert cfg)
            then genCertPair (se_cert env) (se_write env) (RPCCert cfg) (RPCKey cfg) fs
            else (None, fs))
         in case err of
              Some err \<Rightarrow> (Some err, fs)
            | None \<Rightarrow> (se_load_pair env (fs (RPCCert cfg)) (fs (RPCKey cfg)), fs))
      else (None, fs))"

definition setupRPCListeners :: "'k server_env \<Rightarrow> config \<Rightarrow> files \<Rightarrow> (string + string option list) \<times> files" where
  "setupRPCListeners env cfg fs =
     (case setup_tls env cfg fs of
        (Some err, fs) \<Rightarrow> (Inl err, fs)
      | (None, fs) \<Rightarrow>
          (bindR (parseListeners (se_plan9 env) (RPCListeners cfg))
             (\<lambda>netAddrs. Inr (open_listeners env (\<not> DisableTLS cfg) netAddrs)), fs))"

section \<open>The server\<close>

text \<open>
  The wait group is its counter, a channel its capacity or whether it is closed. An outcome is an error
  that is returned, or a panic.
\<close>

record server =
  srv_rpcServer :: "rpcServer option"
  srv_wg :: int
  srv_quit_closed :: bool
  srv_capacity :: int

datatype server_failure = SrvErr string | SrvPanic string

text \<open>
  Making a channel panics for a negative capacity and when the buffer would not fit into the address
  space (of amd64). The greatest elements are the 40 bytes of a message to broadcast.
\<close>

definition make_chan :: "int \<Rightarrow> int \<Rightarrow> string option" where
  "make_chan elem_size n =
     (if n < 0 \<or> elem_size * n > 2 ^ 48 - 96 then Some ''makechan: size out of range'' else None)"

definition newServer :: "'k server_env \<Rightarrow> config \<Rightarrow> files \<Rightarrow> (server_failure + server) \<times> files" where
  "newServer env cfg fs =
     (case List.find (\<lambda>e. e \<noteq> None) (map (\<lambda>k. make_chan k (MaxPeers cfg)) [8, 8, 8, 24, 40]) of
        Some (Some msg) \<Rightarrow> (Inl (SrvPanic msg), fs)
      | _ \<Rightarrow>
          let s = \<lparr>srv_rpcServer = None, srv_wg = 0, srv_quit_closed = False, srv_capacity = MaxPeers cfg\<rparr> in
          if \<not> DisableRPC cfg then
            (case setupRPCListeners env cfg fs of
               (Inl err, fs) \<Rightarrow> (Inl (SrvErr err), fs)
             | (Inr rpcListeners, fs) \<Rightarrow>
                 if rpcListeners = [] then (Inl (SrvErr ''RPCS: No valid listen address''), fs)
                 else (Inr (s\<lparr>srv_rpcServer := Some (newRPCServer (rpc_settings cfg) rpcListeners)\<rparr>), fs))
          else (Inr s, fs))"

text \<open>The body of the goroutine for rebroadcasts is commented out: it never reports its end to the wait group.\<close>

definition rebroadcastHandler :: "server \<Rightarrow> server" where "rebroadcastHandler s = s"

definition Server_Start :: "config \<Rightarrow> server \<Rightarrow> server_failure + server" where
  "Server_Start cfg s =
     (if \<not> DisableRPC cfg then
        (let s = rebroadcastHandler (s\<lparr>srv_wg := srv_wg s + 1\<rparr>) in
         case srv_rpcServer s of
           None \<Rightarrow> Inl (SrvPanic ''nil pointer dereference'')
         | Some rpc \<Rightarrow> Inr (s\<lparr>srv_rpcServer := Some (Start rpc)\<rparr>))
      else Inr s)"

definition close_srv_quit :: "server \<Rightarrow> server_failure + server" where
  "close_srv_quit s =
     (if srv_quit_closed s then Inl (SrvPanic ''close of closed channel'') else Inr (s\<lparr>srv_quit_closed := True\<rparr>))"

definition Server_Stop :: "config \<Rightarrow> server \<Rightarrow> server_failure + server" where
  "Server_Stop cfg s =
     bindR
       (if \<not> DisableRPC cfg then
          (case srv_rpcServer s of
             None \<Rightarrow> Inl (SrvPanic ''nil pointer dereference'')
           | Some rpc \<Rightarrow>
               (case Stop rpc of
                  Inl msg \<Rightarrow> Inl (SrvPanic msg)
                | Inr (_, rpc) \<Rightarrow> Inr (s\<lparr>srv_rpcServer := Some rpc\<rparr>)))
        else Inr s)
       close_srv_quit"

text \<open>Whether waiting for the wait group ever returns when the state stays as it is.\<close>

definition WaitForShutdown_returns :: "server \<Rightarrow> bool" where
  "WaitForShutdown_returns s \<longleftrightarrow> srv_wg s = 0"

section \<open>Interrupts\<close>

text \<open>
  The goroutine of \<^verbatim>\<open>interruptListener\<close> on the events it receives: whether the returned channel is
  closed, and the lines it has logged.
\<close>

datatype interrupt_event = Signal string | ShutdownRequest

fun interrupt_text :: "interrupt_event \<Rightarrow> bool \<Rightarrow> string" where
  "interrupt_text (Signal sig) False = ''Received signal ('' @ sig @ '').  Shutting down...''"
| "interrupt_text ShutdownRequest False = ''Shutdown requested.  Shutting down...''"
| "interrupt_text (Signal sig) True = ''Received signal ('' @ sig @ '').  Already shutting down...''"
| "interrupt_text ShutdownRequest True = ''Shutdown requested.  Already shutting down...''"

definition interrupt_step :: "interrupt_event \<Rightarrow> bool \<times> string list \<Rightarrow> bool \<times> string list" where
  "interrupt_step e = (\<lambda>(closed, lines). (True, lines @ [interrupt_text e closed]))"

definition interruptListener :: "interrupt_event list \<Rightarrow> bool \<times> string list" where
  "interruptListener events = fold interrupt_step events (False, [])"

definition interruptRequested :: "interrupt_event list \<Rightarrow> bool" where
  "interruptRequested events = fst (interruptListener events)"

section \<open>The program\<close>

text \<open>
  What \<^verbatim>\<open>acbcMain\<close> comes to when these events arrive: an error of the configuration or of the server, a
  panic, still waiting for an interrupt, or the end, with the server as it is left.
\<close>

datatype main_result =
    ConfigError load_error
  | ServerError string
  | MainPanic string
  | Waiting server
  | Finished server

definition failure_result :: "server_failure \<Rightarrow> main_result" where
  "failure_result f = (case f of SrvErr err \<Rightarrow> ServerError err | SrvPanic msg \<Rightarrow> MainPanic msg)"

definition acbcMain ::
  "'l config_env \<Rightarrow> params \<Rightarrow> 'l levels \<Rightarrow> 'k server_env \<Rightarrow> files \<Rightarrow> interrupt_event list \<Rightarrow> main_result \<times> files" where
  "acbcMain cenv testnet loggers env fs events =
     (case loadConfig cenv testnet loggers of
        Inl err \<Rightarrow> (ConfigError err, fs)
      | Inr (_, cfg, _, _) \<Rightarrow>
          (case newServer env cfg fs of
             (Inl f, fs) \<Rightarrow> (failure_result f, fs)
           | (Inr s, fs) \<Rightarrow>
               (case Server_Start cfg s of
                  Inl f \<Rightarrow> (failure_result f, fs)
                | Inr s \<Rightarrow>
                    if \<not> interruptRequested events then (Waiting s, fs)
                    else
                      (case Server_Stop cfg s of
                         Inl f \<Rightarrow> (failure_result f, fs)
                       | Inr s \<Rightarrow> (Finished s, fs)))))"

section \<open>Peers as the RPC server sees them\<close>

record serverPeer =
  sp_Peer :: nat
  feeFilter :: int64
  disableRelayTx :: bool
  banScore :: DynamicBanScore

text \<open>A pointer to a peer may be nil; \<open>None\<close> as a result is the panic of following it, or of the score.\<close>

definition ToPeer :: "serverPeer option \<Rightarrow> nat option" where
  "ToPeer p = map_option sp_Peer p"

definition IsTxRelayDisabled :: "serverPeer option \<Rightarrow> bool option" where
  "IsTxRelayDisabled p = map_option disableRelayTx p"

definition BanScore :: "(float64 \<Rightarrow> float64) \<Rightarrow> int64 \<Rightarrow> serverPeer option \<Rightarrow> uint32 option" where
  "BanScore Exp now p = (case p of None \<Rightarrow> None | Some p \<Rightarrow> score_Int Exp (banScore p) now)"

definition FeeFilter :: "serverPeer option \<Rightarrow> int64 option" where
  "FeeFilter p = map_option feeFilter p"

section \<open>Listening\<close>

lemma parseListeners_sound:
  assumes "parseListeners plan9 addrs = Inr nas" and "a \<in> set nas"
  obtains host port where "sa_addr a \<in> set addrs" "SplitHostPort (sa_addr a) = Inr (host, port)"
    "host = [] \<or> host = ''*'' \<and> plan9 \<or>
     (\<exists>ip. ParseIP (strip_zone host) = Some ip \<and> sa_net a = (if To4 ip = None then ''tcp6'' else ''tcp4''))"
  using assms
proof (induction addrs arbitrary: nas thesis)
  case (Cons addr addrs)
  obtain host port rest where s: "SplitHostPort addr = Inr (host, port)" "parseListeners plan9 addrs = Inr rest"
    using Cons.prems(2) by (auto simp: bindR_Inr_conv split: sum.splits)
  show ?case
  proof (cases "a \<in> set rest")
    case True
    then show ?thesis using Cons.IH [OF _ s(2)] Cons.prems(1) by (metis list.set_intros(2))
  next
    case False
    then have "sa_addr a = addr \<and> (host = [] \<or> host = ''*'' \<and> plan9 \<or>
        (\<exists>ip. ParseIP (strip_zone host) = Some ip \<and> sa_net a = (if To4 ip = None then ''tcp6'' else ''tcp4'')))"
      using Cons.prems(2,3) s by (auto simp: bindR_Inr_conv Let_def split: if_splits option.splits)
    then show ?thesis using Cons.prems(1) s(1) by auto
  qed
qed simp

lemma open_listeners_sound:
  "l \<in> set (open_listeners env tls as) \<Longrightarrow> \<exists>a \<in> set as. se_listen env tls (sa_net a) (sa_addr a) = Inr l"
  by (induction as) (auto split: sum.splits)

lemma setupRPCListeners_ok:
  assumes "setupRPCListeners env cfg fs = (Inr lns, fs')"
  shows "\<exists>nas. parseListeners (se_plan9 env) (RPCListeners cfg) = Inr nas \<and> lns = open_listeners env (\<not> DisableTLS cfg) nas"
proof (cases "setup_tls env cfg fs")
  case (Pair err fs1)
  with assms show ?thesis by (auto simp: setupRPCListeners_def bindR_Inr_conv split: option.splits)
qed

lemma newServer_listeners:
  assumes "newServer env cfg fs = (Inr s, fs')"
  shows "srv_wg s = 0 \<and> \<not> srv_quit_closed s \<and>
    (srv_rpcServer s = None \<longleftrightarrow> DisableRPC cfg) \<and>
    (\<forall>rpc. srv_rpcServer s = Some rpc \<longrightarrow> (\<exists>nas. parseListeners (se_plan9 env) (RPCListeners cfg) = Inr nas \<and>
       rpc = newRPCServer (rpc_settings cfg) (open_listeners env (\<not> DisableTLS cfg) nas) \<and> rpc_listeners rpc \<noteq> []))"
proof (cases "DisableRPC cfg")
  case True
  then show ?thesis using assms by (auto simp: newServer_def Let_def split: option.splits)
next
  case False
  obtain r fs1 where r: "setupRPCListeners env cfg fs = (r, fs1)" by fastforce
  then obtain lns where lns: "r = Inr lns" "lns \<noteq> []"
    "s = \<lparr>srv_rpcServer = Some (newRPCServer (rpc_settings cfg) lns), srv_wg = 0, srv_quit_closed = False, srv_capacity = MaxPeers cfg\<rparr>"
    using assms False by (auto simp: newServer_def Let_def split: option.splits sum.splits if_splits)
  with False setupRPCListeners_ok [OF r [unfolded lns(1)]] show ?thesis by (auto simp: newRPCServer_def)
qed

lemma local_hosts:
  "ParseIP (strip_zone ''localhost'') = None"
  "ParseIP (strip_zone ''127.0.0.1'') = Some loopback4" "To4 loopback4 = Some [127, 0, 0, 1]"
  "ParseIP (strip_zone ''::1'') = Some loopback6" "To4 loopback6 = None"
  by code_simp+

text \<open>
  C5: When an accepted configuration turns TLS off, the RPC server listens, without it, on loopback addresses
  only: every listener it has comes from listening on 127.0.0.1 or on ::1.
\<close>

theorem plain_listeners_local:
  assumes "loadConfig cenv testnet loggers = Inr (net, cfg, loggers', args)" and "DisableTLS cfg"
    and "newServer env cfg fs = (Inr s, fs')" and "srv_rpcServer s = Some rpc"
  shows "rpc_listeners rpc \<noteq> [] \<and> (\<forall>l \<in> set (rpc_listeners rpc). \<exists>network addr host port.
    se_listen env False network addr = Inr l \<and> addr \<in> set (RPCListeners cfg) \<and> SplitHostPort addr = Inr (host, port) \<and>
    (network, host) \<in> {(''tcp4'', ''127.0.0.1''), (''tcp6'', ''::1'')})"
proof -
  obtain nas where n: "parseListeners (se_plan9 env) (RPCListeners cfg) = Inr nas"
    "rpc_listeners rpc = open_listeners env False nas" "rpc_listeners rpc \<noteq> []" "\<not> DisableRPC cfg"
    using newServer_listeners [OF assms(3)] assms(2,4) by (auto simp: newRPCServer_def)
  have c: "\<exists>host port. SplitHostPort addr = Inr (host, port) \<and> host \<in> {''localhost'', ''127.0.0.1'', ''::1''}"
    if "addr \<in> set (RPCListeners cfg)" for addr
    using loadConfig_rpc [OF assms(1) n(4)] assms(2) that by blast
  have "\<exists>network addr host port. se_listen env False network addr = Inr l \<and> addr \<in> set (RPCListeners cfg) \<and>
      SplitHostPort addr = Inr (host, port) \<and> (network, host) \<in> {(''tcp4'', ''127.0.0.1''), (''tcp6'', ''::1'')}"
    if l: "l \<in> set (rpc_listeners rpc)" for l
  proof -
    obtain a where a: "a \<in> set nas" "se_listen env False (sa_net a) (sa_addr a) = Inr l"
      using open_listeners_sound l unfolding n(2) by blast
    obtain host port where h: "sa_addr a \<in> set (RPCListeners cfg)" "SplitHostPort (sa_addr a) = Inr (host, port)"
      "host = [] \<or> host = ''*'' \<and> se_plan9 env \<or>
       (\<exists>ip. ParseIP (strip_zone host) = Some ip \<and> sa_net a = (if To4 ip = None then ''tcp6'' else ''tcp4''))"
      using parseListeners_sound [OF n(1) a(1)] .
    have "host \<in> {''localhost'', ''127.0.0.1'', ''::1''}" using c [OF h(1)] h(2) by auto
    then have "(sa_net a, host) \<in> {(''tcp4'', ''127.0.0.1''), (''tcp6'', ''::1'')}" using h(3) local_hosts by auto
    with a h(1,2) show ?thesis by blast
  qed
  with n(3) show ?thesis by blast
qed

text \<open>So the name \<open>localhost\<close>, which the configuration lets through, keeps the server from starting.\<close>

lemma localhost_refused:
  "parseListeners plan9 [''localhost:8334''] = Inl ([CHR 0x27] @ ''localhost'' @ [CHR 0x27] @ '' is not a valid IP address'')"
proof -
  have "SplitHostPort ''localhost:8334'' = Inr (''localhost'', ''8334'')" "strip_zone ''localhost'' = ''localhost''" by code_simp+
  then show ?thesis using local_hosts(1) by (simp add: Let_def)
qed

section \<open>The life of the process\<close>

lemma make_chan_fits: "0 \<le> n \<Longrightarrow> n \<le> 2 ^ 40 \<Longrightarrow> k \<in> {8, 24, 40} \<Longrightarrow> make_chan k n = None"
  by (auto simp: make_chan_def)

lemma newServer_no_panic:
  assumes "0 \<le> MaxPeers cfg" "MaxPeers cfg \<le> 2 ^ 40"
  shows "fst (newServer env cfg fs) \<noteq> Inl (SrvPanic msg)"
  using make_chan_fits [OF assms]
  by (auto simp: newServer_def Let_def split: prod.splits sum.splits if_splits)

lemma newServer_negative: "MaxPeers cfg < 0 \<Longrightarrow> newServer env cfg fs = (Inl (SrvPanic ''makechan: size out of range''), fs)"
  by (simp add: newServer_def make_chan_def)

text \<open>What is left of a server that was started and stopped.\<close>

definition stopped :: "config \<Rightarrow> server \<Rightarrow> bool" where
  "stopped cfg s \<longleftrightarrow> srv_quit_closed s \<and> (srv_rpcServer s = None \<longleftrightarrow> DisableRPC cfg) \<and>
     (srv_wg s = 0 \<longleftrightarrow> DisableRPC cfg) \<and>
     (\<forall>rpc. srv_rpcServer s = Some rpc \<longrightarrow> rpc_started rpc = 1 \<and> rpc_shutdown rpc = 1 \<and> rpc_listeners rpc \<noteq> [] \<and>
        (rpc_quit_closed rpc \<longleftrightarrow> list_all (\<lambda>l. l = None) (rpc_listeners rpc)) \<and>
        (ntfnMgr_running rpc \<longleftrightarrow> \<not> list_all (\<lambda>l. l = None) (rpc_listeners rpc)))"

lemma rpc_started_stopped:
  assumes "rpc = newRPCServer cfg lns"
  shows "\<exists>res rpc'. Stop (Start rpc) = Inr (res, rpc') \<and> rpc_started rpc' = 1 \<and> rpc_shutdown rpc' = 1 \<and> rpc_listeners rpc' = lns \<and>
    (rpc_quit_closed rpc' \<longleftrightarrow> list_all (\<lambda>l. l = None) lns) \<and> (ntfnMgr_running rpc' \<longleftrightarrow> \<not> list_all (\<lambda>l. l = None) lns)"
proof -
  have s: "Start rpc = rpc\<lparr>rpc_started := 1, ntfnMgr_running := True\<rparr>" by (simp add: assms Start_def newRPCServer_def Let_def)
  have "rpc_shutdown (Start rpc) = 0" "\<not> ntfnMgr_quit_closed (Start rpc)" "\<not> rpc_quit_closed (Start rpc)"
    unfolding s by (simp_all add: assms newRPCServer_def)
  note st = Stop_first [OF this]
  have l: "rpc_listeners (Start rpc) = lns" unfolding s by (simp add: assms newRPCServer_def)
  show ?thesis
    unfolding st closes_all_def l unfolding s by (cases "list_all (\<lambda>l. l = None) lns") (simp_all add: assms newRPCServer_def)
qed

lemma server_stopped:
  assumes "newServer env cfg fs = (Inr s, fs')"
  obtains s1 s2 where "Server_Start cfg s = Inr s1" "Server_Stop cfg s1 = Inr s2" "stopped cfg s2"
proof (cases "srv_rpcServer s")
  case None
  have d: "DisableRPC cfg" "srv_wg s = 0" "\<not> srv_quit_closed s" using newServer_listeners [OF assms] None by blast+
  have "Server_Start cfg s = Inr s" using d(1) by (simp add: Server_Start_def)
  moreover have "Server_Stop cfg s = Inr (s\<lparr>srv_quit_closed := True\<rparr>)" using d(1,3) by (simp add: Server_Stop_def close_srv_quit_def)
  moreover have "stopped cfg (s\<lparr>srv_quit_closed := True\<rparr>)" using d(1,2) None by (simp add: stopped_def)
  ultimately show ?thesis by (rule that)
next
  case (Some rpc)
  then obtain lns where rpc: "rpc = newRPCServer (rpc_settings cfg) lns" "lns \<noteq> []" "\<not> DisableRPC cfg" "srv_wg s = 0" "\<not> srv_quit_closed s"
    using newServer_listeners [OF assms] by (force simp: newRPCServer_def)
  obtain res rpc' where sp: "Stop (Start rpc) = Inr (res, rpc')" "rpc_started rpc' = 1" "rpc_shutdown rpc' = 1"
    "rpc_listeners rpc' = lns" "rpc_quit_closed rpc' \<longleftrightarrow> list_all (\<lambda>l. l = None) lns"
    "ntfnMgr_running rpc' \<longleftrightarrow> \<not> list_all (\<lambda>l. l = None) lns"
    using rpc_started_stopped [OF rpc(1)] by blast
  have "Server_Start cfg s = Inr (s\<lparr>srv_wg := 1, srv_rpcServer := Some (Start rpc)\<rparr>)"
    using rpc(3,4) Some by (simp add: Server_Start_def rebroadcastHandler_def)
  moreover have "Server_Stop cfg (s\<lparr>srv_wg := 1, srv_rpcServer := Some (Start rpc)\<rparr>) =
      Inr (s\<lparr>srv_wg := 1, srv_rpcServer := Some rpc', srv_quit_closed := True\<rparr>)"
    using rpc(3,5) sp(1) by (simp add: Server_Stop_def close_srv_quit_def)
  moreover have "stopped cfg (s\<lparr>srv_wg := 1, srv_rpcServer := Some rpc', srv_quit_closed := True\<rparr>)"
    using rpc(2,3) sp(2-6) by (simp add: stopped_def)
  ultimately show ?thesis by (rule that)
qed

lemma interruptRequested_iff: "interruptRequested events \<longleftrightarrow> events \<noteq> []"
  by (cases events rule: rev_cases) (auto simp: interruptRequested_def interruptListener_def interrupt_step_def split: prod.splits)


section \<open>Sample runs\<close>

text \<open>A run with TLS turned off and with this number of peers, on a machine where listening works.\<close>

definition plain_env :: "int \<Rightarrow> string config_env" where
  "plain_env n = sample_env\<lparr>env_cli_parse := (\<lambda>cfg. (cfg\<lparr>DisableTLS := True, MaxPeers := n\<rparr>, None, []))\<rparr>"

lemma plain_loaded:
  "\<exists>cfg lv. loadConfig (plain_env n) testnet sample_levels = Inr (mainNetParams, cfg, lv, []) \<and>
     DisableTLS cfg \<and> \<not> DisableRPC cfg \<and> MaxPeers cfg = n \<and> RPCListeners cfg = [''127.0.0.1:8334'', ''[::1]:8334'']"
proof -
  let ?c = "(default_config ''/home/u/.acbc'')\<lparr>DisableTLS := True, MaxPeers := n\<rparr>"
  have o: "parse_options (plain_env n) = Inr (?c, [])"
    by (simp add: parse_options_def sample_env_def plain_env_def read_ini_def config_content_def default_config_def)
  obtain cfg lv where "complete_config (plain_env n) testnet sample_levels ?c = Inr (mainNetParams, cfg, lv)"
    "rpc_fields cfg = ((''jiajimeidou'', ''12345678'', [], []), False, True)" "MaxPeers cfg = n"
    "RPCListeners cfg = [''127.0.0.1:8334'', ''[::1]:8334'']"
    using plain_completed [where f = "\<lambda>cfg. (cfg\<lparr>DisableTLS := True, MaxPeers := n\<rparr>, None, [])" and testnet = testnet and tls = True and n = n]
    unfolding plain_env_def by blast
  then show ?thesis by (simp add: loadConfig_def o rpc_fields_def)
qed

definition sample_server_env :: "unit server_env" where
  "sample_server_env =
     \<lparr>se_plan9 = False, se_cert = sample_cert_env, se_write = (\<lambda>path text fs. (None, fs(path \<mapsto> text))),
      se_load_pair = (\<lambda>_ _. None), se_listen = (\<lambda>_ _ _. Inr None)\<rparr>"

lemma sample_newServer:
  assumes "DisableTLS cfg" "\<not> DisableRPC cfg" "MaxPeers cfg = 125" "RPCListeners cfg = [''127.0.0.1:8334'', ''[::1]:8334'']"
  shows "\<exists>s. newServer sample_server_env cfg fs = (Inr s, fs) \<and> srv_rpcServer s = Some (newRPCServer (rpc_settings cfg) [None, None])"
proof -
  have p: "parseListeners False (RPCListeners cfg) =
      Inr [\<lparr>sa_net = ''tcp4'', sa_addr = ''127.0.0.1:8334''\<rparr>, \<lparr>sa_net = ''tcp6'', sa_addr = ''[::1]:8334''\<rparr>]"
    unfolding assms(4) parseListeners.simps sample_addresses sum.case case_prod_conv Let_def local_hosts option.case by simp
  have l: "setupRPCListeners sample_server_env cfg fs = (Inr [None, None], fs)"
    using assms(1) p by (simp add: setupRPCListeners_def setup_tls_def sample_server_env_def)
  show ?thesis using assms(2,3) l by (simp add: newServer_def make_chan_def)
qed

theorem plain_listeners_local_witness:
  "\<exists>cfg lv s rpc. loadConfig (plain_env 125) regressionNetParams sample_levels = Inr (mainNetParams, cfg, lv, []) \<and> DisableTLS cfg \<and>
     newServer sample_server_env cfg Map.empty = (Inr s, Map.empty) \<and> srv_rpcServer s = Some rpc \<and> rpc_listeners rpc \<noteq> []"
proof -
  obtain cfg lv where c: "loadConfig (plain_env 125) regressionNetParams sample_levels = Inr (mainNetParams, cfg, lv, [])"
    "DisableTLS cfg" "\<not> DisableRPC cfg" "MaxPeers cfg = 125" "RPCListeners cfg = [''127.0.0.1:8334'', ''[::1]:8334'']"
    using plain_loaded by blast
  obtain s where s: "newServer sample_server_env cfg Map.empty = (Inr s, Map.empty)"
    "srv_rpcServer s = Some (newRPCServer (rpc_settings cfg) [None, None])"
    using sample_newServer [OF c(2-5)] by blast
  from plain_listeners_local [OF c(1,2) s] c(1,2) s show ?thesis by blast
qed


text \<open>A negative number of peers is accepted, and the process panics.\<close>

lemma negative_peers_panic:
  assumes "n < 0"
  shows "fst (acbcMain (plain_env n) testnet sample_levels env fs events) = MainPanic ''makechan: size out of range''"
proof -
  obtain cfg lv where c: "loadConfig (plain_env n) testnet sample_levels = Inr (mainNetParams, cfg, lv, [])" "MaxPeers cfg = n"
    using plain_loaded by blast
  then show ?thesis using newServer_negative [of cfg env fs] assms by (simp add: acbcMain_def failure_result_def)
qed

end
