(* ===== verification/Spec2Isabelle.thy ===== *)
theory Spec2Isabelle
  imports Wire_Tx Blocks Acbcjson_Types Rpcserver_Conn Ws_Notify Rpc_Session Server
begin

text \<open>
  A verification development for acbc, a bitcoin node skeleton written in Go. All paths are relative to
  the root of the repository.

  \<^bold>\<open>The program.\<close> \<^verbatim>\<open>acbc.go\<close> loads the configuration (\<^verbatim>\<open>config.go\<close>) and runs the server (\<^verbatim>\<open>server.go\<close>)
  until it is interrupted (\<^verbatim>\<open>signal.go\<close>). Of the node only the RPC side is alive: \<^verbatim>\<open>rpcserver.go\<close> serves
  requests over HTTP and \<^verbatim>\<open>rpcwebsocket.go\<close> over websockets, with the same parser and the same handlers,
  and a manager that notifies websocket clients. \<^verbatim>\<open>acbcjson\<close> turns JSON-RPC requests into typed commands
  through a registry that is filled when the program starts; \<^verbatim>\<open>rpcclient\<close> is the other end of the
  connection, a library that issues commands as futures. Below that, \<^verbatim>\<open>wire\<close> reads and writes transactions
  and block headers, \<^verbatim>\<open>acbcutil\<close> wraps them with cached hashes, \<^verbatim>\<open>blockchain\<close> answers which block is at a
  height, \<^verbatim>\<open>chaincfg\<close> holds the parameters of the networks, and \<^verbatim>\<open>connmgr\<close> has helpers for connections.

  \<^bold>\<open>Theories.\<close>
  \<^item> \<^verbatim>\<open>Prelude\<close>: integer types as words, bytes in both orders, Go errors as a datatype (a panic is one of
    them), number formatting, hexadecimal digits, times, and the locale \<^verbatim>\<open>invariant_system\<close> of an
    initial state, a step relation and an invariant. \<^verbatim>\<open>Codec\<close>: the locales of an encoder and a decoder
    that agree. What the program uses of the standard library: \<^verbatim>\<open>Sha256\<close> (with base 64), \<^verbatim>\<open>Json\<close> (with
    \<^verbatim>\<open>reflect\<close>), \<^verbatim>\<open>Float64\<close> (rational numbers with the rounding written out, and on them the amounts of
    \<^verbatim>\<open>acbcutil/amount.go\<close>), \<^verbatim>\<open>Net_IP\<close> (\<^verbatim>\<open>net.ParseIP\<close> and \<^verbatim>\<open>net.ParseCIDR\<close> of Go 1.17).
    \<^verbatim>\<open>Sha256_Bits\<close>: the digest once more on lists of bits, for evaluation in the kernel.
  \<^item> \<^verbatim>\<open>Chainhash\<close> (\<^verbatim>\<open>chaincfg/chainhash\<close>): hashes and their text form.
  \<^item> \<^verbatim>\<open>Wire_Common\<close> (\<^verbatim>\<open>wire/common.go\<close>): a reader is the list of bytes still to come, a writer the bytes
    written and the room left. Integers with the free list of buffers, elements, variable length
    integers, strings and byte arrays; each pair is an interpretation of a codec locale.
  \<^item> \<^verbatim>\<open>Wire_Tx\<close> (\<^verbatim>\<open>wire/msgtx.go\<close>): transactions, sizes, both encodings, and the decoder with its pool of
    script buffers and the contiguous buffer the scripts are copied into.
  \<^item> \<^verbatim>\<open>Blocks\<close>: block headers (\<^verbatim>\<open>wire/blockheader.go\<close>), the caches of \<^verbatim>\<open>acbcutil/block.go\<close> and
    \<^verbatim>\<open>acbcutil/tx.go\<close>, \<^verbatim>\<open>blockchain/chainview.go\<close> and \<^verbatim>\<open>chain.go\<close>, and the deployments of
    \<^verbatim>\<open>chaincfg/deployment_time_frame.go\<close>. \<^verbatim>\<open>Genesis\<close> (\<^verbatim>\<open>chaincfg/genesis.go\<close>): the genesis blocks and
    their hashes. \<^verbatim>\<open>Chaincfg\<close> (\<^verbatim>\<open>chaincfg/params.go\<close>, \<^verbatim>\<open>params.go\<close>): the parameters of the networks.
  \<^item> \<^verbatim>\<open>Acbcjson\<close>: errors, requests, responses (\<^verbatim>\<open>jsonrpc.go\<close>), the registry (\<^verbatim>\<open>register.go\<close>) and the
    conversion of commands (\<^verbatim>\<open>cmdparse.go\<close>). \<^verbatim>\<open>Acbcjson_Types\<close>: the commands, results and notifications
    of the package as types with their constructors, and the registrations.
  \<^item> \<^verbatim>\<open>Rpcserver\<close> (\<^verbatim>\<open>rpcserver.go\<close>): the server as a record, authentication, requests and batches.
    \<^verbatim>\<open>Rpcserver_Conn\<close>: one HTTP request from the limit on clients to the reply, handlers in parallel,
    \<^verbatim>\<open>Stop\<close> and the status lines.
  \<^item> \<^verbatim>\<open>Ws_Queue\<close>: the two queues of \<^verbatim>\<open>rpcwebsocket.go\<close> as interpretations of the locale \<^verbatim>\<open>fifo\<close>.
    \<^verbatim>\<open>Ws_Client\<close>: a client and its outgoing goroutines as a step relation. \<^verbatim>\<open>Rpcwebsocket\<close>: its incoming
    side, \<^verbatim>\<open>inHandler\<close> and \<^verbatim>\<open>serviceRequest\<close>. \<^verbatim>\<open>Ws_Notify\<close>: the notification manager.
  \<^item> \<^verbatim>\<open>Rpcclient_Ntfn\<close> (\<^verbatim>\<open>rpcclient/notify.go\<close>): the parsers of the notifications and their dispatch.
    \<^verbatim>\<open>Rpcclient\<close> (\<^verbatim>\<open>rpcclient/infrastructure.go\<close>, \<^verbatim>\<open>chain.go\<close>): the client as a record, its tracking of
    requests, disconnecting and shutting down. \<^verbatim>\<open>Rpcclient_Msg\<close>: what it makes of the messages of the
    server. \<^verbatim>\<open>Rpcclient_Run\<close>: all its goroutines as a step relation. \<^verbatim>\<open>Rpcclient_Http\<close>: the HTTP POST mode,
    dialing and the cookie file. \<^verbatim>\<open>Rpc_Session\<close>: client and server together.
  \<^item> \<^verbatim>\<open>Config_Text\<close>: the functions of \<^verbatim>\<open>config.go\<close> on text (addresses, checkpoints, log levels of
    \<^verbatim>\<open>log.go\<close>, paths, the copy of the sample file), \<^verbatim>\<open>version.go\<close> and \<^verbatim>\<open>acbcutil/appdata.go\<close>.
    \<^verbatim>\<open>Config\<close>: the options as a record and \<^verbatim>\<open>loadConfig\<close>, one definition per check, composed in the order
    of the source. \<^verbatim>\<open>Credentials\<close>: from the options to what \<^verbatim>\<open>checkAuth\<close> lets in.
  \<^item> \<^verbatim>\<open>Connmgr\<close> (\<^verbatim>\<open>connmgr\<close>): ban scores and the lookup of names through Tor. \<^verbatim>\<open>Certs\<close>
    (\<^verbatim>\<open>acbcutil/certgen.go\<close>, \<^verbatim>\<open>genCertPair\<close>): the certificate of the RPC server. \<^verbatim>\<open>Server\<close> (\<^verbatim>\<open>server.go\<close>,
    \<^verbatim>\<open>signal.go\<close>, \<^verbatim>\<open>acbc.go\<close>, \<^verbatim>\<open>rpcadapters.go\<close>): listeners, the life of the server and \<^verbatim>\<open>acbcMain\<close>.

  \<^bold>\<open>Correspondence.\<close> A struct is a record, an operation of a Go method a definition of the same name that
  takes the state and returns it updated, prefixed with its type where names clash. An error return is
  the left side of a sum, a panic an error value of its own. A map is a HOL map or, where its size
  matters, an association list. A goroutine is a set of steps of an inductive relation; the state of a
  channel is the list of what is in it, a closed channel a flag. Fixed width integers whose wrap-around
  can matter are words, Go's \<^verbatim>\<open>int\<close> is \<open>int\<close> or \<open>nat\<close> where the code keeps it small. A \<^verbatim>\<open>float64\<close> is a
  rational number, rounded after each operation.

  \<^bold>\<open>What the theorems show.\<close> The decoder of transactions accepts exactly the encodings of transactions
  within its limits and never leaves its buffers; headers, hashes and all elements make the round trip;
  caches and pools do not change results; the genesis blocks have the hashes written down for them.
  Commands survive the registry; the registry stays well formed. Every reply of the RPC server belongs
  to its request and to what its user may do, over HTTP and over a websocket alike; queues deliver in
  order and never block each other. In every interleaving of the client's goroutines a future is
  answered at most once, and always after a shutdown; a call goes from the client through the server
  and back. An accepted configuration keeps its limits, sends no onion traffic past its proxy, lets in
  exactly the configured credentials, and without TLS listens on the machine itself only; the process
  ends when interrupted and never panics with it. Scores stay within their penalties, and Tor answers
  are never mistaken. Several theorems show where the code does not do what it is meant to: unregistered
  websocket commands, requests without a version, negative indices, clients that are never removed,
  limits that are not atomic, a wait group that is never done, options that are accepted but crash.

  \<^bold>\<open>Parameters.\<close> The median time clock and all other clocks, random bytes, keys and session ids, files,
  the environment, name lookups, listening, dialing and the outcome of hijacking or closing a connection
  are arguments. So are the parsers of the flags package, which change the options, the levels of the
  log package, \<^verbatim>\<open>math.Exp\<close>, of which only the range up to zero is used, and the encodings of X.509. JSON
  documents come parsed: what \<^verbatim>\<open>encoding/json\<close> does with text that is no JSON is an error argument.

  \<^bold>\<open>Termination and bounds.\<close> All recursions are structural or have a measure; loops over input consume
  it. No fuel is used. Numbers in JSON are exact up to \<open>2 ^ 53\<close>, so the theorems on the ids of requests
  are up to there. Conversions that the language leaves open (a \<^verbatim>\<open>float64\<close> out of range, the greatest
  channel) are those of amd64. Texts are bytes; upper and lower case are those of ASCII.

  \<^bold>\<open>Not modelled.\<close> Logging and its rotation, sockets and TLS connections; interfaces and structs without
  an operation (\<^verbatim>\<open>database\<close>, \<^verbatim>\<open>mempool\<close>, \<^verbatim>\<open>mining\<close>, \<^verbatim>\<open>peer\<close>, parts of \<^verbatim>\<open>blockchain\<close>), the code that is
  commented out in the sources, the service of Windows, which has no code, and the example programs.
\<close>

end
